(* ===== verification/Prelude.thy ===== *)
theory Prelude
  imports Main "HOL-Library.Word" "HOL-Library.Monad_Syntax"
begin

text \<open>
  Shared vocabulary of the uGC development: the target's word width, C integers and C
  arrays, and the generic facts on options, words and disjoint address ranges that the
  component theories use.

  A C function that may run into undefined behaviour returns an \<open>option\<close>: \<open>None\<close> is
  undefined behaviour (an array index out of bounds, a dereference of a pointer that points
  to no object, signed overflow) and \<open>Some\<close> carries the result and the new state. Error
  values of the program itself (a null pointer, -1, an error code) are ordinary results.
\<close>

named_theorems c_simps \<open>when a C primitive has a result, and which\<close>

section \<open>The target\<close>

text \<open>
  The sources are built for RV64 and RV32, so \<open>size_t\<close>, \<open>uintptr_t\<close> and pointers are words
  of the polymorphic width \<open>'w\<close>; a statement that needs a real target says so.
\<close>

definition rv_target :: "'w::len itself \<Rightarrow> bool" where
  "rv_target _ \<longleftrightarrow> LENGTH('w) = 32 \<or> LENGTH('w) = 64"

lemma rv_target_32 [simp]: "rv_target TYPE(32)"
  by (simp add: rv_target_def)

lemma rv_target_64 [simp]: "rv_target TYPE(64)"
  by (simp add: rv_target_def)

lemma rv_target_cases:
  assumes "rv_target TYPE('w::len)"
  obtains "LENGTH('w) = 32" | "LENGTH('w) = 64"
  using assms by (auto simp: rv_target_def)

text \<open>\<open>sizeof(void *)\<close>.\<close>

definition ptr_bytes :: "'w::len itself \<Rightarrow> nat" where
  "ptr_bytes _ = LENGTH('w) div 8"

lemma ptr_bytes_pos: "rv_target TYPE('w::len) \<Longrightarrow> 0 < ptr_bytes TYPE('w)"
  by (auto simp: rv_target_def ptr_bytes_def)

lemma ptr_bytes_le_8: "rv_target TYPE('w::len) \<Longrightarrow> ptr_bytes TYPE('w) \<le> 8"
  by (auto simp: rv_target_def ptr_bytes_def)

lemma target_pow_le: "rv_target TYPE('w::len) \<Longrightarrow> (2::nat) ^ 32 \<le> 2 ^ LENGTH('w)"
  by (rule power_increasing) (auto simp: rv_target_def)

lemma unat_of_small:
  assumes "rv_target TYPE('w::len)" and "n < 2 ^ 32"
  shows "unat (of_nat n :: 'w word) = n"
  using assms target_pow_le [OF assms(1)] by (simp add: unat_of_nat)

section \<open>C integers\<close>

text \<open>
  A C \<open>int\<close> is a mathematical integer kept in the range of 32 bits: arithmetic that leaves
  the range is undefined behaviour. \<open>int_of_size\<close> is the conversion \<open>(int)idx\<close> of a
  \<open>size_t\<close>, which the compilers used define as reduction modulo \<open>2 ^ 32\<close>.
\<close>

definition c_int :: "int \<Rightarrow> int option" where
  "c_int x = (if - (2 ^ 31) \<le> x \<and> x < 2 ^ 31 then Some x else None)"

definition c_int64 :: "int \<Rightarrow> int option" where
  "c_int64 x = (if - (2 ^ 63) \<le> x \<and> x < 2 ^ 63 then Some x else None)"

definition int_of_size :: "'w::len word \<Rightarrow> int" where
  "int_of_size x = sint (ucast x :: 32 word)"

definition int64_of_size :: "'w::len word \<Rightarrow> int" where
  "int64_of_size x = sint (ucast x :: 64 word)"

lemma c_int_Some_iff [c_simps]: "c_int x = Some y \<longleftrightarrow> y = x \<and> - (2 ^ 31) \<le> x \<and> x < 2 ^ 31"
  by (auto simp: c_int_def)

lemma c_int_in_range [simp]: "- (2 ^ 31) \<le> x \<Longrightarrow> x < 2 ^ 31 \<Longrightarrow> c_int x = Some x"
  by (simp add: c_int_def)

lemma c_int64_Some_iff [c_simps]: "c_int64 x = Some y \<longleftrightarrow> y = x \<and> - (2 ^ 63) \<le> x \<and> x < 2 ^ 63"
  by (auto simp: c_int64_def)

lemma sint_eq_uint_small:
  assumes "uint (y :: 'n::len word) < 2 ^ (LENGTH('n) - 1)"
  shows "sint y = uint y"
proof -
  have "sint y = signed_take_bit (LENGTH('n) - 1) (uint y)"
    by (simp add: sint_uint)
  also have "\<dots> = uint y"
    using assms by (intro signed_take_bit_int_eq_self) (auto intro: order_trans [of _ 0])
  finally show ?thesis .
qed

lemma uint_ucast_small:
  assumes "uint (x :: 'w::len word) < 2 ^ LENGTH('n::len)"
  shows "uint (ucast x :: 'n word) = uint x"
  using assms by (simp add: unsigned_ucast_eq take_bit_int_eq_self_iff)

lemma int_of_size_small:
  assumes "unat (x :: 'w::len word) < 2 ^ 31"
  shows "int_of_size x = int (unat x)"
proof -
  have x: "uint x < 2 ^ 31"
    using assms of_nat_less_iff [of "unat x" "2 ^ 31", where ?'a = int] by simp
  then have u: "uint (ucast x :: 32 word) = uint x" by (intro uint_ucast_small) simp
  show ?thesis using x u by (simp add: int_of_size_def sint_eq_uint_small)
qed

lemma int64_of_size_small:
  assumes "unat (x :: 'w::len word) < 2 ^ 63"
  shows "int64_of_size x = int (unat x)"
proof -
  have x: "uint x < 2 ^ 63"
    using assms of_nat_less_iff [of "unat x" "2 ^ 63", where ?'a = int] by simp
  then have u: "uint (ucast x :: 64 word) = uint x" by (intro uint_ucast_small) simp
  show ?thesis using x u by (simp add: int64_of_size_def sint_eq_uint_small)
qed

section \<open>C arrays\<close>

text \<open>
  A static array of \<open>n\<close> elements is its content by index; the bound is checked at every
  access. \<open>ard\<close> reads, \<open>awr\<close> writes.
\<close>

type_synonym 'a carray = "nat \<Rightarrow> 'a"

definition ard :: "nat \<Rightarrow> 'a carray \<Rightarrow> int \<Rightarrow> 'a option" where
  "ard n a i = (if 0 \<le> i \<and> i < int n then Some (a (nat i)) else None)"

definition awr :: "nat \<Rightarrow> 'a carray \<Rightarrow> int \<Rightarrow> 'a \<Rightarrow> 'a carray option" where
  "awr n a i v = (if 0 \<le> i \<and> i < int n then Some (a(nat i := v)) else None)"

lemma ard_in [simp]: "0 \<le> i \<Longrightarrow> i < int n \<Longrightarrow> ard n a i = Some (a (nat i))"
  by (simp add: ard_def)

lemma awr_in [simp]: "0 \<le> i \<Longrightarrow> i < int n \<Longrightarrow> awr n a i v = Some (a(nat i := v))"
  by (simp add: awr_def)

lemma ard_Some_iff [c_simps]: "ard n a i = Some v \<longleftrightarrow> 0 \<le> i \<and> i < int n \<and> v = a (nat i)"
  by (auto simp: ard_def)

lemma awr_Some_iff [c_simps]: "awr n a i v = Some b \<longleftrightarrow> 0 \<le> i \<and> i < int n \<and> b = a(nat i := v)"
  by (auto simp: awr_def)

section \<open>Words\<close>

lemma unat_add_small:
  fixes a b :: "'w::len word"
  assumes "unat a + unat b < 2 ^ LENGTH('w)"
  shows "unat (a + b) = unat a + unat b"
  using assms by (simp add: unat_word_ariths)

lemma unat_minus_le:
  fixes a b :: "'w::len word"
  assumes "unat b \<le> unat a"
  shows "unat (a - b) = unat a - unat b"
  using assms by (simp add: unat_sub word_le_nat_alt)

text \<open>The overflow guard of the allocator in arithmetic terms.\<close>

lemma gt_max_minus_iff:
  fixes a b :: "'w::len word"
  shows "a > - 1 - b \<longleftrightarrow> 2 ^ LENGTH('w) \<le> unat a + unat b"
proof -
  have "unat (- 1 :: 'w word) = 2 ^ LENGTH('w) - 1"
    by (simp add: unsigned_minus_1_eq_mask mask_eq_exp_minus_1)
  moreover have "unat b \<le> unat (- 1 :: 'w word)"
    by (metis word_le_nat_alt word_order.extremum)
  ultimately have "unat (- 1 - b) = 2 ^ LENGTH('w) - 1 - unat b"
    by (simp add: unat_minus_le)
  moreover have "unat b < 2 ^ LENGTH('w)" by simp
  ultimately show ?thesis
    unfolding word_less_nat_alt by arith
qed

section \<open>Disjoint ranges of addresses\<close>

text \<open>A range is its first address and the address after its last.\<close>

definition apart :: "nat \<times> nat \<Rightarrow> nat \<times> nat \<Rightarrow> bool" where
  "apart r s \<longleftrightarrow> snd r \<le> fst s \<or> snd s \<le> fst r"

definition inside :: "nat \<times> nat \<Rightarrow> nat \<times> nat \<Rightarrow> bool" where
  "inside r s \<longleftrightarrow> fst s \<le> fst r \<and> fst r \<le> snd r \<and> snd r \<le> snd s"

lemma apart_sym: "apart r s \<Longrightarrow> apart s r"
  by (auto simp: apart_def)

lemma apart_inside: "apart r s \<Longrightarrow> inside r' r \<Longrightarrow> apart r' s"
  by (auto simp: apart_def inside_def)

lemma apart_inside2: "apart r s \<Longrightarrow> inside s' s \<Longrightarrow> apart r s'"
  by (auto simp: apart_def inside_def)

lemma inside_trans: "inside r s \<Longrightarrow> inside s t \<Longrightarrow> inside r t"
  by (auto simp: inside_def)

lemma inside_refl: "fst r \<le> snd r \<Longrightarrow> inside r r"
  by (simp add: inside_def)

lemma apart_no_common: "apart r s \<Longrightarrow> fst r \<le> x \<Longrightarrow> x < snd r \<Longrightarrow> \<not> (fst s \<le> x \<and> x < snd s)"
  by (auto simp: apart_def)

end
