(* ===== verification/CMemory.thy ===== *)
theory CMemory
  imports Prelude
begin

text \<open>
  The memory the C core works on, and the zeroing allocator below it
  (\<open>ugc/core/ugc_zalloc.c\<close>).

  \<^item> \<open>blocks\<close>: the blocks \<open>calloc\<close> has handed out, newest first, as (address, size);
  \<^item> \<open>bytes\<close>: the content of byte memory;
  \<^item> \<open>cells\<close>: the pointer variables that exist outside the core's own arrays (the
    \<open>alloc_ptr\<close> and \<open>alloc_limit\<close> fields of allocation contexts, local slots of callers),
    by address; an address with no cell cannot be dereferenced;
  \<^item> \<open>i64s\<close>: the \<open>int64_t\<close> variables (the byte counters of allocation contexts);
  \<^item> \<open>placements\<close>: the addresses at which the C library will place the next blocks.
  The type of addresses \<open>'p\<close> is \<open>'w word\<close> throughout.

  \<open>calloc\<close> is the standard library's: its choice of an address is not the program's, so the
  model reads it from \<open>placements\<close> and refuses (returns a null pointer for) every address
  the C standard would not allow. As the list is arbitrary, a theorem for every state is a
  theorem for every allowed behaviour of \<open>calloc\<close>, failure included.
\<close>

section \<open>State\<close>

record 'p cmem =
  blocks :: "('p \<times> 'p) list"
  bytes :: "'p \<Rightarrow> 8 word"
  cells :: "'p \<rightharpoonup> 'p"
  i64s :: "'p \<rightharpoonup> int"
  placements :: "'p list"

text \<open>The range of addresses of \<open>n\<close> bytes from \<open>p\<close>, and of a block.\<close>

definition span :: "'w::len word \<Rightarrow> nat \<Rightarrow> nat \<times> nat" where
  "span p n = (unat p, unat p + n)"

definition block_span :: "'w::len word \<times> 'w word \<Rightarrow> nat \<times> nat" where
  "block_span b = span (fst b) (unat (snd b))"

lemma fst_span [simp]: "fst (span p n) = unat p"
  and snd_span [simp]: "snd (span p n) = unat p + n"
  by (simp_all add: span_def)

lemma block_span_pair [simp]: "block_span (p, n) = span p (unat n)"
  by (simp add: block_span_def)

section \<open>Pointer and counter variables\<close>

definition load_cell :: "'w::len word \<Rightarrow> ('w word, 'm) cmem_scheme \<Rightarrow> 'w word option" where
  "load_cell p m = cells m p"

definition store_cell ::
  "'w::len word \<Rightarrow> 'w word \<Rightarrow> ('w word, 'm) cmem_scheme \<Rightarrow> ('w word, 'm) cmem_scheme option" where
  "store_cell p v m =
     (case cells m p of None \<Rightarrow> None | Some _ \<Rightarrow> Some (m\<lparr>cells := (cells m)(p \<mapsto> v)\<rparr>))"

text \<open>\<open>*p += n\<close> on an \<open>int64_t\<close>.\<close>

definition add_i64 ::
  "'w::len word \<Rightarrow> int \<Rightarrow> ('w word, 'm) cmem_scheme \<Rightarrow> ('w word, 'm) cmem_scheme option" where
  "add_i64 p n m =
     do { x \<leftarrow> i64s m p; y \<leftarrow> c_int64 (x + n); Some (m\<lparr>i64s := (i64s m)(p \<mapsto> y)\<rparr>) }"

lemma load_cell_Some [simp]: "cells m p = Some v \<Longrightarrow> load_cell p m = Some v"
  by (simp add: load_cell_def)

lemma store_cell_in [simp]:
  "p \<in> dom (cells m) \<Longrightarrow> store_cell p v m = Some (m\<lparr>cells := (cells m)(p \<mapsto> v)\<rparr>)"
  by (auto simp: store_cell_def)

lemma store_cell_Some_iff:
  "store_cell p v m = Some m' \<longleftrightarrow>
     p \<in> dom (cells m) \<and> m' = m\<lparr>cells := (cells m)(p \<mapsto> v)\<rparr>"
  by (auto simp: store_cell_def split: option.splits)

section \<open>The zeroing allocator\<close>

definition zero_fill :: "'w::len word \<Rightarrow> nat \<Rightarrow> ('w word \<Rightarrow> 8 word) \<Rightarrow> 'w word \<Rightarrow> 8 word" where
  "zero_fill p n f x = (if unat p \<le> unat x \<and> unat x < unat p + n then 0 else f x)"

text \<open>
  Where the C library may place a block of \<open>n\<close> bytes: not at the null pointer, aligned for
  every fundamental type of the target, with the address past its end still an address, and
  apart from every live block.
\<close>

definition calloc_places :: "('w::len word \<times> 'w word) list \<Rightarrow> 'w word \<Rightarrow> nat \<Rightarrow> bool" where
  "calloc_places bs p n \<longleftrightarrow>
     p \<noteq> 0 \<and> unat p mod 8 = 0 \<and> unat p + n < 2 ^ LENGTH('w) \<and>
     (\<forall>b \<in> set bs. apart (span p n) (block_span b))"

definition calloc ::
  "'w::len word \<Rightarrow> 'w word \<Rightarrow> ('w word, 'm) cmem_scheme \<Rightarrow> 'w word \<times> ('w word, 'm) cmem_scheme" where
  "calloc nmemb sz m =
     (case placements m of
        [] \<Rightarrow> (0, m)
      | p # ps \<Rightarrow>
          if calloc_places (blocks m) p (unat nmemb * unat sz)
          then (p, m\<lparr>placements := ps,
                     blocks := (p, nmemb * sz) # blocks m,
                     bytes := zero_fill p (unat nmemb * unat sz) (bytes m)\<rparr>)
          else (0, m\<lparr>placements := ps\<rparr>))"

text \<open>\<open>ugc_zalloc\<close> of \<open>ugc_zalloc.c\<close>: \<open>sizeof(char)\<close> is 1.\<close>

definition ugc_zalloc ::
  "'w::len word \<Rightarrow> ('w word, 'm) cmem_scheme \<Rightarrow> 'w word \<times> ('w word, 'm) cmem_scheme" where
  "ugc_zalloc n m = calloc n 1 m"

section \<open>What the allocator promises\<close>

text \<open>ACSL's \<open>\valid(p + (0 .. n - 1))\<close>: the bytes belong to one block.\<close>

definition valid_bytes :: "('w::len word, 'm) cmem_scheme \<Rightarrow> 'w word \<Rightarrow> nat \<Rightarrow> bool" where
  "valid_bytes m p n \<longleftrightarrow> (\<exists>b \<in> set (blocks m). inside (span p n) (block_span b))"

definition zeroed :: "('w::len word, 'm) cmem_scheme \<Rightarrow> 'w word \<Rightarrow> nat \<Rightarrow> bool" where
  "zeroed m p n \<longleftrightarrow> (\<forall>x. unat p \<le> unat x \<and> unat x < unat p + n \<longrightarrow> bytes m x = 0)"

text \<open>Every block is at a non-null aligned address, fits the address space, and is apart
  from the other blocks.\<close>

fun blocks_ok :: "('w::len word \<times> 'w word) list \<Rightarrow> bool" where
  "blocks_ok [] = True"
| "blocks_ok ((p, n) # bs) = (calloc_places bs p (unat n) \<and> blocks_ok bs)"

definition mem_ok :: "('w::len word, 'm) cmem_scheme \<Rightarrow> bool" where
  "mem_ok m \<longleftrightarrow> blocks_ok (blocks m)"

lemma blocks_ok_member:
  fixes b :: "'w::len word \<times> 'w word"
  assumes "blocks_ok bs" and "b \<in> set bs"
  shows "fst b \<noteq> 0 \<and> unat (fst b) mod 8 = 0 \<and>
         unat (fst b) + unat (snd b) < 2 ^ LENGTH('w)"
  using assms by (induction bs rule: blocks_ok.induct) (auto simp: calloc_places_def)

lemma valid_bytes_bound:
  fixes p :: "'w::len word"
  assumes "mem_ok m" and "valid_bytes m p n"
  shows "unat p + n < 2 ^ LENGTH('w)" and "p \<noteq> 0"
proof -
  from assms(2) obtain b where b: "b \<in> set (blocks m)" "inside (span p n) (block_span b)"
    by (auto simp: valid_bytes_def)
  with assms(1) have "fst b \<noteq> 0" "unat (fst b) + unat (snd b) < 2 ^ LENGTH('w)"
    using blocks_ok_member [of "blocks m" b] by (auto simp: mem_ok_def)
  with b show "unat p + n < 2 ^ LENGTH('w)" "p \<noteq> 0"
    by (auto simp: inside_def block_span_def span_def unat_eq_0)
qed

lemma valid_bytes_sub:
  assumes "valid_bytes m p n" and "unat p \<le> unat q" and "unat q + k \<le> unat p + n"
  shows "valid_bytes m q k"
proof -
  have "inside (span q k) (span p n)" using assms(2,3) by (simp add: inside_def)
  with assms(1) show ?thesis unfolding valid_bytes_def by (blast intro: inside_trans)
qed

lemma zeroed_sub:
  "zeroed m p n \<Longrightarrow> unat p \<le> unat q \<Longrightarrow> unat q + k \<le> unat p + n \<Longrightarrow> zeroed m q k"
  by (auto simp: zeroed_def)

lemma valid_bytes_mono: "set (blocks m) \<subseteq> set (blocks m') \<Longrightarrow> valid_bytes m p n \<Longrightarrow> valid_bytes m' p n"
  by (auto simp: valid_bytes_def)

lemma valid_bytes_frame [simp]:
  "valid_bytes (m\<lparr>cells := c\<rparr>) p n = valid_bytes m p n"
  "valid_bytes (m\<lparr>i64s := i\<rparr>) p n = valid_bytes m p n"
  "valid_bytes (m\<lparr>bytes := f\<rparr>) p n = valid_bytes m p n"
  by (simp_all add: valid_bytes_def)

lemma zeroed_frame [simp]:
  "zeroed (m\<lparr>cells := c\<rparr>) p n = zeroed m p n"
  "zeroed (m\<lparr>i64s := i\<rparr>) p n = zeroed m p n"
  by (simp_all add: zeroed_def)

lemma mem_ok_frame [simp]:
  "mem_ok (m\<lparr>cells := c\<rparr>) = mem_ok m"
  "mem_ok (m\<lparr>i64s := i\<rparr>) = mem_ok m"
  "mem_ok (m\<lparr>bytes := f\<rparr>) = mem_ok m"
  by (simp_all add: mem_ok_def)

text \<open>
  The interface the allocation code relies on: the link-time function \<open>ugc_zalloc\<close>. Either
  it fails and changes no block and no byte, or it returns a block of \<open>n\<close> bytes that were
  in no block before, all zero, and leaves every other byte alone.
\<close>

locale zeroing_allocator =
  fixes zalloc :: "'w::len word \<Rightarrow> ('w word, 'm) cmem_scheme \<Rightarrow> 'w word \<times> ('w word, 'm) cmem_scheme"
  assumes zalloc_cells: "zalloc n m = (p, m') \<Longrightarrow> cells m' = cells m \<and> i64s m' = i64s m"
    and zalloc_null: "zalloc n m = (0, m') \<Longrightarrow> blocks m' = blocks m \<and> bytes m' = bytes m"
    and zalloc_block: "zalloc n m = (p, m') \<Longrightarrow> p \<noteq> 0 \<Longrightarrow>
      calloc_places (blocks m) p (unat n) \<and> blocks m' = (p, n) # blocks m \<and>
      bytes m' = zero_fill p (unat n) (bytes m)"
begin

lemma zalloc_mem_ok: "zalloc n m = (p, m') \<Longrightarrow> mem_ok m \<Longrightarrow> mem_ok m'"
  by (cases "p = 0") (auto simp: mem_ok_def dest: zalloc_null zalloc_block)

lemma zalloc_blocks_grow: "zalloc n m = (p, m') \<Longrightarrow> set (blocks m) \<subseteq> set (blocks m')"
  by (cases "p = 0") (auto dest: zalloc_null zalloc_block)

lemma zalloc_valid: "zalloc n m = (p, m') \<Longrightarrow> p \<noteq> 0 \<Longrightarrow> valid_bytes m' p (unat n)"
  using zalloc_block [of n m p m'] by (auto simp: valid_bytes_def inside_refl)

lemma zalloc_zeroed: "zalloc n m = (p, m') \<Longrightarrow> p \<noteq> 0 \<Longrightarrow> zeroed m' p (unat n)"
  using zalloc_block [of n m p m'] by (auto simp: zeroed_def zero_fill_def)

lemma zalloc_room:
  assumes "zalloc n m = (p, m')" and "p \<noteq> 0"
  shows "unat p + unat n < 2 ^ LENGTH('w)" and "unat p mod 8 = 0"
  using zalloc_block [OF assms] by (auto simp: calloc_places_def)

text \<open>A byte of an old block is untouched.\<close>

lemma zalloc_keeps:
  assumes "zalloc n m = (p, m')" and "b \<in> set (blocks m)"
    and "fst (block_span b) \<le> unat x" and "unat x < snd (block_span b)"
  shows "bytes m' x = bytes m x"
proof (cases "p = 0")
  case True
  with assms(1) show ?thesis by (auto dest: zalloc_null)
next
  case False
  with zalloc_block [OF assms(1)] assms(2)
  have "apart (span p (unat n)) (block_span b)" and "bytes m' = zero_fill p (unat n) (bytes m)"
    by (auto simp: calloc_places_def)
  with assms(3,4) show ?thesis by (auto simp: zero_fill_def apart_def)
qed

end

lemma calloc_blocks:
  assumes "calloc nmemb sz m = (p, m')" and "p \<noteq> 0"
  shows "calloc_places (blocks m) p (unat nmemb * unat sz) \<and>
         unat (nmemb * sz) = unat nmemb * unat sz \<and>
         blocks m' = (p, nmemb * sz) # blocks m \<and>
         bytes m' = zero_fill p (unat nmemb * unat sz) (bytes m)"
  using assms
  by (auto simp: calloc_def calloc_places_def unat_word_ariths split: list.splits if_splits)

interpretation ugc_zalloc: zeroing_allocator ugc_zalloc
proof
  fix n p :: "'a word" and m m' :: "('a word, 'b) cmem_scheme"
  show "ugc_zalloc n m = (p, m') \<Longrightarrow> cells m' = cells m \<and> i64s m' = i64s m"
    by (auto simp: ugc_zalloc_def calloc_def split: list.splits if_splits)
  show "ugc_zalloc n m = (0, m') \<Longrightarrow> blocks m' = blocks m \<and> bytes m' = bytes m"
    by (auto simp: ugc_zalloc_def calloc_def calloc_places_def split: list.splits if_splits)
  show "ugc_zalloc n m = (p, m') \<Longrightarrow> p \<noteq> 0 \<Longrightarrow>
      calloc_places (blocks m) p (unat n) \<and> blocks m' = (p, n) # blocks m \<and>
      bytes m' = zero_fill p (unat n) (bytes m)"
    using calloc_blocks [of n 1 m p m'] by (simp add: ugc_zalloc_def)
qed

end
