(* ===== verification/Core_Alloc.thy ===== *)
theory Core_Alloc
  imports CMemory
begin

text \<open>
  The allocation half of \<open>ugc/core/ugc_core.c\<close>: \<open>ugc_alloc_direct\<close>, \<open>ugc_ctx_refill\<close> and
  \<open>ugc_core_alloc\<close>, parameterised by the link-time function \<open>ugc_zalloc\<close>, and the ACSL
  contract of \<open>ugc_core.h\<close> as a pair of predicates that the code is shown to meet.

  A parameter \<open>uint8_t **\<close> is the address of a cell; the null pointer is 0.
\<close>

section \<open>The code\<close>

definition UGC_ALLOC_QUANTUM :: "'w::len word" where
  "UGC_ALLOC_QUANTUM = 64 * 1024"

definition ugc_alloc_direct ::
  "('w::len word \<Rightarrow> ('w word, 'm) cmem_scheme \<Rightarrow> 'w word \<times> ('w word, 'm) cmem_scheme) \<Rightarrow>
   'w word \<Rightarrow> 'w word \<Rightarrow> ('w word, 'm) cmem_scheme \<Rightarrow> 'w word \<times> ('w word, 'm) cmem_scheme" where
  "ugc_alloc_direct zalloc sz header_size m =
     (case zalloc (sz + header_size) m of (address, m1) \<Rightarrow>
        if address = 0 then (0, m1) else (address + header_size, m1))"

definition ugc_ctx_refill ::
  "('w::len word \<Rightarrow> ('w word, 'm) cmem_scheme \<Rightarrow> 'w word \<times> ('w word, 'm) cmem_scheme) \<Rightarrow>
   'w word \<Rightarrow> 'w word \<Rightarrow> 'w word \<Rightarrow> 'w word \<Rightarrow> ('w word, 'm) cmem_scheme \<Rightarrow>
   ('w word \<times> ('w word, 'm) cmem_scheme) option" where
  "ugc_ctx_refill zalloc alloc_ptr_p alloc_limit_p sz header_size m =
     (case zalloc UGC_ALLOC_QUANTUM m of (base, m1) \<Rightarrow>
        if base = 0 then Some (0, m1)
        else do {
          m2 \<leftarrow> store_cell alloc_ptr_p (base + header_size + sz) m1;
          m3 \<leftarrow> store_cell alloc_limit_p (base + UGC_ALLOC_QUANTUM) m2;
          Some (base + header_size, m3)
        })"

text \<open>The context branch of \<open>ugc_core_alloc\<close>: \<open>alloc_limit\<close> is read only when
  \<open>alloc_ptr\<close> is not null.\<close>

definition ugc_core_alloc ::
  "('w::len word \<Rightarrow> ('w word, 'm) cmem_scheme \<Rightarrow> 'w word \<times> ('w word, 'm) cmem_scheme) \<Rightarrow>
   'w word \<Rightarrow> 'w word \<Rightarrow> 'w word \<Rightarrow> bool \<Rightarrow> 'w word \<Rightarrow> ('w word, 'm) cmem_scheme \<Rightarrow>
   ('w word \<times> ('w word, 'm) cmem_scheme) option" where
  "ugc_core_alloc zalloc alloc_ptr_p alloc_limit_p sz bypass_context header_size m =
     (if sz > - 1 - header_size then Some (0, m)
      else let sizeWithHeader = sz + header_size in
        if alloc_ptr_p = 0 \<or> bypass_context \<or> sizeWithHeader > UGC_ALLOC_QUANTUM
        then Some (ugc_alloc_direct zalloc sz header_size m)
        else do {
          ptr \<leftarrow> load_cell alloc_ptr_p m;
          fits \<leftarrow> (if ptr = 0 then Some False
                  else do { limit \<leftarrow> load_cell alloc_limit_p m; Some (limit - ptr \<ge> sz) });
          if fits
          then do { m1 \<leftarrow> store_cell alloc_ptr_p (ptr + sz) m; Some (ptr, m1) }
          else ugc_ctx_refill zalloc alloc_ptr_p alloc_limit_p sz header_size m
        })"

section \<open>The ACSL contract\<close>

definition context_window :: "('w::len word, 'm) cmem_scheme \<Rightarrow> 'w word \<Rightarrow> 'w word \<Rightarrow> bool" where
  "context_window m p l \<longleftrightarrow>
     unat p \<le> unat l \<and> unat l - unat p \<le> 65536 \<and> valid_bytes m p (unat l - unat p)"

definition core_alloc_requires ::
  "('w::len word, 'm) cmem_scheme \<Rightarrow> 'w word \<Rightarrow> 'w word \<Rightarrow> 'w word \<Rightarrow> bool" where
  "core_alloc_requires m alloc_ptr_p alloc_limit_p header_size \<longleftrightarrow>
     1 \<le> unat header_size \<and> unat header_size \<le> 65536 div 2 \<and>
     (alloc_ptr_p = 0 \<or>
      (case (cells m alloc_ptr_p, cells m alloc_limit_p) of
         (Some p, Some l) \<Rightarrow> alloc_ptr_p \<noteq> alloc_limit_p \<and> (p = 0 \<or> context_window m p l)
       | _ \<Rightarrow> False))"

section \<open>What may be assigned\<close>

text \<open>\<open>assigns \nothing\<close>: every variable, and every byte of a block that existed before the
  call, keeps its value. A new block is no assignment.\<close>

definition keeps_bytes :: "('w::len word, 'm) cmem_scheme \<Rightarrow> ('w word, 'm) cmem_scheme \<Rightarrow> bool" where
  "keeps_bytes m m' \<longleftrightarrow>
     i64s m' = i64s m \<and> set (blocks m) \<subseteq> set (blocks m') \<and>
     (\<forall>b \<in> set (blocks m). \<forall>x.
        fst (block_span b) \<le> unat x \<and> unat x < snd (block_span b) \<longrightarrow> bytes m' x = bytes m x)"

definition assigns_nothing ::
  "('w::len word, 'm) cmem_scheme \<Rightarrow> ('w word, 'm) cmem_scheme \<Rightarrow> bool" where
  "assigns_nothing m m' \<longleftrightarrow> cells m' = cells m \<and> keeps_bytes m m'"

text \<open>\<open>assigns *p, *q\<close>.\<close>

definition assigns_cells ::
  "'w::len word \<Rightarrow> 'w word \<Rightarrow> ('w word, 'm) cmem_scheme \<Rightarrow> ('w word, 'm) cmem_scheme \<Rightarrow> bool" where
  "assigns_cells p q m m' \<longleftrightarrow>
     (\<forall>a. a \<noteq> p \<and> a \<noteq> q \<longrightarrow> cells m' a = cells m a) \<and> keeps_bytes m m'"

lemma keeps_bytes_refl: "keeps_bytes m m"
  by (simp add: keeps_bytes_def)

lemma keeps_bytes_frame [simp]: "keeps_bytes m (m'\<lparr>cells := c\<rparr>) = keeps_bytes m m'"
  by (simp add: keeps_bytes_def)

text \<open>A fresh object of \<open>n\<close> bytes, or the null pointer.\<close>

definition null_or_zeroed :: "('w::len word, 'm) cmem_scheme \<Rightarrow> 'w word \<Rightarrow> nat \<Rightarrow> bool" where
  "null_or_zeroed m p n \<longleftrightarrow> p = 0 \<or> valid_bytes m p n \<and> zeroed m p n"

section \<open>What a call ensures\<close>

text \<open>The four behaviours: which one a call has, and what each ensures.\<close>

datatype alloc_behavior = Overflow | Direct | Bump | Refill

definition core_alloc_behavior ::
  "('w::len word, 'm) cmem_scheme \<Rightarrow> 'w word \<Rightarrow> 'w word \<Rightarrow> 'w word \<Rightarrow> bool \<Rightarrow> 'w word \<Rightarrow>
   alloc_behavior" where
  "core_alloc_behavior m alloc_ptr_p alloc_limit_p sz bypass_context header_size =
     (if int (unat sz) > (2 ^ LENGTH('w) - 1) - int (unat header_size) then Overflow
      else if alloc_ptr_p = 0 \<or> bypass_context \<or> unat sz + unat header_size > 65536 then Direct
      else case (cells m alloc_ptr_p, cells m alloc_limit_p) of
          (Some p, Some l) \<Rightarrow>
            if p \<noteq> 0 \<and> int (unat l) - int (unat p) \<ge> int (unat sz) then Bump else Refill
        | _ \<Rightarrow> Refill)"

definition core_alloc_ensures ::
  "('w::len word, 'm) cmem_scheme \<Rightarrow> 'w word \<Rightarrow> 'w word \<Rightarrow> 'w word \<Rightarrow> bool \<Rightarrow> 'w word \<Rightarrow>
   'w word \<Rightarrow> ('w word, 'm) cmem_scheme \<Rightarrow> bool" where
  "core_alloc_ensures m alloc_ptr_p alloc_limit_p sz bypass_context header_size result m' \<longleftrightarrow>
     (case core_alloc_behavior m alloc_ptr_p alloc_limit_p sz bypass_context header_size of
        Overflow \<Rightarrow> m' = m \<and> result = 0
      | Direct \<Rightarrow> assigns_nothing m m' \<and> null_or_zeroed m' result (unat sz)
      | Bump \<Rightarrow> m' = m\<lparr>cells := (cells m)(alloc_ptr_p \<mapsto> result + sz)\<rparr> \<and>
          cells m alloc_ptr_p = Some result \<and> valid_bytes m' result (unat sz)
      | Refill \<Rightarrow> assigns_cells alloc_ptr_p alloc_limit_p m m' \<and>
          (if result = 0 then cells m' = cells m
           else cells m' = (cells m)
                  (alloc_ptr_p \<mapsto> result + sz,
                   alloc_limit_p \<mapsto> result + (UGC_ALLOC_QUANTUM - header_size)) \<and>
                valid_bytes m' result (65536 - unat header_size) \<and>
                zeroed m' result (65536 - unat header_size)))"

section \<open>Branch by branch\<close>

lemma unat_quantum:
  assumes "rv_target TYPE('w::len)"
  shows "unat (UGC_ALLOC_QUANTUM :: 'w word) = 65536"
proof -
  have "(UGC_ALLOC_QUANTUM :: 'w word) = of_nat 65536" by (simp add: UGC_ALLOC_QUANTUM_def)
  then show ?thesis using unat_of_small [OF assms, of 65536] by simp
qed

lemma quantum_nonzero:
  "rv_target TYPE('w::len) \<Longrightarrow> (UGC_ALLOC_QUANTUM :: 'w word) \<noteq> 0"
  using unat_quantum by force

text \<open>The code's guards in arithmetic terms.\<close>

lemma not_overflow_unat:
  fixes sz header_size :: "'w::len word"
  assumes "\<not> sz > - 1 - header_size"
  shows "unat (sz + header_size) = unat sz + unat header_size"
    and "unat sz + unat header_size < 2 ^ LENGTH('w)"
  using assms by (simp_all add: gt_max_minus_iff unat_add_small)

lemma fits_iff:
  fixes p l sz :: "'w::len word"
  assumes "unat p \<le> unat l"
  shows "l - p \<ge> sz \<longleftrightarrow> unat p + unat sz \<le> unat l"
  using assms by (auto simp: word_le_nat_alt unat_minus_le)

text \<open>Every call that returns took one of four ways; the rule eliminates a call to them.\<close>

lemma core_alloc_cases:
  fixes m m' :: "('w::len word, 'm) cmem_scheme"
  assumes "ugc_core_alloc zalloc pp lp sz bypass hdr m = Some (r, m')"
  obtains
    (overflow) "sz > - 1 - hdr" "r = 0" "m' = m"
  | (direct) a where "\<not> sz > - 1 - hdr"
      "pp = 0 \<or> bypass \<or> sz + hdr > UGC_ALLOC_QUANTUM"
      "zalloc (sz + hdr) m = (a, m')" "r = (if a = 0 then 0 else a + hdr)"
  | (bump) l where "\<not> sz > - 1 - hdr" "pp \<noteq> 0" "\<not> bypass" "\<not> sz + hdr > UGC_ALLOC_QUANTUM"
      "cells m pp = Some r" "r \<noteq> 0" "cells m lp = Some l" "l - r \<ge> sz"
      "m' = m\<lparr>cells := (cells m)(pp \<mapsto> r + sz)\<rparr>"
  | (refill) p where "\<not> sz > - 1 - hdr" "pp \<noteq> 0" "\<not> bypass" "\<not> sz + hdr > UGC_ALLOC_QUANTUM"
      "cells m pp = Some p"
      "p = 0 \<or> (\<exists>l. cells m lp = Some l \<and> \<not> l - p \<ge> sz)"
      "ugc_ctx_refill zalloc pp lp sz hdr m = Some (r, m')"
proof (cases "sz > - 1 - hdr \<or> pp = 0 \<or> bypass \<or> sz + hdr > UGC_ALLOC_QUANTUM")
  case True
  then show ?thesis
    using assms overflow direct
    by (auto simp: ugc_core_alloc_def ugc_alloc_direct_def Let_def split: if_splits prod.splits)
next
  case False
  with assms obtain p where p: "cells m pp = Some p"
    by (auto simp: ugc_core_alloc_def load_cell_def bind_eq_Some_conv)
  show ?thesis
  proof (cases "p \<noteq> 0 \<and> (\<exists>l. cells m lp = Some l \<and> l - p \<ge> sz)")
    case True
    then obtain l where l: "cells m lp = Some l" "l - p \<ge> sz" by blast
    with True p False assms show ?thesis
      by (intro bump [of l])
        (auto simp: ugc_core_alloc_def load_cell_def store_cell_Some_iff bind_eq_Some_conv)
  next
    case neg: False
    with p False assms show ?thesis
      by (intro refill [OF _ _ _ _ p])
        (auto simp: ugc_core_alloc_def load_cell_def bind_eq_Some_conv split: if_splits)
  qed
qed

lemma ctx_refill_cases:
  assumes "ugc_ctx_refill zalloc pp lp sz hdr m = Some (r, m')"
  obtains
    (null) "zalloc UGC_ALLOC_QUANTUM m = (0, m')" "r = 0"
  | (fresh) a m1 where "a \<noteq> 0" "zalloc UGC_ALLOC_QUANTUM m = (a, m1)" "r = a + hdr"
      "m' = m1\<lparr>cells := (cells m1)(pp \<mapsto> a + hdr + sz, lp \<mapsto> a + UGC_ALLOC_QUANTUM)\<rparr>"
  using assms
  by (auto simp: ugc_ctx_refill_def bind_eq_Some_conv store_cell_Some_iff
      split: prod.splits if_splits)

section \<open>The contract is met\<close>

lemma over_quantum_iff:
  fixes sz hdr :: "'w::len word"
  assumes "rv_target TYPE('w)" and "\<not> sz > - 1 - hdr"
  shows "sz + hdr > UGC_ALLOC_QUANTUM \<longleftrightarrow> unat sz + unat hdr > 65536"
  using not_overflow_unat [OF assms(2)] unat_quantum [OF assms(1)]
  by (simp add: word_less_nat_alt)

lemma overflow_iff:
  fixes sz hdr :: "'w::len word"
  shows "int (unat sz) > (2 ^ LENGTH('w) - 1) - int (unat hdr) \<longleftrightarrow> sz > - 1 - hdr"
proof -
  have "int (unat sz) > (2 ^ LENGTH('w) - 1) - int (unat hdr) \<longleftrightarrow>
        int (2 ^ LENGTH('w)) \<le> int (unat sz + unat hdr)" by (simp del: of_nat_unat) arith
  also have "\<dots> \<longleftrightarrow> sz > - 1 - hdr" by (simp only: of_nat_le_iff gt_max_minus_iff)
  finally show ?thesis .
qed

text \<open>Which behaviour the contract assigns to a call, in terms of the code's guards.\<close>

lemma behavior_overflow:
  fixes sz hdr :: "'w::len word"
  shows "sz > - 1 - hdr \<Longrightarrow> core_alloc_behavior m pp lp sz bypass hdr = Overflow"
  by (simp only: core_alloc_behavior_def overflow_iff if_True)

lemma behavior_direct:
  fixes sz hdr :: "'w::len word"
  assumes "rv_target TYPE('w)" and "\<not> sz > - 1 - hdr"
    and "pp = 0 \<or> bypass \<or> sz + hdr > UGC_ALLOC_QUANTUM"
  shows "core_alloc_behavior m pp lp sz bypass hdr = Direct"
  using assms unfolding core_alloc_behavior_def overflow_iff
  by (simp only: over_quantum_iff [OF assms(1,2)]) simp

lemma behavior_context:
  fixes sz hdr :: "'w::len word"
  assumes "rv_target TYPE('w)" and "\<not> sz > - 1 - hdr"
    and "pp \<noteq> 0" and "\<not> bypass" and "\<not> sz + hdr > UGC_ALLOC_QUANTUM"
    and "cells m pp = Some p" and "cells m lp = Some l"
  shows "core_alloc_behavior m pp lp sz bypass hdr =
         (if p \<noteq> 0 \<and> unat p + unat sz \<le> unat l then Bump else Refill)"
proof -
  have "int (unat sz) \<le> int (unat l) - int (unat p) \<longleftrightarrow> unat p + unat sz \<le> unat l" by arith
  then show ?thesis
    using assms(2-7) unfolding core_alloc_behavior_def overflow_iff
    by (simp add: over_quantum_iff [OF assms(1,2)] del: of_nat_unat)
qed

context zeroing_allocator
begin

lemma direct_result:
  assumes no: "\<not> sz > - 1 - hdr" and z: "zalloc (sz + hdr) m = (a, m')" and a: "a \<noteq> 0"
  shows "unat (a + hdr) = unat a + unat hdr" and "a + hdr \<noteq> 0"
    and "valid_bytes m' (a + hdr) (unat sz)" and "zeroed m' (a + hdr) (unat sz)"
proof -
  show u: "unat (a + hdr) = unat a + unat hdr"
    using zalloc_room [OF z a] not_overflow_unat [OF no] by (intro unat_add_small) simp
  show "a + hdr \<noteq> 0" using u a by (auto simp: unat_eq_0 dest: arg_cong [of _ 0 unat])
  show "valid_bytes m' (a + hdr) (unat sz)"
    using zalloc_valid [OF z a] u not_overflow_unat [OF no] by (elim valid_bytes_sub) auto
  show "zeroed m' (a + hdr) (unat sz)"
    using zalloc_zeroed [OF z a] u not_overflow_unat [OF no] by (elim zeroed_sub) auto
qed

lemma fresh_result:
  assumes t: "rv_target TYPE('w)" and z: "zalloc UGC_ALLOC_QUANTUM m = (a, m')" and a: "a \<noteq> 0"
    and h: "unat hdr \<le> 65536"
  shows "unat (a + hdr) = unat a + unat hdr" and "a + hdr \<noteq> 0"
    and "unat (a + UGC_ALLOC_QUANTUM) = unat a + 65536"
    and "unat s + unat hdr \<le> 65536 \<Longrightarrow> unat (a + hdr + s) = unat a + unat hdr + unat s"
    and "valid_bytes m' (a + hdr) (65536 - unat hdr)"
    and "zeroed m' (a + hdr) (65536 - unat hdr)"
proof -
  have room: "unat a + 65536 < 2 ^ LENGTH('w)"
    using zalloc_room [OF z a] unat_quantum [OF t] by simp
  show u: "unat (a + hdr) = unat a + unat hdr"
    using room h by (intro unat_add_small) simp
  show "a + hdr \<noteq> 0" using u a by (auto simp: unat_eq_0 dest: arg_cong [of _ 0 unat])
  show "unat (a + UGC_ALLOC_QUANTUM) = unat a + 65536"
    using room unat_quantum [OF t] by (subst unat_add_small) auto
  show "unat s + unat hdr \<le> 65536 \<Longrightarrow> unat (a + hdr + s) = unat a + unat hdr + unat s"
    using room u by (subst unat_add_small) auto
  show "valid_bytes m' (a + hdr) (65536 - unat hdr)"
    using zalloc_valid [OF z a] u h unat_quantum [OF t] by (elim valid_bytes_sub) auto
  show "zeroed m' (a + hdr) (65536 - unat hdr)"
    using zalloc_zeroed [OF z a] u h unat_quantum [OF t] by (elim zeroed_sub) auto
qed

text \<open>A call that meets the precondition has no undefined behaviour.\<close>

lemma core_alloc_returns:
  assumes "core_alloc_requires m pp lp hdr"
  shows "\<exists>r m'. ugc_core_alloc zalloc pp lp sz bypass hdr m = Some (r, m')"
proof -
  obtain a m1 where "zalloc UGC_ALLOC_QUANTUM m = (a, m1)" by fastforce
  then have "\<exists>r m'. ugc_ctx_refill zalloc pp lp sz hdr m = Some (r, m')"
    if "pp \<in> dom (cells m)" "lp \<in> dom (cells m)"
    using that zalloc_cells [of UGC_ALLOC_QUANTUM m a m1] by (simp add: ugc_ctx_refill_def)
  with assms show ?thesis
    by (auto simp: ugc_core_alloc_def core_alloc_requires_def Let_def store_cell_def
        split: option.splits prod.splits)
qed

lemma zalloc_assigns_nothing: "zalloc n m = (p, m') \<Longrightarrow> assigns_nothing m m'"
  using zalloc_cells [of n m p m'] zalloc_blocks_grow [of n m p m'] zalloc_keeps [of n m p m']
  by (auto simp: assigns_nothing_def keeps_bytes_def)

lemma core_alloc_meets_contract:
  assumes t: "rv_target TYPE('w)" and req: "core_alloc_requires m pp lp hdr"
    and run: "ugc_core_alloc zalloc pp lp sz bypass hdr m = Some (r, m')"
  shows "core_alloc_ensures m pp lp sz bypass hdr r m'"
  using run
proof (cases rule: core_alloc_cases)
  case overflow
  then show ?thesis by (simp add: core_alloc_ensures_def behavior_overflow)
next
  case (direct a)
  show ?thesis
    using direct_result [OF direct(1,3)] zalloc_assigns_nothing [OF direct(3)] direct(4)
    by (cases "a = 0")
      (simp_all add: core_alloc_ensures_def null_or_zeroed_def behavior_direct [OF t direct(1,2)])
next
  case (bump l)
  then have w: "context_window m r l" using req by (auto simp: core_alloc_requires_def)
  with bump(8) have "unat r + unat sz \<le> unat l" by (simp add: context_window_def fits_iff)
  with w bump show ?thesis
    by (auto simp: core_alloc_ensures_def behavior_context [OF t] context_window_def
        elim: valid_bytes_sub)
next
  case (refill p)
  then obtain l where l: "cells m lp = Some l" and ne: "pp \<noteq> lp"
    and w: "p \<noteq> 0 \<Longrightarrow> context_window m p l"
    using req by (auto simp: core_alloc_requires_def split: option.splits)
  have b: "core_alloc_behavior m pp lp sz bypass hdr = Refill"
    using refill l w by (auto simp: behavior_context [OF t] context_window_def fits_iff)
  from refill(7) show ?thesis
  proof (cases rule: ctx_refill_cases)
    case null
    with b zalloc_assigns_nothing [OF null(1)] show ?thesis
      by (simp add: core_alloc_ensures_def assigns_nothing_def assigns_cells_def)
  next
    case (fresh a m1)
    have h: "unat hdr \<le> 65536" using req by (simp add: core_alloc_requires_def)
    show ?thesis
      using fresh b fresh_result [OF t fresh(2,1) h] zalloc_assigns_nothing [OF fresh(2)]
      by (simp add: core_alloc_ensures_def assigns_nothing_def assigns_cells_def algebra_simps)
  qed
qed

end

end
