(* ===== verification/Alloc_World.thy ===== *)
theory Alloc_World
  imports Core_Alloc
begin

text \<open>
  The allocator at work: any number of allocation contexts, calls of \<open>ugc_core_alloc\<close> in
  any order, the runtime's inline bump of a context window between them (\<open>ugc_core.h\<close>
  documents it with \<open>UGC_ALLOC_QUANTUM\<close>), and the mutator writing into the objects it owns.
  The state adds to memory the known contexts and, as a ghost, the objects handed out.

  An object at \<open>p\<close> of \<open>n\<close> bytes owns its header before \<open>p\<close> and its body but for the last
  \<open>header_size\<close> bytes, which hold the header of the object behind it: its range is
  \<open>[p - header_size, p + n - header_size)\<close>.
\<close>

section \<open>States and steps\<close>

record ('m, 'p) world =
  mem :: 'm
  ctxs :: "('p \<times> 'p) list"
  objs :: "('p \<times> nat) list"

type_synonym ('w, 'm) mworld = "(('w word, 'm) cmem_scheme, 'w word) world"

text \<open>The open window of a context, if it has one.\<close>

definition window ::
  "('w::len word, 'm) cmem_scheme \<Rightarrow> 'w word \<times> 'w word \<Rightarrow> ('w word \<times> 'w word) option" where
  "window m c =
     (case (cells m (fst c), cells m (snd c)) of
        (Some p, Some l) \<Rightarrow> if p = 0 then None else Some (p, l)
      | _ \<Rightarrow> None)"

definition obj_span :: "'w::len word \<Rightarrow> 'w word \<times> nat \<Rightarrow> nat \<times> nat" where
  "obj_span hdr ob = (unat (fst ob) - unat hdr, unat (fst ob) + snd ob - unat hdr)"

definition win_span :: "'w::len word \<Rightarrow> 'w word \<times> 'w word \<Rightarrow> nat \<times> nat" where
  "win_span hdr w = (unat (fst w) - unat hdr, unat (snd w))"

text \<open>
  What happens between two calls: the runtime bumps a window inline, the mutator writes a
  byte of an object, a thread brings a fresh context.
\<close>

inductive env_step :: "'w::len word \<Rightarrow> ('w, 'm) mworld \<Rightarrow> ('w, 'm) mworld \<Rightarrow> bool" for hdr where
  inline: "(pp, lp) \<in> set (ctxs s) \<Longrightarrow> window (mem s) (pp, lp) = Some (p, l) \<Longrightarrow>
    unat p + unat sz \<le> unat l \<Longrightarrow>
    env_step hdr s
      (s\<lparr>mem := (mem s)\<lparr>cells := (cells (mem s))(pp \<mapsto> p + sz)\<rparr>,
         objs := (p, unat sz) # objs s\<rparr>)"
| mutate: "ob \<in> set (objs s) \<Longrightarrow>
    fst (obj_span hdr ob) \<le> unat x \<Longrightarrow> unat x < snd (obj_span hdr ob) \<Longrightarrow>
    env_step hdr s (s\<lparr>mem := (mem s)\<lparr>bytes := (bytes (mem s))(x := v)\<rparr>\<rparr>)"
| attach: "pp \<noteq> 0 \<Longrightarrow> pp \<noteq> lp \<Longrightarrow>
    \<forall>c \<in> set (ctxs s). {pp, lp} \<inter> {fst c, snd c} = {} \<Longrightarrow>
    env_step hdr s
      (s\<lparr>mem := (mem s)\<lparr>cells := (cells (mem s))(pp \<mapsto> 0, lp \<mapsto> 0)\<rparr>,
         ctxs := (pp, lp) # ctxs s\<rparr>)"

inductive_cases env_stepE: "env_step hdr s s'"

inductive alloc_step ::
  "('w::len word \<Rightarrow> ('w word, 'm) cmem_scheme \<Rightarrow> 'w word \<times> ('w word, 'm) cmem_scheme) \<Rightarrow>
   'w word \<Rightarrow> ('w, 'm) mworld \<Rightarrow> ('w, 'm) mworld \<Rightarrow> bool"
  for zalloc hdr where
  call: "pp = 0 \<or> (pp, lp) \<in> set (ctxs s) \<Longrightarrow>
    ugc_core_alloc zalloc pp lp sz bypass hdr (mem s) = Some (r, m') \<Longrightarrow>
    alloc_step zalloc hdr s
      (s\<lparr>mem := m', objs := (if r = 0 then objs s else (r, unat sz) # objs s)\<rparr>)"
| env: "env_step hdr s s' \<Longrightarrow> alloc_step zalloc hdr s s'"

text \<open>A start: no context, no object, any well-formed memory.\<close>

definition world_start :: "('w::len, 'm) mworld \<Rightarrow> bool" where
  "world_start s \<longleftrightarrow> ctxs s = [] \<and> objs s = [] \<and> mem_ok (mem s)"

inductive alloc_reach ::
  "('w::len word \<Rightarrow> ('w word, 'm) cmem_scheme \<Rightarrow> 'w word \<times> ('w word, 'm) cmem_scheme) \<Rightarrow>
   'w word \<Rightarrow> ('w, 'm) mworld \<Rightarrow> bool"
  for zalloc hdr where
  start: "world_start s \<Longrightarrow> alloc_reach zalloc hdr s"
| step: "alloc_reach zalloc hdr s \<Longrightarrow> alloc_step zalloc hdr s t \<Longrightarrow> alloc_reach zalloc hdr t"

section \<open>The invariant\<close>

definition in_block :: "('w::len word, 'm) cmem_scheme \<Rightarrow> nat \<times> nat \<Rightarrow> bool" where
  "in_block m r \<longleftrightarrow> (\<exists>b \<in> set (blocks m). inside r (block_span b))"

definition zero_span :: "('w::len word, 'm) cmem_scheme \<Rightarrow> nat \<times> nat \<Rightarrow> bool" where
  "zero_span m r \<longleftrightarrow> (\<forall>x. fst r \<le> unat x \<and> unat x < snd r \<longrightarrow> bytes m x = 0)"

definition window_ok ::
  "'w::len word \<Rightarrow> ('w word, 'm) cmem_scheme \<Rightarrow> 'w word \<times> 'w word \<Rightarrow> bool" where
  "window_ok hdr m w \<longleftrightarrow>
     unat hdr \<le> unat (fst w) \<and> unat (fst w) \<le> unat (snd w) \<and>
     unat (snd w) - unat (fst w) \<le> 65536 - unat hdr \<and>
     in_block m (win_span hdr w) \<and> zero_span m (win_span hdr w)"

definition object_ok :: "'w::len word \<Rightarrow> ('w word, 'm) cmem_scheme \<Rightarrow> 'w word \<times> nat \<Rightarrow> bool" where
  "object_ok hdr m ob \<longleftrightarrow>
     unat hdr \<le> unat (fst ob) \<and>
     in_block m (unat (fst ob) - unat hdr, unat (fst ob) + snd ob)"

definition ctxs_ok :: "('w::len word, 'm) cmem_scheme \<Rightarrow> ('w word \<times> 'w word) list \<Rightarrow> bool" where
  "ctxs_ok m cs \<longleftrightarrow>
     (\<forall>c \<in> set cs. fst c \<noteq> 0 \<and> fst c \<noteq> snd c \<and> fst c \<in> dom (cells m) \<and> snd c \<in> dom (cells m)) \<and>
     (\<forall>c \<in> set cs. \<forall>d \<in> set cs. c \<noteq> d \<longrightarrow> {fst c, snd c} \<inter> {fst d, snd d} = {})"

text \<open>A range that no window and no object has.\<close>

definition clear :: "'w::len word \<Rightarrow> ('w, 'm) mworld \<Rightarrow> nat \<times> nat \<Rightarrow> bool" where
  "clear hdr s r \<longleftrightarrow>
     (\<forall>ob \<in> set (objs s). apart r (obj_span hdr ob)) \<and>
     (\<forall>c \<in> set (ctxs s). \<forall>w. window (mem s) c = Some w \<longrightarrow> apart r (win_span hdr w))"

definition world_inv :: "'w::len word \<Rightarrow> ('w, 'm) mworld \<Rightarrow> bool" where
  "world_inv hdr s \<longleftrightarrow>
     mem_ok (mem s) \<and> ctxs_ok (mem s) (ctxs s) \<and>
     (\<forall>c \<in> set (ctxs s). \<forall>w. window (mem s) c = Some w \<longrightarrow>
        window_ok hdr (mem s) w \<and>
        (\<forall>ob \<in> set (objs s). apart (win_span hdr w) (obj_span hdr ob)) \<and>
        (\<forall>d \<in> set (ctxs s). \<forall>v. d \<noteq> c \<and> window (mem s) d = Some v \<longrightarrow>
           apart (win_span hdr w) (win_span hdr v))) \<and>
     (\<forall>ob \<in> set (objs s). object_ok hdr (mem s) ob) \<and>
     sorted_wrt (\<lambda>a b. apart (obj_span hdr a) (obj_span hdr b)) (objs s)"

lemma window_Some_iff:
  "window m c = Some (p, l) \<longleftrightarrow> cells m (fst c) = Some p \<and> cells m (snd c) = Some l \<and> p \<noteq> 0"
  by (auto simp: window_def split: option.splits)

lemma window_frame [simp]:
  "window (m\<lparr>bytes := f\<rparr>) c = window m c" "window (m\<lparr>i64s := i\<rparr>) c = window m c"
  by (simp_all add: window_def)

lemma window_cells: "cells m' = cells m \<Longrightarrow> window m' c = window m c"
  by (simp add: window_def)

lemma in_block_mono: "set (blocks m) \<subseteq> set (blocks m') \<Longrightarrow> in_block m r \<Longrightarrow> in_block m' r"
  by (auto simp: in_block_def)

lemma in_block_inside: "in_block m r \<Longrightarrow> inside r' r \<Longrightarrow> in_block m r'"
  unfolding in_block_def by (blast intro: inside_trans)

lemma in_block_frame [simp]:
  "in_block (m\<lparr>cells := c\<rparr>) r = in_block m r" "in_block (m\<lparr>bytes := f\<rparr>) r = in_block m r"
  by (simp_all add: in_block_def)

lemma zero_span_frame [simp]: "zero_span (m\<lparr>cells := c\<rparr>) r = zero_span m r"
  by (simp add: zero_span_def)

lemma zero_span_inside: "zero_span m r \<Longrightarrow> inside r' r \<Longrightarrow> zero_span m r'"
  by (auto simp: zero_span_def inside_def)

lemma window_ok_frame [simp]: "window_ok hdr (m\<lparr>cells := c\<rparr>) w = window_ok hdr m w"
  by (simp add: window_ok_def)

lemma object_ok_frame [simp]:
  "object_ok hdr (m\<lparr>cells := c\<rparr>) ob = object_ok hdr m ob"
  "object_ok hdr (m\<lparr>bytes := f\<rparr>) ob = object_ok hdr m ob"
  by (simp_all add: object_ok_def)

lemma object_span_inside:
  "object_ok hdr m ob \<Longrightarrow> inside (obj_span hdr ob) (unat (fst ob) - unat hdr, unat (fst ob) + snd ob)"
  by (auto simp: object_ok_def obj_span_def inside_def)

lemma object_in_block: "object_ok hdr m ob \<Longrightarrow> in_block m (obj_span hdr ob)"
  by (rule in_block_inside [OF _ object_span_inside]) (auto simp: object_ok_def)

section \<open>What keeps the invariant\<close>

text \<open>A memory with the same variables, at least the same blocks, and no zero byte lost.\<close>

lemma world_inv_mem:
  assumes inv: "world_inv hdr s" and "mem_ok m'" and c: "cells m' = cells (mem s)"
    and b: "set (blocks (mem s)) \<subseteq> set (blocks m')"
    and z: "\<And>x. bytes (mem s) x = 0 \<Longrightarrow> bytes m' x = 0"
  shows "world_inv hdr (s\<lparr>mem := m'\<rparr>)"
proof -
  have "window_ok hdr m' w" if "window_ok hdr (mem s) w" for w
    using that z in_block_mono [OF b] by (auto simp: window_ok_def zero_span_def)
  moreover have "object_ok hdr m' ob" if "object_ok hdr (mem s) ob" for ob
    using that in_block_mono [OF b] by (auto simp: object_ok_def)
  ultimately show ?thesis
    using assms(1,2) by (auto simp: world_inv_def ctxs_ok_def c window_cells [OF c])
qed

lemma world_inv_object:
  assumes "world_inv hdr s" and "object_ok hdr (mem s) ob" and "clear hdr s (obj_span hdr ob)"
  shows "world_inv hdr (s\<lparr>objs := ob # objs s\<rparr>)"
  using assms by (auto simp: world_inv_def clear_def intro: apart_sym)

lemma window_upd:
  assumes "ctxs_ok m cs" and "c \<in> set cs" and "d \<in> set cs"
  shows "window (m\<lparr>cells := (cells m)(fst c \<mapsto> p, snd c \<mapsto> l)\<rparr>) d =
         (if d = c then if p = 0 then None else Some (p, l) else window m d)"
proof (cases "d = c")
  case True
  with assms show ?thesis by (auto simp: window_def ctxs_ok_def)
next
  case False
  with assms have "{fst c, snd c} \<inter> {fst d, snd d} = {}" by (auto simp: ctxs_ok_def)
  with False show ?thesis by (auto simp: window_def)
qed

lemma ctxs_ok_upd:
  "ctxs_ok m cs \<Longrightarrow> ctxs_ok (m\<lparr>cells := (cells m)(a \<mapsto> p, b \<mapsto> l)\<rparr>) cs"
  by (auto simp: ctxs_ok_def)

text \<open>A context gets a window that no object and no other window has.\<close>

lemma world_inv_set_window:
  assumes inv: "world_inv hdr s" and c: "c \<in> set (ctxs s)" and ok: "window_ok hdr (mem s) (p, l)"
    and ob: "\<forall>ob \<in> set (objs s). apart (win_span hdr (p, l)) (obj_span hdr ob)"
    and ds: "\<forall>d \<in> set (ctxs s). \<forall>v. d \<noteq> c \<and> window (mem s) d = Some v \<longrightarrow>
               apart (win_span hdr (p, l)) (win_span hdr v)"
  shows "world_inv hdr
    (s\<lparr>mem := (mem s)\<lparr>cells := (cells (mem s))(fst c \<mapsto> p, snd c \<mapsto> l)\<rparr>\<rparr>)"
proof -
  have cs: "ctxs_ok (mem s) (ctxs s)" using inv by (simp add: world_inv_def)
  note [simp] = window_upd [OF cs c]
  show ?thesis
    using inv ok ob ds
    by (auto simp: world_inv_def ctxs_ok_upd intro: apart_sym split: if_splits)
qed

lemma world_inv_window:
  assumes "world_inv hdr s" and "c \<in> set (ctxs s)" and "window (mem s) c = Some w"
  shows "window_ok hdr (mem s) w"
    and "\<forall>ob \<in> set (objs s). apart (win_span hdr w) (obj_span hdr ob)"
    and "\<forall>d \<in> set (ctxs s). \<forall>v. d \<noteq> c \<and> window (mem s) d = Some v \<longrightarrow>
           apart (win_span hdr w) (win_span hdr v)"
  using assms unfolding world_inv_def by blast+

text \<open>A bump cuts an object off the front of a window.\<close>

lemma world_inv_bump:
  fixes p l sz :: "'w::len word"
  assumes inv: "world_inv hdr s" and c: "(pp, lp) \<in> set (ctxs s)"
    and w: "window (mem s) (pp, lp) = Some (p, l)" and fits: "unat p + unat sz \<le> unat l"
  shows "world_inv hdr
    (s\<lparr>mem := (mem s)\<lparr>cells := (cells (mem s))(pp \<mapsto> p + sz)\<rparr>, objs := (p, unat sz) # objs s\<rparr>)"
proof -
  note W = world_inv_window [OF inv c w]
  have "unat l < 2 ^ LENGTH('w)" by simp
  with fits have u: "unat (p + sz) = unat p + unat sz" by (intro unat_add_small) linarith
  let ?old = "win_span hdr (p, l)" and ?new = "win_span hdr (p + sz, l)"
  let ?ob = "obj_span hdr (p, unat sz)"
  have ins: "inside ?new ?old" "inside ?ob ?old"
    using W(1) u fits by (auto simp: window_ok_def win_span_def obj_span_def inside_def)
  have ok: "window_ok hdr (mem s) (p + sz, l)"
    using W(1) u fits in_block_inside [OF _ ins(1)] zero_span_inside [OF _ ins(1)]
    by (auto simp: window_ok_def)
  let ?m = "(mem s)\<lparr>cells := (cells (mem s))(pp \<mapsto> p + sz)\<rparr>"
  have "pp \<noteq> lp" using inv c by (force simp: world_inv_def ctxs_ok_def)
  then have "(cells (mem s))(pp \<mapsto> p + sz) = (cells (mem s))(pp \<mapsto> p + sz, lp \<mapsto> l)"
    using w by (auto simp: window_Some_iff fun_eq_iff)
  then have m: "?m = (mem s)\<lparr>cells := (cells (mem s))(fst (pp, lp) \<mapsto> p + sz, snd (pp, lp) \<mapsto> l)\<rparr>"
    by simp
  have inv': "world_inv hdr (s\<lparr>mem := ?m\<rparr>)"
    unfolding m using W(2,3)
    by (intro world_inv_set_window [OF inv c ok]) (blast intro: apart_inside [OF _ ins(1)])+
  have "object_ok hdr ?m (p, unat sz)"
    using W(1) fits by (auto simp: window_ok_def object_ok_def win_span_def
        elim!: in_block_inside simp: inside_def)
  moreover have "clear hdr (s\<lparr>mem := ?m\<rparr>) ?ob"
  proof -
    have cs: "ctxs_ok (mem s) (ctxs s)" using inv by (simp add: world_inv_def)
    have new: "apart ?ob ?new"
      using u W(1) by (simp add: apart_def obj_span_def win_span_def)
    have "apart ?ob (win_span hdr v)"
      if d: "d \<in> set (ctxs s)" and v: "window ?m d = Some v" for d v
    proof (cases "d = (pp, lp)")
      case True
      with v new show ?thesis unfolding m window_upd [OF cs c d] by (simp split: if_splits)
    next
      case False
      with v have "window (mem s) d = Some v" unfolding m window_upd [OF cs c d] by simp
      with W(3) d False show ?thesis by (blast intro: apart_inside [OF _ ins(2)])
    qed
    then show ?thesis
      using W(2) by (auto simp: clear_def intro: apart_inside [OF _ ins(2)])
  qed
  ultimately show ?thesis using world_inv_object [OF inv'] by simp
qed

section \<open>Every step keeps it\<close>

text \<open>A block nobody had is clear of every window and object.\<close>

lemma clear_new_block:
  assumes inv: "world_inv hdr s" and new: "calloc_places (blocks (mem s)) a n"
  shows "clear hdr s (span a n)"
proof -
  have apart_block: "apart (span a n) r" if "in_block (mem s) r" for r
    using that new unfolding in_block_def calloc_places_def by (blast intro: apart_inside2)
  show ?thesis
    using inv unfolding clear_def world_inv_def window_ok_def
    by (blast intro: apart_block object_in_block)
qed

lemma clear_inside: "clear hdr s r \<Longrightarrow> inside r' r \<Longrightarrow> clear hdr s r'"
  unfolding clear_def by (blast intro: apart_inside)

lemma world_inv_mutate:
  assumes inv: "world_inv hdr s" and ob: "ob \<in> set (objs s)"
    and x: "fst (obj_span hdr ob) \<le> unat x" "unat x < snd (obj_span hdr ob)"
  shows "world_inv hdr (s\<lparr>mem := (mem s)\<lparr>bytes := (bytes (mem s))(x := v)\<rparr>\<rparr>)"
proof -
  let ?m = "(mem s)\<lparr>bytes := (bytes (mem s))(x := v)\<rparr>"
  have "window_ok hdr ?m w" if c: "c \<in> set (ctxs s)" and w: "window (mem s) c = Some w" for c w
  proof -
    note W = world_inv_window [OF inv c w]
    have "apart (win_span hdr w) (obj_span hdr ob)" using W(2) ob by blast
    with x have "\<not> (fst (win_span hdr w) \<le> unat x \<and> unat x < snd (win_span hdr w))"
      by (auto simp: apart_def)
    with W(1) show ?thesis by (auto simp: window_ok_def zero_span_def)
  qed
  then show ?thesis using inv unfolding world_inv_def by (simp add: ctxs_ok_def)
qed

lemma world_inv_attach:
  assumes inv: "world_inv hdr s" and n: "pp \<noteq> 0" "pp \<noteq> lp"
    and new: "\<forall>c \<in> set (ctxs s). {pp, lp} \<inter> {fst c, snd c} = {}"
  shows "world_inv hdr (s\<lparr>mem := (mem s)\<lparr>cells := (cells (mem s))(pp \<mapsto> 0, lp \<mapsto> 0)\<rparr>,
                          ctxs := (pp, lp) # ctxs s\<rparr>)"
proof -
  let ?m = "(mem s)\<lparr>cells := (cells (mem s))(pp \<mapsto> 0, lp \<mapsto> 0)\<rparr>"
  have old: "window ?m c = window (mem s) c" if "c \<in> set (ctxs s)" for c
    using new that by (auto simp: window_def)
  have none: "window ?m (pp, lp) = None" using n by (simp add: window_def)
  have "ctxs_ok ?m ((pp, lp) # ctxs s)"
    using inv new n by (auto simp: world_inv_def ctxs_ok_def)
  then show ?thesis
    using inv old none by (auto simp: world_inv_def)
qed

lemma env_step_inv:
  assumes "env_step hdr s s'" and inv: "world_inv hdr s"
  shows "world_inv hdr s'"
  using assms(1)
proof cases
  case (inline pp lp p l sz)
  with world_inv_bump [OF inv] show ?thesis by blast
next
  case (mutate ob x v)
  with world_inv_mutate [OF inv] show ?thesis by blast
next
  case (attach pp lp)
  with world_inv_attach [OF inv] show ?thesis by blast
qed

context zeroing_allocator
begin

text \<open>The allocator itself, seen from the world.\<close>

lemma world_inv_zalloc:
  assumes inv: "world_inv hdr s" and z: "zalloc n (mem s) = (a, m')"
  shows "world_inv hdr (s\<lparr>mem := m'\<rparr>)"
proof -
  have "mem_ok m'" using inv zalloc_mem_ok [OF z] by (simp add: world_inv_def)
  moreover have "bytes m' x = 0" if "bytes (mem s) x = 0" for x
    using that zalloc_null [of n "mem s" m'] zalloc_block [OF z] z
    by (cases "a = 0") (auto simp: zero_fill_def)
  ultimately show ?thesis
    using world_inv_mem [OF inv] zalloc_cells [OF z] zalloc_blocks_grow [OF z] by blast
qed

lemma clear_zalloc:
  assumes inv: "world_inv hdr s" and z: "zalloc n (mem s) = (a, m')" and a: "a \<noteq> 0"
  shows "clear hdr (s\<lparr>mem := m'\<rparr>) (span a (unat n))"
proof -
  have "clear hdr s (span a (unat n))"
    using clear_new_block [OF inv] zalloc_block [OF z a] by blast
  then show ?thesis using zalloc_cells [OF z] by (auto simp: clear_def window_def)
qed

lemma world_inv_direct:
  assumes inv: "world_inv hdr s" and no: "\<not> sz > - 1 - hdr"
    and z: "zalloc (sz + hdr) (mem s) = (a, m')" and a: "a \<noteq> 0"
  shows "world_inv hdr (s\<lparr>mem := m', objs := (a + hdr, unat sz) # objs s\<rparr>)"
proof -
  note u = direct_result(1) [OF no z a] not_overflow_unat [OF no]
  have "in_block m' (span a (unat (sz + hdr)))"
    using zalloc_block [OF z a] by (auto simp: in_block_def inside_def)
  then have "object_ok hdr m' (a + hdr, unat sz)"
    using u by (simp add: object_ok_def span_def ac_simps)
  moreover have "clear hdr (s\<lparr>mem := m'\<rparr>) (obj_span hdr (a + hdr, unat sz))"
    using clear_inside [OF clear_zalloc [OF inv z a]] u
    by (auto simp: obj_span_def inside_def)
  ultimately show ?thesis
    using world_inv_object [OF world_inv_zalloc [OF inv z]] by simp
qed

lemma world_inv_refill:
  assumes t: "rv_target TYPE('w)" and h: "1 \<le> unat hdr"
    and inv: "world_inv hdr s" and c: "(pp, lp) \<in> set (ctxs s)"
    and fits: "unat sz + unat hdr \<le> 65536"
    and z: "zalloc UGC_ALLOC_QUANTUM (mem s) = (a, m1)" and a: "a \<noteq> 0"
  shows "world_inv hdr
    (s\<lparr>mem := m1\<lparr>cells := (cells m1)(pp \<mapsto> a + hdr + sz, lp \<mapsto> a + UGC_ALLOC_QUANTUM)\<rparr>,
       objs := (a + hdr, unat sz) # objs s\<rparr>)"
proof -
  have "unat hdr \<le> 65536" using fits by simp
  note u = fresh_result [OF t z a this] unat_quantum [OF t]
  let ?s = "s\<lparr>mem := m1\<rparr>"
  let ?w = "(a + hdr, a + UGC_ALLOC_QUANTUM)"
  have inv1: "world_inv hdr ?s" by (rule world_inv_zalloc [OF inv z])
  have sp: "win_span hdr ?w = span a (unat (UGC_ALLOC_QUANTUM :: 'w word))"
    using u by (simp add: win_span_def span_def)
  have ok: "window_ok hdr (mem ?s) ?w"
    using u fits zalloc_block [OF z a] zalloc_zeroed [OF z a]
    unfolding window_ok_def sp in_block_def zero_span_def zeroed_def by (auto simp: inside_def)
  have cl: "clear hdr ?s (win_span hdr ?w)" unfolding sp by (rule clear_zalloc [OF inv z a])
  let ?m2 = "m1\<lparr>cells := (cells m1)(pp \<mapsto> a + hdr, lp \<mapsto> a + UGC_ALLOC_QUANTUM)\<rparr>"
  have c': "(pp, lp) \<in> set (ctxs ?s)" using c by simp
  have ne: "pp \<noteq> lp" using inv c by (force simp: world_inv_def ctxs_ok_def)
  have inv2: "world_inv hdr (s\<lparr>mem := ?m2\<rparr>)"
    using world_inv_set_window [OF inv1 c' ok] cl by (simp add: clear_def)
  have "window ?m2 (pp, lp) = Some ?w" using u(2) ne by (simp add: window_def)
  then have "world_inv hdr
    (s\<lparr>mem := ?m2\<lparr>cells := (cells ?m2)(pp \<mapsto> a + hdr + sz)\<rparr>,
       objs := (a + hdr, unat sz) # objs s\<rparr>)"
    using world_inv_bump [OF inv2, of pp lp "a + hdr" "a + UGC_ALLOC_QUANTUM" sz] c u(1,3) fits
    by simp
  moreover have "(cells ?m2)(pp \<mapsto> a + hdr + sz) =
      (cells m1)(pp \<mapsto> a + hdr + sz, lp \<mapsto> a + UGC_ALLOC_QUANTUM)"
    using ne by (auto simp: fun_eq_iff)
  ultimately show ?thesis by simp
qed

text \<open>A call on a context of a good world, by what it does to the memory.\<close>

lemma core_call_cases [consumes 4, case_names null direct bump refill]:
  assumes t: "rv_target TYPE('w)" and inv: "world_inv hdr s"
    and c: "pp = 0 \<or> (pp, lp) \<in> set (ctxs s)"
    and run: "ugc_core_alloc zalloc pp lp sz bypass hdr (mem s) = Some (r, m')"
  obtains
    "r = 0" "m' = mem s \<or> (\<exists>n. zalloc n (mem s) = (0, m'))"
  | a where "\<not> sz > - 1 - hdr" "zalloc (sz + hdr) (mem s) = (a, m')" "a \<noteq> 0" "r = a + hdr" "r \<noteq> 0"
  | l where "(pp, lp) \<in> set (ctxs s)" "window (mem s) (pp, lp) = Some (r, l)"
      "unat r + unat sz \<le> unat l" "r \<noteq> 0" "m' = (mem s)\<lparr>cells := (cells (mem s))(pp \<mapsto> r + sz)\<rparr>"
  | a m1 where "(pp, lp) \<in> set (ctxs s)" "unat sz + unat hdr \<le> 65536"
      "zalloc UGC_ALLOC_QUANTUM (mem s) = (a, m1)" "a \<noteq> 0" "r = a + hdr" "r \<noteq> 0"
      "m' = m1\<lparr>cells := (cells m1)(pp \<mapsto> a + hdr + sz, lp \<mapsto> a + UGC_ALLOC_QUANTUM)\<rparr>"
      "\<forall>x l. window (mem s) (pp, lp) = Some (x, l) \<longrightarrow> unat l < unat x + unat sz"
proof -
  have win: "unat x \<le> unat l" if "(pp, lp) \<in> set (ctxs s)" "window (mem s) (pp, lp) = Some (x, l)" for x l
    using world_inv_window(1) [OF inv that] by (simp add: window_ok_def)
  from run show ?thesis
  proof (cases rule: core_alloc_cases)
    case overflow
    with that(1) show ?thesis by blast
  next
    case (direct a)
    with direct_result(2) [OF direct(1,3)] that(1,2) show ?thesis by (cases "a = 0") auto
  next
    case (bump l)
    then have c': "(pp, lp) \<in> set (ctxs s)" using c by simp
    have w: "window (mem s) (pp, lp) = Some (r, l)" using bump by (simp add: window_Some_iff)
    show ?thesis using that(3) [OF c' w _ bump(6,9)] bump(8) win [OF c' w] by (simp add: fits_iff)
  next
    case (refill p)
    then have c': "(pp, lp) \<in> set (ctxs s)" using c by simp
    have fits: "unat sz + unat hdr \<le> 65536"
      using refill(4) by (simp add: over_quantum_iff [OF t refill(1)])
    have full: "unat l < unat x + unat sz" if w: "window (mem s) (pp, lp) = Some (x, l)" for x l
      using refill(5,6) w win [OF c' w] by (auto simp: window_Some_iff fits_iff)
    from refill(7) show ?thesis
    proof (cases rule: ctx_refill_cases)
      case null
      with that(1) show ?thesis by blast
    next
      case (fresh a m1)
      then have r: "r \<noteq> 0" using fresh_result(2) [OF t fresh(2,1)] fits by simp
      show ?thesis by (rule that(4) [OF c' fits fresh(2,1,3) r fresh(4)]) (use full in blast)
    qed
  qed
qed

lemma world_inv_call:
  assumes t: "rv_target TYPE('w)" and h: "1 \<le> unat hdr" and inv: "world_inv hdr s"
    and c: "pp = 0 \<or> (pp, lp) \<in> set (ctxs s)"
    and run: "ugc_core_alloc zalloc pp lp sz bypass hdr (mem s) = Some (r, m')"
  shows "world_inv hdr (s\<lparr>mem := m', objs := (if r = 0 then objs s else (r, unat sz) # objs s)\<rparr>)"
  using t inv c run
proof (cases rule: core_call_cases)
  case null
  with inv world_inv_zalloc [OF inv] show ?thesis by auto
next
  case (direct a)
  with world_inv_direct [OF inv direct(1-3)] show ?thesis by simp
next
  case (bump l)
  with world_inv_bump [OF inv bump(1-3)] show ?thesis by simp
next
  case (refill a m1)
  with world_inv_refill [OF t h inv refill(1-4)] show ?thesis by simp
qed

lemma alloc_step_inv:
  assumes t: "rv_target TYPE('w)" and h: "1 \<le> unat hdr"
    and step: "alloc_step zalloc hdr s s'" and inv: "world_inv hdr s"
  shows "world_inv hdr s'"
  using step
proof cases
  case (call pp lp sz bypass r m')
  with world_inv_call [OF t h inv] show ?thesis by blast
next
  case env
  with env_step_inv inv show ?thesis by blast
qed

lemma alloc_reach_inv:
  assumes "rv_target TYPE('w)" and "1 \<le> unat hdr" and "alloc_reach zalloc hdr s"
  shows "world_inv hdr s"
  using assms(3)
proof induction
  case (start s)
  then show ?case by (auto simp: world_start_def world_inv_def ctxs_ok_def)
next
  case (step s t)
  with alloc_step_inv [OF assms(1,2)] show ?case by blast
qed

end

end
