(* ===== verification/CLR_Interface.thy ===== *)
theory CLR_Interface
  imports Prelude
begin

text \<open>
  What uGC takes from the headers of the .NET runtime, which are not part of the repository
  (\<open>gcinterface.h\<close>, \<open>gcenv.base.h\<close>): the values of the constants it returns or passes on, and
  the offsets of the fields of \<open>gc_alloc_context\<close>. They are parameters; nothing is assumed
  of a value but where a statement names the assumption. \<open>HandleType\<close> is an enumeration
  whose values are carried as \<open>int\<close>.
\<close>

datatype ctx_field = Alloc_Ptr | Alloc_Limit | Alloc_Bytes | Alloc_Bytes_UOH

record 'p clr_interface =
  hndtype_dependent :: int
  gc_alloc_user_old_heap :: "32 word"
  wait_full_gc_na :: int
  status_succeed :: int
  large_object_size :: 'p
  s_ok :: "32 word"
  noerror :: "32 word"
  gc_interface_major_version :: "32 word"
  gc_interface_minor_version :: "32 word"
  field_offset :: "ctx_field \<Rightarrow> 'p"

text \<open>A handle type the runtime uses for a live handle.\<close>

definition live_type :: "int \<Rightarrow> bool" where
  "live_type t \<longleftrightarrow> 0 \<le> t"

end
