(* ===== verification/GC_Heap.thy ===== *)
theory GC_Heap
  imports Alloc_World CLR_Interface
begin

unbundle bit_operations_syntax

text \<open>
  \<open>uGCHeap\<close> (\<open>ugc/uGCHeap.cpp\<close>, \<open>ugc/uGCHeap.h\<close>): the implementation of \<open>IGCHeap\<close>. The
  object has three members; \<open>Alloc\<close> and \<open>RegisterFrozenSegment\<close> are the only methods that
  write one. The other methods answer for a collector that never collects. Every method is a
  definition of its own, with the interface's parameters in their order after the runtime's
  constants; function pointers and pointers to opaque structures are addresses, and the
  parameter \<open>float\<close> of \<open>SetYieldProcessorScalingFactor\<close> is its 32-bit pattern.
\<close>

section \<open>The object\<close>

record 'p gc_heap =
  gcToCLR :: 'p
  registeredSegments :: int
  allocatedBytes :: "64 word"

definition new_uGCHeap :: "'p \<Rightarrow> 'p gc_heap" where
  "new_uGCHeap clrToGC = \<lparr>gcToCLR = clrToGC, registeredSegments = 0, allocatedBytes = 0\<rparr>"

text \<open>\<open>sizeof(ObjHeader)\<close>: the sync block value, and padding before it on 64-bit hosts.\<close>

definition sizeof_ObjHeader :: "'w::len itself \<Rightarrow> 'w word" where
  "sizeof_ObjHeader _ = (if LENGTH('w) = 64 then 4 + 4 else 4)"

definition ObjectGap :: "'w::len word" where
  "ObjectGap = (sizeof_ObjHeader TYPE('w) + 7) AND NOT 7"

definition E_NOTIMPL :: "32 word" where
  "E_NOTIMPL = 0x80004001"

section \<open>Allocation\<close>

text \<open>\<open>&acontext->field\<close>.\<close>

definition ctx_field_addr :: "'w::len word clr_interface \<Rightarrow> 'w word \<Rightarrow> ctx_field \<Rightarrow> 'w word" where
  "ctx_field_addr clr acontext f = acontext + field_offset clr f"

definition Alloc ::
  "'w::len word clr_interface \<Rightarrow> 'w word \<Rightarrow> 'w word \<Rightarrow> 32 word \<Rightarrow>
   'w word gc_heap \<Rightarrow> ('w word, 'm) cmem_scheme \<Rightarrow>
   ('w word \<times> 'w word gc_heap \<times> ('w word, 'm) cmem_scheme) option" where
  "Alloc clr acontext sz flags h m =
     (let alloc_ptr_p = (if acontext \<noteq> 0 then ctx_field_addr clr acontext Alloc_Ptr else 0);
          alloc_limit_p = (if acontext \<noteq> 0 then ctx_field_addr clr acontext Alloc_Limit else 0);
          old_heap = (flags AND gc_alloc_user_old_heap clr \<noteq> 0)
      in do {
        (obj, m) \<leftarrow> ugc_core_alloc ugc_zalloc alloc_ptr_p alloc_limit_p sz old_heap ObjectGap m;
        if obj \<noteq> 0 then do {
          m \<leftarrow> (if acontext \<noteq> 0
                then if old_heap
                     then add_i64 (ctx_field_addr clr acontext Alloc_Bytes_UOH) (int64_of_size sz) m
                     else add_i64 (ctx_field_addr clr acontext Alloc_Bytes) (int64_of_size sz) m
                else Some m);
          Some (obj, h\<lparr>allocatedBytes := allocatedBytes h + ucast sz\<rparr>, m)
        }
        else Some (obj, h, m)
      })"

section \<open>Reports and segments\<close>

text \<open>The out parameters of \<open>GetMemoryInfo\<close>, by name. With addresses in the fields this is what a
  caller passes; with values in them, what it finds there afterwards.\<close>

record ('u64, 'u32, 'bool) memory_info =
  highMemLoadThresholdBytes :: 'u64
  totalAvailableMemoryBytes :: 'u64
  lastRecordedMemLoadBytes :: 'u64
  lastRecordedHeapSizeBytes :: 'u64
  lastRecordedFragmentationBytes :: 'u64
  totalCommittedBytes :: 'u64
  promotedBytes :: 'u64
  pinnedObjectCount :: 'u64
  finalizationPendingCount :: 'u64
  mi_index :: 'u64
  mi_generation :: 'u32
  pauseTimePct :: 'u32
  isCompaction :: 'bool
  isConcurrent :: 'bool
  genInfoRaw :: 'u64
  pauseInfoRaw :: 'u64

text \<open>The variables of a caller that out parameters point to, by address; a store through a
  pointer to no variable is undefined behaviour.\<close>

record 'p out_vars =
  u64_vars :: "'p \<rightharpoonup> 64 word"
  u32_vars :: "'p \<rightharpoonup> 32 word"
  bool_vars :: "'p \<rightharpoonup> bool"

definition put_u64 :: "'p \<Rightarrow> 64 word \<Rightarrow> 'p out_vars \<Rightarrow> 'p out_vars option" where
  "put_u64 p v s = (if u64_vars s p = None then None else Some (s\<lparr>u64_vars := (u64_vars s)(p \<mapsto> v)\<rparr>))"

definition put_u32 :: "'p \<Rightarrow> 32 word \<Rightarrow> 'p out_vars \<Rightarrow> 'p out_vars option" where
  "put_u32 p v s = (if u32_vars s p = None then None else Some (s\<lparr>u32_vars := (u32_vars s)(p \<mapsto> v)\<rparr>))"

definition put_bool :: "'p \<Rightarrow> bool \<Rightarrow> 'p out_vars \<Rightarrow> 'p out_vars option" where
  "put_bool p v s = (if bool_vars s p = None then None else Some (s\<lparr>bool_vars := (bool_vars s)(p \<mapsto> v)\<rparr>))"

definition GetMemoryInfo ::
  "('p, 'p, 'p) memory_info \<Rightarrow> int \<Rightarrow> 'p gc_heap \<Rightarrow> 'p out_vars \<Rightarrow> 'p out_vars option" where
  "GetMemoryInfo out kind h s =
     do {
       s \<leftarrow> put_u64 (highMemLoadThresholdBytes out) 0 s;
       s \<leftarrow> put_u64 (totalAvailableMemoryBytes out) 0 s;
       s \<leftarrow> put_u64 (lastRecordedMemLoadBytes out) 0 s;
       s \<leftarrow> put_u64 (lastRecordedHeapSizeBytes out) (allocatedBytes h) s;
       s \<leftarrow> put_u64 (lastRecordedFragmentationBytes out) 0 s;
       s \<leftarrow> put_u64 (totalCommittedBytes out) (allocatedBytes h) s;
       s \<leftarrow> put_u64 (promotedBytes out) 0 s;
       s \<leftarrow> put_u64 (pinnedObjectCount out) 0 s;
       s \<leftarrow> put_u64 (finalizationPendingCount out) 0 s;
       s \<leftarrow> put_u64 (mi_index out) 0 s;
       s \<leftarrow> put_u32 (mi_generation out) 0 s;
       s \<leftarrow> put_u32 (pauseTimePct out) 0 s;
       s \<leftarrow> put_bool (isCompaction out) False s;
       s \<leftarrow> put_bool (isConcurrent out) False s;
       s \<leftarrow> put_u64 (genInfoRaw out) 0 s;
       put_u64 (pauseInfoRaw out) 0 s
     }"

text \<open>The handle is the counter after the increment, converted to a pointer.\<close>

definition RegisterFrozenSegment ::
  "'w::len word \<Rightarrow> 'w word gc_heap \<Rightarrow> ('w word \<times> 'w word gc_heap) option" where
  "RegisterFrozenSegment pseginfo h =
     do {
       n \<leftarrow> c_int (registeredSegments h + 1);
       Some (word_of_int n, h\<lparr>registeredSegments := n\<rparr>)
     }"

section \<open>The methods of a collector that does not collect\<close>

definition IsValidSegmentSize ::
  "'w::len word clr_interface \<Rightarrow> 'w word \<Rightarrow> 'w word gc_heap \<Rightarrow> bool" where
  "IsValidSegmentSize clr sz h = False"

definition IsValidGen0MaxSize ::
  "'w::len word clr_interface \<Rightarrow> 'w word \<Rightarrow> 'w word gc_heap \<Rightarrow> bool" where
  "IsValidGen0MaxSize clr sz h = False"

definition GetValidSegmentSize ::
  "'w::len word clr_interface \<Rightarrow> bool \<Rightarrow> 'w word gc_heap \<Rightarrow> 'w word" where
  "GetValidSegmentSize clr large_seg h = 0"

definition SetReservedVMLimit ::
  "'w::len word clr_interface \<Rightarrow> 'w word \<Rightarrow> 'w word gc_heap \<Rightarrow> 'w word gc_heap" where
  "SetReservedVMLimit clr vmlimit h = h"

definition WaitUntilConcurrentGCComplete ::
  "'w::len word clr_interface \<Rightarrow> 'w word gc_heap \<Rightarrow> 'w word gc_heap" where
  "WaitUntilConcurrentGCComplete clr h = h"

definition IsConcurrentGCInProgress ::
  "'w::len word clr_interface \<Rightarrow> 'w word gc_heap \<Rightarrow> bool" where
  "IsConcurrentGCInProgress clr h = False"

definition TemporaryEnableConcurrentGC ::
  "'w::len word clr_interface \<Rightarrow> 'w word gc_heap \<Rightarrow> 'w word gc_heap" where
  "TemporaryEnableConcurrentGC clr h = h"

definition TemporaryDisableConcurrentGC ::
  "'w::len word clr_interface \<Rightarrow> 'w word gc_heap \<Rightarrow> 'w word gc_heap" where
  "TemporaryDisableConcurrentGC clr h = h"

definition IsConcurrentGCEnabled ::
  "'w::len word clr_interface \<Rightarrow> 'w word gc_heap \<Rightarrow> bool" where
  "IsConcurrentGCEnabled clr h = False"

definition WaitUntilConcurrentGCCompleteAsync ::
  "'w::len word clr_interface \<Rightarrow> int \<Rightarrow> 'w word gc_heap \<Rightarrow> 32 word" where
  "WaitUntilConcurrentGCCompleteAsync clr millisecondsTimeout h = E_NOTIMPL"

definition GetNumberOfFinalizable ::
  "'w::len word clr_interface \<Rightarrow> 'w word gc_heap \<Rightarrow> 'w word" where
  "GetNumberOfFinalizable clr h = 0"

definition GetNextFinalizable ::
  "'w::len word clr_interface \<Rightarrow> 'w word gc_heap \<Rightarrow> 'w word" where
  "GetNextFinalizable clr h = 0"

definition GetMemoryLoad ::
  "'w::len word clr_interface \<Rightarrow> 'w word gc_heap \<Rightarrow> 32 word" where
  "GetMemoryLoad clr h = 0"

definition GetGcLatencyMode ::
  "'w::len word clr_interface \<Rightarrow> 'w word gc_heap \<Rightarrow> int" where
  "GetGcLatencyMode clr h = 0"

definition SetGcLatencyMode ::
  "'w::len word clr_interface \<Rightarrow> int \<Rightarrow> 'w word gc_heap \<Rightarrow> int" where
  "SetGcLatencyMode clr newLatencyMode h = 0"

definition GetLOHCompactionMode ::
  "'w::len word clr_interface \<Rightarrow> 'w word gc_heap \<Rightarrow> int" where
  "GetLOHCompactionMode clr h = 0"

definition SetLOHCompactionMode ::
  "'w::len word clr_interface \<Rightarrow> int \<Rightarrow> 'w word gc_heap \<Rightarrow> 'w word gc_heap" where
  "SetLOHCompactionMode clr newLOHCompactionMode h = h"

definition RegisterForFullGCNotification ::
  "'w::len word clr_interface \<Rightarrow> 32 word \<Rightarrow> 32 word \<Rightarrow> 'w word gc_heap \<Rightarrow> bool" where
  "RegisterForFullGCNotification clr gen2Percentage lohPercentage h = False"

definition CancelFullGCNotification ::
  "'w::len word clr_interface \<Rightarrow> 'w word gc_heap \<Rightarrow> bool" where
  "CancelFullGCNotification clr h = False"

definition WaitForFullGCApproach ::
  "'w::len word clr_interface \<Rightarrow> int \<Rightarrow> 'w word gc_heap \<Rightarrow> int" where
  "WaitForFullGCApproach clr millisecondsTimeout h = wait_full_gc_na clr"

definition WaitForFullGCComplete ::
  "'w::len word clr_interface \<Rightarrow> int \<Rightarrow> 'w word gc_heap \<Rightarrow> int" where
  "WaitForFullGCComplete clr millisecondsTimeout h = wait_full_gc_na clr"

definition WhichGeneration ::
  "'w::len word clr_interface \<Rightarrow> 'w word \<Rightarrow> 'w word gc_heap \<Rightarrow> 32 word" where
  "WhichGeneration clr obj h = 0"

definition CollectionCount ::
  "'w::len word clr_interface \<Rightarrow> int \<Rightarrow> int \<Rightarrow> 'w word gc_heap \<Rightarrow> int" where
  "CollectionCount clr generation get_bgc_fgc_coutn h = 0"

definition StartNoGCRegion ::
  "'w::len word clr_interface \<Rightarrow> 64 word \<Rightarrow> bool \<Rightarrow> 64 word \<Rightarrow> bool \<Rightarrow> 'w word gc_heap \<Rightarrow> int" where
  "StartNoGCRegion clr totalSize lohSizeKnown lohSize disallowFullBlockingGC h = 0"

definition EndNoGCRegion ::
  "'w::len word clr_interface \<Rightarrow> 'w word gc_heap \<Rightarrow> int" where
  "EndNoGCRegion clr h = 0"

definition GetTotalBytesInUse ::
  "'w::len word clr_interface \<Rightarrow> 'w word gc_heap \<Rightarrow> 'w word" where
  "GetTotalBytesInUse clr h = ucast (allocatedBytes h)"

definition GetTotalAllocatedBytes ::
  "'w::len word clr_interface \<Rightarrow> 'w word gc_heap \<Rightarrow> 64 word" where
  "GetTotalAllocatedBytes clr h = allocatedBytes h"

definition GarbageCollect ::
  "'w::len word clr_interface \<Rightarrow> int \<Rightarrow> bool \<Rightarrow> int \<Rightarrow> 'w word gc_heap \<Rightarrow> 32 word" where
  "GarbageCollect clr generation low_memory_p mode h = noerror clr"

definition GetMaxGeneration ::
  "'w::len word clr_interface \<Rightarrow> 'w word gc_heap \<Rightarrow> 32 word" where
  "GetMaxGeneration clr h = 2"

definition SetFinalizationRun ::
  "'w::len word clr_interface \<Rightarrow> 'w word \<Rightarrow> 'w word gc_heap \<Rightarrow> 'w word gc_heap" where
  "SetFinalizationRun clr obj h = h"

definition RegisterForFinalization ::
  "'w::len word clr_interface \<Rightarrow> int \<Rightarrow> 'w word \<Rightarrow> 'w word gc_heap \<Rightarrow> bool" where
  "RegisterForFinalization clr gen obj h = True"

definition GetLastGCPercentTimeInGC ::
  "'w::len word clr_interface \<Rightarrow> 'w word gc_heap \<Rightarrow> int" where
  "GetLastGCPercentTimeInGC clr h = 1"

definition GetLastGCGenerationSize ::
  "'w::len word clr_interface \<Rightarrow> int \<Rightarrow> 'w word gc_heap \<Rightarrow> 'w word" where
  "GetLastGCGenerationSize clr gen h = 1"

definition heap_Initialize ::
  "'w::len word clr_interface \<Rightarrow> 'w word gc_heap \<Rightarrow> 32 word" where
  "heap_Initialize clr h = noerror clr"

definition IsPromoted ::
  "'w::len word clr_interface \<Rightarrow> 'w word \<Rightarrow> 'w word gc_heap \<Rightarrow> bool" where
  "IsPromoted clr object h = True"

definition IsHeapPointer ::
  "'w::len word clr_interface \<Rightarrow> 'w word \<Rightarrow> bool \<Rightarrow> 'w word gc_heap \<Rightarrow> bool" where
  "IsHeapPointer clr object small_heap_only h = (object \<noteq> 0)"

definition GetCondemnedGeneration ::
  "'w::len word clr_interface \<Rightarrow> 'w word gc_heap \<Rightarrow> 32 word" where
  "GetCondemnedGeneration clr h = 0"

definition IsGCInProgressHelper ::
  "'w::len word clr_interface \<Rightarrow> bool \<Rightarrow> 'w word gc_heap \<Rightarrow> bool" where
  "IsGCInProgressHelper clr bConsiderGCStart h = False"

definition GetGcCount ::
  "'w::len word clr_interface \<Rightarrow> 'w word gc_heap \<Rightarrow> 32 word" where
  "GetGcCount clr h = 0"

definition IsThreadUsingAllocationContextHeap ::
  "'w::len word clr_interface \<Rightarrow> 'w word \<Rightarrow> int \<Rightarrow> 'w word gc_heap \<Rightarrow> bool" where
  "IsThreadUsingAllocationContextHeap clr acontext thread_number h = False"

definition IsEphemeral ::
  "'w::len word clr_interface \<Rightarrow> 'w word \<Rightarrow> 'w word gc_heap \<Rightarrow> bool" where
  "IsEphemeral clr object h = False"

definition WaitUntilGCComplete ::
  "'w::len word clr_interface \<Rightarrow> bool \<Rightarrow> 'w word gc_heap \<Rightarrow> 32 word" where
  "WaitUntilGCComplete clr bConsiderGCStart h = 0"

definition FixAllocContext ::
  "'w::len word clr_interface \<Rightarrow> 'w word \<Rightarrow> 'w word \<Rightarrow> 'w word \<Rightarrow> 'w word gc_heap \<Rightarrow> 'w word gc_heap" where
  "FixAllocContext clr acontext arg heap h = h"

definition GetCurrentObjSize ::
  "'w::len word clr_interface \<Rightarrow> 'w word gc_heap \<Rightarrow> 'w word" where
  "GetCurrentObjSize clr h = ucast (allocatedBytes h)"

definition SetGCInProgress ::
  "'w::len word clr_interface \<Rightarrow> bool \<Rightarrow> 'w word gc_heap \<Rightarrow> 'w word gc_heap" where
  "SetGCInProgress clr fInProgress h = h"

definition RuntimeStructuresValid ::
  "'w::len word clr_interface \<Rightarrow> 'w word gc_heap \<Rightarrow> bool" where
  "RuntimeStructuresValid clr h = True"

definition SetSuspensionPending ::
  "'w::len word clr_interface \<Rightarrow> bool \<Rightarrow> 'w word gc_heap \<Rightarrow> 'w word gc_heap" where
  "SetSuspensionPending clr fSuspensionPending h = h"

definition SetYieldProcessorScalingFactor ::
  "'w::len word clr_interface \<Rightarrow> 32 word \<Rightarrow> 'w word gc_heap \<Rightarrow> 'w word gc_heap" where
  "SetYieldProcessorScalingFactor clr yieldProcessorScalingFactor h = h"

definition heap_Shutdown ::
  "'w::len word clr_interface \<Rightarrow> 'w word gc_heap \<Rightarrow> 'w word gc_heap" where
  "heap_Shutdown clr h = h"

definition GetLastGCStartTime ::
  "'w::len word clr_interface \<Rightarrow> int \<Rightarrow> 'w word gc_heap \<Rightarrow> 'w word" where
  "GetLastGCStartTime clr generation h = 0"

definition GetLastGCDuration ::
  "'w::len word clr_interface \<Rightarrow> int \<Rightarrow> 'w word gc_heap \<Rightarrow> 'w word" where
  "GetLastGCDuration clr generation h = 0"

definition GetNow ::
  "'w::len word clr_interface \<Rightarrow> 'w word gc_heap \<Rightarrow> 'w word" where
  "GetNow clr h = 0"

definition PublishObject ::
  "'w::len word clr_interface \<Rightarrow> 'w word \<Rightarrow> 'w word gc_heap \<Rightarrow> 'w word gc_heap" where
  "PublishObject clr obj h = h"

definition SetWaitForGCEvent ::
  "'w::len word clr_interface \<Rightarrow> 'w word gc_heap \<Rightarrow> 'w word gc_heap" where
  "SetWaitForGCEvent clr h = h"

definition ResetWaitForGCEvent ::
  "'w::len word clr_interface \<Rightarrow> 'w word gc_heap \<Rightarrow> 'w word gc_heap" where
  "ResetWaitForGCEvent clr h = h"

definition IsLargeObject ::
  "'w::len word clr_interface \<Rightarrow> 'w word \<Rightarrow> 'w word gc_heap \<Rightarrow> bool" where
  "IsLargeObject clr pObj h = False"

definition ValidateObjectMember ::
  "'w::len word clr_interface \<Rightarrow> 'w word \<Rightarrow> 'w word gc_heap \<Rightarrow> 'w word gc_heap" where
  "ValidateObjectMember clr obj h = h"

definition NextObj ::
  "'w::len word clr_interface \<Rightarrow> 'w word \<Rightarrow> 'w word gc_heap \<Rightarrow> 'w word" where
  "NextObj clr object h = 0"

definition GetContainingObject ::
  "'w::len word clr_interface \<Rightarrow> 'w word \<Rightarrow> bool \<Rightarrow> 'w word gc_heap \<Rightarrow> 'w word" where
  "GetContainingObject clr pInteriorPtr fCollectedGenOnly h = 0"

definition DiagWalkObject ::
  "'w::len word clr_interface \<Rightarrow> 'w word \<Rightarrow> 'w word \<Rightarrow> 'w word \<Rightarrow> 'w word gc_heap \<Rightarrow> 'w word gc_heap" where
  "DiagWalkObject clr obj fn ctxt h = h"

definition DiagWalkObject2 ::
  "'w::len word clr_interface \<Rightarrow> 'w word \<Rightarrow> 'w word \<Rightarrow> 'w word \<Rightarrow> 'w word gc_heap \<Rightarrow> 'w word gc_heap" where
  "DiagWalkObject2 clr obj fn ctxt h = h"

definition DiagWalkHeap ::
  "'w::len word clr_interface \<Rightarrow> 'w word \<Rightarrow> 'w word \<Rightarrow> int \<Rightarrow> bool \<Rightarrow> 'w word gc_heap \<Rightarrow> 'w word gc_heap" where
  "DiagWalkHeap clr fn ctxt gen_number walk_large_object_heap_p h = h"

definition DiagWalkSurvivorsWithType ::
  "'w::len word clr_interface \<Rightarrow> 'w word \<Rightarrow> 'w word \<Rightarrow> 'w word \<Rightarrow> int \<Rightarrow> int \<Rightarrow> 'w word gc_heap \<Rightarrow> 'w word gc_heap" where
  "DiagWalkSurvivorsWithType clr gc_context fn diag_context typ gen_number h = h"

definition DiagWalkFinalizeQueue ::
  "'w::len word clr_interface \<Rightarrow> 'w word \<Rightarrow> 'w word \<Rightarrow> 'w word gc_heap \<Rightarrow> 'w word gc_heap" where
  "DiagWalkFinalizeQueue clr gc_context fn h = h"

definition DiagScanFinalizeQueue ::
  "'w::len word clr_interface \<Rightarrow> 'w word \<Rightarrow> 'w word \<Rightarrow> 'w word gc_heap \<Rightarrow> 'w word gc_heap" where
  "DiagScanFinalizeQueue clr fn ctxt h = h"

definition DiagScanHandles ::
  "'w::len word clr_interface \<Rightarrow> 'w word \<Rightarrow> int \<Rightarrow> 'w word \<Rightarrow> 'w word gc_heap \<Rightarrow> 'w word gc_heap" where
  "DiagScanHandles clr fn gen_number ctxt h = h"

definition DiagScanDependentHandles ::
  "'w::len word clr_interface \<Rightarrow> 'w word \<Rightarrow> int \<Rightarrow> 'w word \<Rightarrow> 'w word gc_heap \<Rightarrow> 'w word gc_heap" where
  "DiagScanDependentHandles clr fn gen_number ctxt h = h"

definition DiagDescrGenerations ::
  "'w::len word clr_interface \<Rightarrow> 'w word \<Rightarrow> 'w word \<Rightarrow> 'w word gc_heap \<Rightarrow> 'w word gc_heap" where
  "DiagDescrGenerations clr fn ctxt h = h"

definition DiagTraceGCSegments ::
  "'w::len word clr_interface \<Rightarrow> 'w word gc_heap \<Rightarrow> 'w word gc_heap" where
  "DiagTraceGCSegments clr h = h"

definition DiagGetGCSettings ::
  "'w::len word clr_interface \<Rightarrow> 'w word \<Rightarrow> 'w word gc_heap \<Rightarrow> 'w word gc_heap" where
  "DiagGetGCSettings clr settings h = h"

definition StressHeap ::
  "'w::len word clr_interface \<Rightarrow> 'w word \<Rightarrow> 'w word gc_heap \<Rightarrow> bool" where
  "StressHeap clr acontext h = False"

definition UnregisterFrozenSegment ::
  "'w::len word clr_interface \<Rightarrow> 'w word \<Rightarrow> 'w word gc_heap \<Rightarrow> 'w word gc_heap" where
  "UnregisterFrozenSegment clr seg h = h"

definition IsInFrozenSegment ::
  "'w::len word clr_interface \<Rightarrow> 'w word \<Rightarrow> 'w word gc_heap \<Rightarrow> bool" where
  "IsInFrozenSegment clr object h = False"

definition ControlEvents ::
  "'w::len word clr_interface \<Rightarrow> int \<Rightarrow> int \<Rightarrow> 'w word gc_heap \<Rightarrow> 'w word gc_heap" where
  "ControlEvents clr kw level h = h"

definition ControlPrivateEvents ::
  "'w::len word clr_interface \<Rightarrow> int \<Rightarrow> int \<Rightarrow> 'w word gc_heap \<Rightarrow> 'w word gc_heap" where
  "ControlPrivateEvents clr kw level h = h"

definition GetGenerationWithRange ::
  "'w::len word clr_interface \<Rightarrow> 'w word \<Rightarrow> 'w word \<Rightarrow> 'w word \<Rightarrow> 'w word \<Rightarrow> 'w word gc_heap \<Rightarrow> 32 word" where
  "GetGenerationWithRange clr object ppStart ppAllocated ppReserved h = 0"

definition GetTotalPauseDuration ::
  "'w::len word clr_interface \<Rightarrow> 'w word gc_heap \<Rightarrow> int" where
  "GetTotalPauseDuration clr h = 0"

definition EnumerateConfigurationValues ::
  "'w::len word clr_interface \<Rightarrow> 'w word \<Rightarrow> 'w word \<Rightarrow> 'w word gc_heap \<Rightarrow> 'w word gc_heap" where
  "EnumerateConfigurationValues clr ctxt configurationValueFunc h = h"

definition UpdateFrozenSegment ::
  "'w::len word clr_interface \<Rightarrow> 'w word \<Rightarrow> 'w word \<Rightarrow> 'w word \<Rightarrow> 'w word gc_heap \<Rightarrow> 'w word gc_heap" where
  "UpdateFrozenSegment clr seg allocated committed h = h"

definition RefreshMemoryLimit ::
  "'w::len word clr_interface \<Rightarrow> 'w word gc_heap \<Rightarrow> int" where
  "RefreshMemoryLimit clr h = 0"

definition EnableNoGCRegionCallback ::
  "'w::len word clr_interface \<Rightarrow> 'w word \<Rightarrow> 64 word \<Rightarrow> 'w word gc_heap \<Rightarrow> int" where
  "EnableNoGCRegionCallback clr callback callback_threshold h = status_succeed clr"

definition GetExtraWorkForFinalization ::
  "'w::len word clr_interface \<Rightarrow> 'w word gc_heap \<Rightarrow> 'w word" where
  "GetExtraWorkForFinalization clr h = 0"

definition GetGenerationBudget ::
  "'w::len word clr_interface \<Rightarrow> int \<Rightarrow> 'w word gc_heap \<Rightarrow> 64 word" where
  "GetGenerationBudget clr generation h = 0"

definition GetLOHThreshold ::
  "'w::len word clr_interface \<Rightarrow> 'w word gc_heap \<Rightarrow> 'w word" where
  "GetLOHThreshold clr h = large_object_size clr"

definition DiagWalkHeapWithACHandling ::
  "'w::len word clr_interface \<Rightarrow> 'w word \<Rightarrow> 'w word \<Rightarrow> int \<Rightarrow> bool \<Rightarrow> 'w word gc_heap \<Rightarrow> 'w word gc_heap" where
  "DiagWalkHeapWithACHandling clr fn ctxt gen_number walk_large_object_heap_p h = h"

definition NullBridgeObjectsWeakRefs ::
  "'w::len word clr_interface \<Rightarrow> 'w word \<Rightarrow> 'w word \<Rightarrow> 'w word gc_heap \<Rightarrow> 'w word gc_heap" where
  "NullBridgeObjectsWeakRefs clr len unreachableObjectHandles h = h"


section \<open>The header gap\<close>

lemma and_not_7: "(of_int k :: 'w::len word) AND NOT 7 = of_int (k AND NOT 7)"
proof -
  have "(7 :: 'w word) = of_int 7" by simp
  then show ?thesis by (simp only: of_int_and_eq of_int_not_eq)
qed

text \<open>On both targets the gap is eight bytes: 15 and 11 round to the same multiple of 8.\<close>

lemma ObjectGap_eq: "(ObjectGap :: 'w::len word) = 8"
proof -
  have "sizeof_ObjHeader TYPE('w) + 7 = of_int (if LENGTH('w) = 64 then 15 else 11)"
    by (simp add: sizeof_ObjHeader_def)
  then show ?thesis unfolding ObjectGap_def by (simp only: and_not_7) simp
qed

lemma ObjectGap_unat:
  assumes "rv_target TYPE('w::len)"
  shows "unat (ObjectGap :: 'w word) = 8"
  using unat_of_small [OF assms, of 8] by (simp add: ObjectGap_eq)

text \<open>The counter \<open>Alloc\<close> adds the size to.\<close>

definition alloc_counter ::
  "'w::len word clr_interface \<Rightarrow> 'w word \<Rightarrow> 32 word \<Rightarrow> 'w word" where
  "alloc_counter clr acontext flags =
     ctx_field_addr clr acontext
       (if flags AND gc_alloc_user_old_heap clr \<noteq> 0 then Alloc_Bytes_UOH else Alloc_Bytes)"

text \<open>The two addresses \<open>Alloc\<close> passes to the core.\<close>

definition ctx_ptrs :: "'w::len word clr_interface \<Rightarrow> 'w word \<Rightarrow> 'w word \<times> 'w word" where
  "ctx_ptrs clr acontext =
     (if acontext \<noteq> 0
      then (ctx_field_addr clr acontext Alloc_Ptr, ctx_field_addr clr acontext Alloc_Limit)
      else (0, 0))"

section \<open>Alloc is a call of the core and its accounting\<close>

lemma Alloc_cases:
  assumes "Alloc clr acontext sz flags h m = Some (r, h', m')"
  obtains
    (failed) "ugc_core_alloc ugc_zalloc (fst (ctx_ptrs clr acontext)) (snd (ctx_ptrs clr acontext))
        sz (flags AND gc_alloc_user_old_heap clr \<noteq> 0) ObjectGap m = Some (0, m')"
      "r = 0" "h' = h"
  | (served) m1 where
      "ugc_core_alloc ugc_zalloc (fst (ctx_ptrs clr acontext)) (snd (ctx_ptrs clr acontext))
        sz (flags AND gc_alloc_user_old_heap clr \<noteq> 0) ObjectGap m = Some (r, m1)"
      "r \<noteq> 0" "h' = h\<lparr>allocatedBytes := allocatedBytes h + ucast sz\<rparr>"
      "if acontext = 0 then m' = m1
       else add_i64 (alloc_counter clr acontext flags) (int64_of_size sz) m1 = Some m'"
proof -
  from assms obtain r1 m1 where core:
    "ugc_core_alloc ugc_zalloc (fst (ctx_ptrs clr acontext)) (snd (ctx_ptrs clr acontext))
        sz (flags AND gc_alloc_user_old_heap clr \<noteq> 0) ObjectGap m = Some (r1, m1)"
    by (auto simp: Alloc_def ctx_ptrs_def Let_def bind_eq_Some_conv split: if_splits)
  show ?thesis
  proof (cases "r1 = 0")
    case True
    with core assms show ?thesis
      by (intro failed) (auto simp: Alloc_def ctx_ptrs_def Let_def split: if_splits)
  next
    case False
    have "r = r1 \<and> h' = h\<lparr>allocatedBytes := allocatedBytes h + ucast sz\<rparr> \<and>
       (if acontext = 0 then m' = m1
        else add_i64 (alloc_counter clr acontext flags) (int64_of_size sz) m1 = Some m')"
      using core assms False
      by (auto simp: Alloc_def ctx_ptrs_def alloc_counter_def Let_def bind_eq_Some_conv
          split: if_splits)
    with core False show ?thesis by (intro served [of m1]) auto
  qed
qed

lemma add_i64_Some_iff:
  "add_i64 p n m = Some m' \<longleftrightarrow>
     (\<exists>x. i64s m p = Some x \<and> - (2 ^ 63) \<le> x + n \<and> x + n < 2 ^ 63 \<and>
          m' = m\<lparr>i64s := (i64s m)(p \<mapsto> x + n)\<rparr>)"
  by (auto simp: add_i64_def bind_eq_Some_conv c_simps)

text \<open>The core reads and writes no counter.\<close>

lemma core_alloc_i64s:
  assumes "ugc_core_alloc ugc_zalloc pp lp sz bypass hdr m = Some (r, m')"
  shows "i64s m' = i64s m"
  using assms
proof (cases rule: core_alloc_cases)
  case (direct a)
  then show ?thesis using ugc_zalloc.zalloc_cells by blast
next
  case (refill p)
  from refill(7) show ?thesis
    by (cases rule: ctx_refill_cases) (auto dest: ugc_zalloc.zalloc_cells)
qed simp_all

text \<open>A call with good arguments returns: the context's fields exist and form a window, and
  the counter does not overflow.\<close>

definition alloc_args_ok ::
  "'w::len word clr_interface \<Rightarrow> 'w word \<Rightarrow> 'w word \<Rightarrow> 32 word \<Rightarrow>
   ('w word, 'm) cmem_scheme \<Rightarrow> bool" where
  "alloc_args_ok clr acontext sz flags m \<longleftrightarrow>
     core_alloc_requires m (fst (ctx_ptrs clr acontext)) (snd (ctx_ptrs clr acontext)) ObjectGap \<and>
     (acontext = 0 \<or>
      (case i64s m (alloc_counter clr acontext flags) of
         None \<Rightarrow> False
       | Some x \<Rightarrow> c_int64 (x + int64_of_size sz) \<noteq> None))"

lemma Alloc_returns:
  fixes m :: "('w::len word, 'm) cmem_scheme"
  assumes "alloc_args_ok clr acontext sz flags m"
  shows "\<exists>r h' m'. Alloc clr acontext sz flags h m = Some (r, h', m')"
proof -
  let ?core = "ugc_core_alloc ugc_zalloc (fst (ctx_ptrs clr acontext))
    (snd (ctx_ptrs clr acontext)) sz (flags AND gc_alloc_user_old_heap clr \<noteq> 0) ObjectGap m"
  from assms obtain r m1 where core: "?core = Some (r, m1)"
    using ugc_zalloc.core_alloc_returns unfolding alloc_args_ok_def by blast
  note i = core_alloc_i64s [OF core]
  show ?thesis
    using assms core i
    by (cases "acontext = 0")
      (auto simp: Alloc_def Let_def ctx_ptrs_def alloc_args_ok_def alloc_counter_def add_i64_def
        c_int64_def split: option.splits if_splits)
qed

lemma world_inv_i64s: "world_inv hdr (s\<lparr>mem := m\<lparr>i64s := i\<rparr>\<rparr>) = world_inv hdr (s\<lparr>mem := m\<rparr>)"
  by (simp add: world_inv_def ctxs_ok_def window_ok_def object_ok_def in_block_def zero_span_def)

lemma world_inv_i64s_objs:
  fixes s :: "('w::len, 'm) mworld"
  shows
  "world_inv hdr (s\<lparr>mem := m\<lparr>i64s := i\<rparr>, objs := os\<rparr>) = world_inv hdr (s\<lparr>mem := m, objs := os\<rparr>)"
  by (simp add: world_inv_def ctxs_ok_def window_ok_def object_ok_def in_block_def zero_span_def)

text \<open>A call of \<open>Alloc\<close> is a call step of the allocator, then counter updates.\<close>

lemma Alloc_world_inv:
  fixes s :: "('w::len, 'm) mworld"
  assumes t: "rv_target TYPE('w)" and inv: "world_inv ObjectGap s"
    and c: "acontext = 0 \<or> ctx_ptrs clr acontext \<in> set (ctxs s)"
    and run: "Alloc clr acontext sz flags h (mem s) = Some (r, h', m')"
  shows "world_inv ObjectGap
    (s\<lparr>mem := m', objs := (if r = 0 then objs s else (r, unat sz) # objs s)\<rparr>)"
proof -
  have g: "1 \<le> unat (ObjectGap :: 'w word)"
    using ObjectGap_unat [OF t] by simp
  have c': "fst (ctx_ptrs clr acontext) = 0 \<or>
      (fst (ctx_ptrs clr acontext), snd (ctx_ptrs clr acontext)) \<in> set (ctxs s)"
    using c by (auto simp: ctx_ptrs_def)
  note call = ugc_zalloc.world_inv_call [OF t g inv c']
  from run show ?thesis
  proof (cases rule: Alloc_cases)
    case failed
    with call show ?thesis by fastforce
  next
    case (served m1)
    then have "world_inv ObjectGap (s\<lparr>mem := m1, objs := (r, unat sz) # objs s\<rparr>)"
      using call by fastforce
    with served(2,4) show ?thesis
      by (auto simp: add_i64_Some_iff world_inv_i64s_objs split: if_splits)
  qed
qed

end
