(* ===== verification/Heap_API.thy ===== *)
theory Heap_API
  imports GC_Heap
begin

text \<open>
  The methods of \<open>IGCHeap\<close> other than \<open>Alloc\<close>, \<open>GetMemoryInfo\<close> and \<open>RegisterFrozenSegment\<close>
  as data: the class declaration of \<open>uGCHeap.h\<close> as datatypes of calls, in the groups of the
  declaration, and the virtual call that sends each to its method. A call carries all its
  arguments: the default arguments of the declaration are filled in where the call is
  written. The one \<open>float\<close> argument is its bit pattern; no method reads it.
  For all of them: a table of what they answer, which depends on nothing but the bytes served,
  and that the code gives these answers and changes nothing. And what a caller of \<open>GetMemoryInfo\<close> finds in its variables.
\<close>

section \<open>Calls and results\<close>

datatype 'p heap_value =
    VVoid
  | VBool bool
  | VInt int
  | VInt64 int
  | VU32 "32 word"
  | VU64 "64 word"
  | VSize 'p
  | VPtr 'p

text \<open>Hosting, concurrent GC and finalization.\<close>

datatype 'p hosting_method =
    M_IsValidSegmentSize 'p
  | M_IsValidGen0MaxSize 'p
  | M_GetValidSegmentSize bool
  | M_SetReservedVMLimit 'p
  | M_WaitUntilConcurrentGCComplete
  | M_IsConcurrentGCInProgress
  | M_TemporaryEnableConcurrentGC
  | M_TemporaryDisableConcurrentGC
  | M_IsConcurrentGCEnabled
  | M_WaitUntilConcurrentGCCompleteAsync int
  | M_GetNumberOfFinalizable
  | M_GetNextFinalizable

primrec hosting_call ::
  "'w::len word clr_interface \<Rightarrow> 'w word hosting_method \<Rightarrow> 'w word gc_heap \<Rightarrow>
   'w word heap_value \<times> 'w word gc_heap" where
  "hosting_call clr (M_IsValidSegmentSize sz) h = (VBool (IsValidSegmentSize clr sz h), h)"
| "hosting_call clr (M_IsValidGen0MaxSize sz) h = (VBool (IsValidGen0MaxSize clr sz h), h)"
| "hosting_call clr (M_GetValidSegmentSize large_seg) h = (VSize (GetValidSegmentSize clr large_seg h), h)"
| "hosting_call clr (M_SetReservedVMLimit vmlimit) h = (VVoid, SetReservedVMLimit clr vmlimit h)"
| "hosting_call clr M_WaitUntilConcurrentGCComplete h = (VVoid, WaitUntilConcurrentGCComplete clr h)"
| "hosting_call clr M_IsConcurrentGCInProgress h = (VBool (IsConcurrentGCInProgress clr h), h)"
| "hosting_call clr M_TemporaryEnableConcurrentGC h = (VVoid, TemporaryEnableConcurrentGC clr h)"
| "hosting_call clr M_TemporaryDisableConcurrentGC h = (VVoid, TemporaryDisableConcurrentGC clr h)"
| "hosting_call clr M_IsConcurrentGCEnabled h = (VBool (IsConcurrentGCEnabled clr h), h)"
| "hosting_call clr (M_WaitUntilConcurrentGCCompleteAsync millisecondsTimeout) h = (VU32 (WaitUntilConcurrentGCCompleteAsync clr millisecondsTimeout h), h)"
| "hosting_call clr M_GetNumberOfFinalizable h = (VSize (GetNumberOfFinalizable clr h), h)"
| "hosting_call clr M_GetNextFinalizable h = (VPtr (GetNextFinalizable clr h), h)"

text \<open>The routines of the base class library.\<close>

datatype 'p bcl_method =
    M_GetMemoryLoad
  | M_GetGcLatencyMode
  | M_SetGcLatencyMode int
  | M_GetLOHCompactionMode
  | M_SetLOHCompactionMode int
  | M_RegisterForFullGCNotification "32 word" "32 word"
  | M_CancelFullGCNotification
  | M_WaitForFullGCApproach int
  | M_WaitForFullGCComplete int
  | M_WhichGeneration 'p
  | M_CollectionCount int int
  | M_StartNoGCRegion "64 word" bool "64 word" bool
  | M_EndNoGCRegion
  | M_GetTotalBytesInUse
  | M_GetTotalAllocatedBytes
  | M_GarbageCollect int bool int
  | M_GetMaxGeneration
  | M_SetFinalizationRun 'p
  | M_RegisterForFinalization int 'p
  | M_GetLastGCPercentTimeInGC
  | M_GetLastGCGenerationSize int

primrec bcl_call ::
  "'w::len word clr_interface \<Rightarrow> 'w word bcl_method \<Rightarrow> 'w word gc_heap \<Rightarrow>
   'w word heap_value \<times> 'w word gc_heap" where
  "bcl_call clr M_GetMemoryLoad h = (VU32 (GetMemoryLoad clr h), h)"
| "bcl_call clr M_GetGcLatencyMode h = (VInt (GetGcLatencyMode clr h), h)"
| "bcl_call clr (M_SetGcLatencyMode newLatencyMode) h = (VInt (SetGcLatencyMode clr newLatencyMode h), h)"
| "bcl_call clr M_GetLOHCompactionMode h = (VInt (GetLOHCompactionMode clr h), h)"
| "bcl_call clr (M_SetLOHCompactionMode newLOHCompactionMode) h = (VVoid, SetLOHCompactionMode clr newLOHCompactionMode h)"
| "bcl_call clr (M_RegisterForFullGCNotification gen2Percentage lohPercentage) h = (VBool (RegisterForFullGCNotification clr gen2Percentage lohPercentage h), h)"
| "bcl_call clr M_CancelFullGCNotification h = (VBool (CancelFullGCNotification clr h), h)"
| "bcl_call clr (M_WaitForFullGCApproach millisecondsTimeout) h = (VInt (WaitForFullGCApproach clr millisecondsTimeout h), h)"
| "bcl_call clr (M_WaitForFullGCComplete millisecondsTimeout) h = (VInt (WaitForFullGCComplete clr millisecondsTimeout h), h)"
| "bcl_call clr (M_WhichGeneration obj) h = (VU32 (WhichGeneration clr obj h), h)"
| "bcl_call clr (M_CollectionCount generation get_bgc_fgc_coutn) h = (VInt (CollectionCount clr generation get_bgc_fgc_coutn h), h)"
| "bcl_call clr (M_StartNoGCRegion totalSize lohSizeKnown lohSize disallowFullBlockingGC) h = (VInt (StartNoGCRegion clr totalSize lohSizeKnown lohSize disallowFullBlockingGC h), h)"
| "bcl_call clr M_EndNoGCRegion h = (VInt (EndNoGCRegion clr h), h)"
| "bcl_call clr M_GetTotalBytesInUse h = (VSize (GetTotalBytesInUse clr h), h)"
| "bcl_call clr M_GetTotalAllocatedBytes h = (VU64 (GetTotalAllocatedBytes clr h), h)"
| "bcl_call clr (M_GarbageCollect generation low_memory_p mode) h = (VU32 (GarbageCollect clr generation low_memory_p mode h), h)"
| "bcl_call clr M_GetMaxGeneration h = (VU32 (GetMaxGeneration clr h), h)"
| "bcl_call clr (M_SetFinalizationRun obj) h = (VVoid, SetFinalizationRun clr obj h)"
| "bcl_call clr (M_RegisterForFinalization gen obj) h = (VBool (RegisterForFinalization clr gen obj h), h)"
| "bcl_call clr M_GetLastGCPercentTimeInGC h = (VInt (GetLastGCPercentTimeInGC clr h), h)"
| "bcl_call clr (M_GetLastGCGenerationSize gen) h = (VSize (GetLastGCGenerationSize clr gen h), h)"

text \<open>The state of the collector, and the notifications to it.\<close>

datatype 'p state_method =
    M_Initialize
  | M_IsPromoted 'p
  | M_IsHeapPointer 'p bool
  | M_GetCondemnedGeneration
  | M_IsGCInProgressHelper bool
  | M_GetGcCount
  | M_IsThreadUsingAllocationContextHeap 'p int
  | M_IsEphemeral 'p
  | M_WaitUntilGCComplete bool
  | M_FixAllocContext 'p 'p 'p
  | M_GetCurrentObjSize
  | M_SetGCInProgress bool
  | M_RuntimeStructuresValid
  | M_SetSuspensionPending bool
  | M_SetYieldProcessorScalingFactor "32 word"
  | M_Shutdown
  | M_GetLastGCStartTime int
  | M_GetLastGCDuration int
  | M_GetNow
  | M_PublishObject 'p
  | M_SetWaitForGCEvent
  | M_ResetWaitForGCEvent

primrec state_call ::
  "'w::len word clr_interface \<Rightarrow> 'w word state_method \<Rightarrow> 'w word gc_heap \<Rightarrow>
   'w word heap_value \<times> 'w word gc_heap" where
  "state_call clr M_Initialize h = (VU32 (heap_Initialize clr h), h)"
| "state_call clr (M_IsPromoted object) h = (VBool (IsPromoted clr object h), h)"
| "state_call clr (M_IsHeapPointer object small_heap_only) h = (VBool (IsHeapPointer clr object small_heap_only h), h)"
| "state_call clr M_GetCondemnedGeneration h = (VU32 (GetCondemnedGeneration clr h), h)"
| "state_call clr (M_IsGCInProgressHelper bConsiderGCStart) h = (VBool (IsGCInProgressHelper clr bConsiderGCStart h), h)"
| "state_call clr M_GetGcCount h = (VU32 (GetGcCount clr h), h)"
| "state_call clr (M_IsThreadUsingAllocationContextHeap acontext thread_number) h = (VBool (IsThreadUsingAllocationContextHeap clr acontext thread_number h), h)"
| "state_call clr (M_IsEphemeral object) h = (VBool (IsEphemeral clr object h), h)"
| "state_call clr (M_WaitUntilGCComplete bConsiderGCStart) h = (VU32 (WaitUntilGCComplete clr bConsiderGCStart h), h)"
| "state_call clr (M_FixAllocContext acontext arg heap) h = (VVoid, FixAllocContext clr acontext arg heap h)"
| "state_call clr M_GetCurrentObjSize h = (VSize (GetCurrentObjSize clr h), h)"
| "state_call clr (M_SetGCInProgress fInProgress) h = (VVoid, SetGCInProgress clr fInProgress h)"
| "state_call clr M_RuntimeStructuresValid h = (VBool (RuntimeStructuresValid clr h), h)"
| "state_call clr (M_SetSuspensionPending fSuspensionPending) h = (VVoid, SetSuspensionPending clr fSuspensionPending h)"
| "state_call clr (M_SetYieldProcessorScalingFactor yieldProcessorScalingFactor) h = (VVoid, SetYieldProcessorScalingFactor clr yieldProcessorScalingFactor h)"
| "state_call clr M_Shutdown h = (VVoid, heap_Shutdown clr h)"
| "state_call clr (M_GetLastGCStartTime generation) h = (VSize (GetLastGCStartTime clr generation h), h)"
| "state_call clr (M_GetLastGCDuration generation) h = (VSize (GetLastGCDuration clr generation h), h)"
| "state_call clr M_GetNow h = (VSize (GetNow clr h), h)"
| "state_call clr (M_PublishObject obj) h = (VVoid, PublishObject clr obj h)"
| "state_call clr M_SetWaitForGCEvent h = (VVoid, SetWaitForGCEvent clr h)"
| "state_call clr M_ResetWaitForGCEvent h = (VVoid, ResetWaitForGCEvent clr h)"

text \<open>Object inspection and diagnostics.\<close>

datatype 'p diag_method =
    M_IsLargeObject 'p
  | M_ValidateObjectMember 'p
  | M_NextObj 'p
  | M_GetContainingObject 'p bool
  | M_DiagWalkObject 'p 'p 'p
  | M_DiagWalkObject2 'p 'p 'p
  | M_DiagWalkHeap 'p 'p int bool
  | M_DiagWalkSurvivorsWithType 'p 'p 'p int int
  | M_DiagWalkFinalizeQueue 'p 'p
  | M_DiagScanFinalizeQueue 'p 'p
  | M_DiagScanHandles 'p int 'p
  | M_DiagScanDependentHandles 'p int 'p
  | M_DiagDescrGenerations 'p 'p
  | M_DiagTraceGCSegments
  | M_DiagGetGCSettings 'p
  | M_StressHeap 'p

primrec diag_call ::
  "'w::len word clr_interface \<Rightarrow> 'w word diag_method \<Rightarrow> 'w word gc_heap \<Rightarrow>
   'w word heap_value \<times> 'w word gc_heap" where
  "diag_call clr (M_IsLargeObject pObj) h = (VBool (IsLargeObject clr pObj h), h)"
| "diag_call clr (M_ValidateObjectMember obj) h = (VVoid, ValidateObjectMember clr obj h)"
| "diag_call clr (M_NextObj object) h = (VPtr (NextObj clr object h), h)"
| "diag_call clr (M_GetContainingObject pInteriorPtr fCollectedGenOnly) h = (VPtr (GetContainingObject clr pInteriorPtr fCollectedGenOnly h), h)"
| "diag_call clr (M_DiagWalkObject obj fn ctxt) h = (VVoid, DiagWalkObject clr obj fn ctxt h)"
| "diag_call clr (M_DiagWalkObject2 obj fn ctxt) h = (VVoid, DiagWalkObject2 clr obj fn ctxt h)"
| "diag_call clr (M_DiagWalkHeap fn ctxt gen_number walk_large_object_heap_p) h = (VVoid, DiagWalkHeap clr fn ctxt gen_number walk_large_object_heap_p h)"
| "diag_call clr (M_DiagWalkSurvivorsWithType gc_context fn diag_context typ gen_number) h = (VVoid, DiagWalkSurvivorsWithType clr gc_context fn diag_context typ gen_number h)"
| "diag_call clr (M_DiagWalkFinalizeQueue gc_context fn) h = (VVoid, DiagWalkFinalizeQueue clr gc_context fn h)"
| "diag_call clr (M_DiagScanFinalizeQueue fn ctxt) h = (VVoid, DiagScanFinalizeQueue clr fn ctxt h)"
| "diag_call clr (M_DiagScanHandles fn gen_number ctxt) h = (VVoid, DiagScanHandles clr fn gen_number ctxt h)"
| "diag_call clr (M_DiagScanDependentHandles fn gen_number ctxt) h = (VVoid, DiagScanDependentHandles clr fn gen_number ctxt h)"
| "diag_call clr (M_DiagDescrGenerations fn ctxt) h = (VVoid, DiagDescrGenerations clr fn ctxt h)"
| "diag_call clr M_DiagTraceGCSegments h = (VVoid, DiagTraceGCSegments clr h)"
| "diag_call clr (M_DiagGetGCSettings settings) h = (VVoid, DiagGetGCSettings clr settings h)"
| "diag_call clr (M_StressHeap acontext) h = (VBool (StressHeap clr acontext h), h)"

text \<open>Frozen segments, events and configuration.\<close>

datatype 'p segment_method =
    M_UnregisterFrozenSegment 'p
  | M_IsInFrozenSegment 'p
  | M_ControlEvents int int
  | M_ControlPrivateEvents int int
  | M_GetGenerationWithRange 'p 'p 'p 'p
  | M_GetTotalPauseDuration
  | M_EnumerateConfigurationValues 'p 'p
  | M_UpdateFrozenSegment 'p 'p 'p
  | M_RefreshMemoryLimit
  | M_EnableNoGCRegionCallback 'p "64 word"
  | M_GetExtraWorkForFinalization
  | M_GetGenerationBudget int
  | M_GetLOHThreshold
  | M_DiagWalkHeapWithACHandling 'p 'p int bool
  | M_NullBridgeObjectsWeakRefs 'p 'p

primrec segment_call ::
  "'w::len word clr_interface \<Rightarrow> 'w word segment_method \<Rightarrow> 'w word gc_heap \<Rightarrow>
   'w word heap_value \<times> 'w word gc_heap" where
  "segment_call clr (M_UnregisterFrozenSegment seg) h = (VVoid, UnregisterFrozenSegment clr seg h)"
| "segment_call clr (M_IsInFrozenSegment object) h = (VBool (IsInFrozenSegment clr object h), h)"
| "segment_call clr (M_ControlEvents kw level) h = (VVoid, ControlEvents clr kw level h)"
| "segment_call clr (M_ControlPrivateEvents kw level) h = (VVoid, ControlPrivateEvents clr kw level h)"
| "segment_call clr (M_GetGenerationWithRange object ppStart ppAllocated ppReserved) h = (VU32 (GetGenerationWithRange clr object ppStart ppAllocated ppReserved h), h)"
| "segment_call clr M_GetTotalPauseDuration h = (VInt64 (GetTotalPauseDuration clr h), h)"
| "segment_call clr (M_EnumerateConfigurationValues ctxt configurationValueFunc) h = (VVoid, EnumerateConfigurationValues clr ctxt configurationValueFunc h)"
| "segment_call clr (M_UpdateFrozenSegment seg allocated committed) h = (VVoid, UpdateFrozenSegment clr seg allocated committed h)"
| "segment_call clr M_RefreshMemoryLimit h = (VInt (RefreshMemoryLimit clr h), h)"
| "segment_call clr (M_EnableNoGCRegionCallback callback callback_threshold) h = (VInt (EnableNoGCRegionCallback clr callback callback_threshold h), h)"
| "segment_call clr M_GetExtraWorkForFinalization h = (VPtr (GetExtraWorkForFinalization clr h), h)"
| "segment_call clr (M_GetGenerationBudget generation) h = (VU64 (GetGenerationBudget clr generation h), h)"
| "segment_call clr M_GetLOHThreshold h = (VSize (GetLOHThreshold clr h), h)"
| "segment_call clr (M_DiagWalkHeapWithACHandling fn ctxt gen_number walk_large_object_heap_p) h = (VVoid, DiagWalkHeapWithACHandling clr fn ctxt gen_number walk_large_object_heap_p h)"
| "segment_call clr (M_NullBridgeObjectsWeakRefs len unreachableObjectHandles) h = (VVoid, NullBridgeObjectsWeakRefs clr len unreachableObjectHandles h)"

section \<open>All of them\<close>

datatype 'p heap_call =
    Hosting "'p hosting_method"
  | Bcl "'p bcl_method"
  | State "'p state_method"
  | Diag "'p diag_method"
  | Segment "'p segment_method"

primrec heap_call_exec ::
  "'w::len word clr_interface \<Rightarrow> 'w word heap_call \<Rightarrow> 'w word gc_heap \<Rightarrow>
   'w word heap_value \<times> 'w word gc_heap" where
  "heap_call_exec clr (Hosting q) h = hosting_call clr q h"
| "heap_call_exec clr (Bcl q) h = bcl_call clr q h"
| "heap_call_exec clr (State q) h = state_call clr q h"
| "heap_call_exec clr (Diag q) h = diag_call clr q h"
| "heap_call_exec clr (Segment q) h = segment_call clr q h"

text \<open>What the runtime may know of the answers, in the words of a collector that never collects.
  Hosting: no segment size is valid, nothing runs concurrently, nothing waits to be
  finalized.\<close>

definition hosting_answer :: "'p::zero hosting_method \<Rightarrow> 'p heap_value" where
  "hosting_answer c =
     (case c of
        M_GetValidSegmentSize _ \<Rightarrow> VSize 0
      | M_GetNumberOfFinalizable \<Rightarrow> VSize 0
      | M_GetNextFinalizable \<Rightarrow> VPtr 0
      | M_WaitUntilConcurrentGCCompleteAsync _ \<Rightarrow> VU32 0x80004001
      | M_SetReservedVMLimit _ \<Rightarrow> VVoid
      | M_WaitUntilConcurrentGCComplete \<Rightarrow> VVoid
      | M_TemporaryEnableConcurrentGC \<Rightarrow> VVoid
      | M_TemporaryDisableConcurrentGC \<Rightarrow> VVoid
      | _ \<Rightarrow> VBool False)"

text \<open>The class library: the totals report what was served, every object is in generation 0 of
  2 and counts as registered, a requested collection succeeds, no full collection is ever
  approached.\<close>

definition bcl_answer ::
  "'w::len word clr_interface \<Rightarrow> 64 word \<Rightarrow> 'w word bcl_method \<Rightarrow> 'w word heap_value" where
  "bcl_answer clr n c =
     (case c of
        M_GetTotalAllocatedBytes \<Rightarrow> VU64 n
      | M_GetTotalBytesInUse \<Rightarrow> VSize (ucast n)
      | M_GetMemoryLoad \<Rightarrow> VU32 0
      | M_WhichGeneration _ \<Rightarrow> VU32 0
      | M_GetMaxGeneration \<Rightarrow> VU32 2
      | M_GarbageCollect _ _ _ \<Rightarrow> VU32 (noerror clr)
      | M_WaitForFullGCApproach _ \<Rightarrow> VInt (wait_full_gc_na clr)
      | M_WaitForFullGCComplete _ \<Rightarrow> VInt (wait_full_gc_na clr)
      | M_GetLastGCPercentTimeInGC \<Rightarrow> VInt 1
      | M_GetLastGCGenerationSize _ \<Rightarrow> VSize 1
      | M_RegisterForFullGCNotification _ _ \<Rightarrow> VBool False
      | M_CancelFullGCNotification \<Rightarrow> VBool False
      | M_RegisterForFinalization _ _ \<Rightarrow> VBool True
      | M_SetLOHCompactionMode _ \<Rightarrow> VVoid
      | M_SetFinalizationRun _ \<Rightarrow> VVoid
      | _ \<Rightarrow> VInt 0)"

text \<open>The state: every pointer but null is a heap pointer, every object is promoted, no collection
  is in progress or was ever run, no time passes.\<close>

definition state_answer ::
  "'w::len word clr_interface \<Rightarrow> 64 word \<Rightarrow> 'w word state_method \<Rightarrow> 'w word heap_value" where
  "state_answer clr n c =
     (case c of
        M_Initialize \<Rightarrow> VU32 (noerror clr)
      | M_IsPromoted _ \<Rightarrow> VBool True
      | M_RuntimeStructuresValid \<Rightarrow> VBool True
      | M_IsHeapPointer p _ \<Rightarrow> VBool (p \<noteq> 0)
      | M_IsGCInProgressHelper _ \<Rightarrow> VBool False
      | M_IsThreadUsingAllocationContextHeap _ _ \<Rightarrow> VBool False
      | M_IsEphemeral _ \<Rightarrow> VBool False
      | M_GetCondemnedGeneration \<Rightarrow> VU32 0
      | M_GetGcCount \<Rightarrow> VU32 0
      | M_WaitUntilGCComplete _ \<Rightarrow> VU32 0
      | M_GetCurrentObjSize \<Rightarrow> VSize (ucast n)
      | M_GetLastGCStartTime _ \<Rightarrow> VSize 0
      | M_GetLastGCDuration _ \<Rightarrow> VSize 0
      | M_GetNow \<Rightarrow> VSize 0
      | _ \<Rightarrow> VVoid)"

text \<open>Diagnostics and segments: no large objects, no neighbours, no walks, no frozen segment, no
  budget.\<close>

definition diag_answer :: "'p::zero diag_method \<Rightarrow> 'p heap_value" where
  "diag_answer c =
     (case c of
        M_IsLargeObject _ \<Rightarrow> VBool False
      | M_StressHeap _ \<Rightarrow> VBool False
      | M_NextObj _ \<Rightarrow> VPtr 0
      | M_GetContainingObject _ _ \<Rightarrow> VPtr 0
      | _ \<Rightarrow> VVoid)"

definition segment_answer ::
  "'w::len word clr_interface \<Rightarrow> 'w word segment_method \<Rightarrow> 'w word heap_value" where
  "segment_answer clr c =
     (case c of
        M_IsInFrozenSegment _ \<Rightarrow> VBool False
      | M_GetGenerationWithRange _ _ _ _ \<Rightarrow> VU32 0
      | M_GetTotalPauseDuration \<Rightarrow> VInt64 0
      | M_RefreshMemoryLimit \<Rightarrow> VInt 0
      | M_EnableNoGCRegionCallback _ _ \<Rightarrow> VInt (status_succeed clr)
      | M_GetExtraWorkForFinalization \<Rightarrow> VPtr 0
      | M_GetGenerationBudget _ \<Rightarrow> VU64 0
      | M_GetLOHThreshold \<Rightarrow> VSize (large_object_size clr)
      | _ \<Rightarrow> VVoid)"

primrec heap_answer ::
  "'w::len word clr_interface \<Rightarrow> 64 word \<Rightarrow> 'w word heap_call \<Rightarrow> 'w word heap_value" where
  "heap_answer clr n (Hosting c) = hosting_answer c"
| "heap_answer clr n (Bcl c) = bcl_answer clr n c"
| "heap_answer clr n (State c) = state_answer clr n c"
| "heap_answer clr n (Diag c) = diag_answer c"
| "heap_answer clr n (Segment c) = segment_answer clr c"

text \<open>The code gives these answers and changes nothing.\<close>

lemma hosting_call_answer: "hosting_call clr q h = (heap_answer clr (allocatedBytes h) (Hosting q), h)"
  by (cases q) (simp_all add: hosting_answer_def
    E_NOTIMPL_def IsValidSegmentSize_def IsValidGen0MaxSize_def GetValidSegmentSize_def SetReservedVMLimit_def
    WaitUntilConcurrentGCComplete_def IsConcurrentGCInProgress_def TemporaryEnableConcurrentGC_def
    TemporaryDisableConcurrentGC_def IsConcurrentGCEnabled_def
    WaitUntilConcurrentGCCompleteAsync_def GetNumberOfFinalizable_def GetNextFinalizable_def)

lemma bcl_call_answer: "bcl_call clr q h = (heap_answer clr (allocatedBytes h) (Bcl q), h)"
  by (cases q) (simp_all add: bcl_answer_def
    GetMemoryLoad_def GetGcLatencyMode_def SetGcLatencyMode_def GetLOHCompactionMode_def
    SetLOHCompactionMode_def RegisterForFullGCNotification_def CancelFullGCNotification_def
    WaitForFullGCApproach_def WaitForFullGCComplete_def WhichGeneration_def CollectionCount_def
    StartNoGCRegion_def EndNoGCRegion_def GetTotalBytesInUse_def GetTotalAllocatedBytes_def
    GarbageCollect_def GetMaxGeneration_def SetFinalizationRun_def RegisterForFinalization_def
    GetLastGCPercentTimeInGC_def GetLastGCGenerationSize_def)

lemma state_call_answer: "state_call clr q h = (heap_answer clr (allocatedBytes h) (State q), h)"
  by (cases q) (simp_all add: state_answer_def
    heap_Initialize_def IsPromoted_def IsHeapPointer_def GetCondemnedGeneration_def
    IsGCInProgressHelper_def GetGcCount_def IsThreadUsingAllocationContextHeap_def IsEphemeral_def
    WaitUntilGCComplete_def FixAllocContext_def GetCurrentObjSize_def SetGCInProgress_def
    RuntimeStructuresValid_def SetSuspensionPending_def SetYieldProcessorScalingFactor_def
    heap_Shutdown_def GetLastGCStartTime_def GetLastGCDuration_def GetNow_def PublishObject_def
    SetWaitForGCEvent_def ResetWaitForGCEvent_def)

lemma diag_call_answer: "diag_call clr q h = (heap_answer clr (allocatedBytes h) (Diag q), h)"
  by (cases q) (simp_all add: diag_answer_def
    IsLargeObject_def ValidateObjectMember_def NextObj_def GetContainingObject_def
    DiagWalkObject_def DiagWalkObject2_def DiagWalkHeap_def DiagWalkSurvivorsWithType_def
    DiagWalkFinalizeQueue_def DiagScanFinalizeQueue_def DiagScanHandles_def
    DiagScanDependentHandles_def DiagDescrGenerations_def DiagTraceGCSegments_def
    DiagGetGCSettings_def StressHeap_def)

lemma segment_call_answer: "segment_call clr q h = (heap_answer clr (allocatedBytes h) (Segment q), h)"
  by (cases q) (simp_all add: segment_answer_def
    UnregisterFrozenSegment_def IsInFrozenSegment_def ControlEvents_def ControlPrivateEvents_def
    GetGenerationWithRange_def GetTotalPauseDuration_def EnumerateConfigurationValues_def
    UpdateFrozenSegment_def RefreshMemoryLimit_def EnableNoGCRegionCallback_def
    GetExtraWorkForFinalization_def GetGenerationBudget_def GetLOHThreshold_def
    DiagWalkHeapWithACHandling_def NullBridgeObjectsWeakRefs_def)

lemma heap_call_answer: "heap_call_exec clr c h = (heap_answer clr (allocatedBytes h) c, h)"
  by (cases c) (simp_all add: hosting_call_answer bcl_call_answer state_call_answer
      diag_call_answer segment_call_answer)

section \<open>The memory report\<close>

text \<open>The out parameters by their types, in the order of the stores.\<close>

definition outs_u64 :: "('p, 'p, 'p) memory_info \<Rightarrow> 'p list" where
  "outs_u64 out =
     [highMemLoadThresholdBytes out, totalAvailableMemoryBytes out, lastRecordedMemLoadBytes out,
      lastRecordedHeapSizeBytes out, lastRecordedFragmentationBytes out, totalCommittedBytes out,
      promotedBytes out, pinnedObjectCount out, finalizationPendingCount out, mi_index out,
      genInfoRaw out, pauseInfoRaw out]"

definition outs_u32 :: "('p, 'p, 'p) memory_info \<Rightarrow> 'p list" where
  "outs_u32 out = [mi_generation out, pauseTimePct out]"

definition outs_bool :: "('p, 'p, 'p) memory_info \<Rightarrow> 'p list" where
  "outs_bool out = [isCompaction out, isConcurrent out]"

text \<open>Every pointer is to a variable; and, for a caller that reads every variable back, to one of
  its own.\<close>

definition info_valid :: "('p, 'p, 'p) memory_info \<Rightarrow> 'p out_vars \<Rightarrow> bool" where
  "info_valid out s \<longleftrightarrow> set (outs_u64 out) \<subseteq> dom (u64_vars s) \<and>
     set (outs_u32 out) \<subseteq> dom (u32_vars s) \<and> set (outs_bool out) \<subseteq> dom (bool_vars s)"

definition info_distinct :: "('p, 'p, 'p) memory_info \<Rightarrow> bool" where
  "info_distinct out \<longleftrightarrow> distinct (outs_u64 out) \<and> distinct (outs_u32 out) \<and> distinct (outs_bool out)"

text \<open>The report of a collector that never collects: all that was served is in use and
  committed, and nothing ever happened to it.\<close>

definition memory_report :: "64 word \<Rightarrow> (64 word, 32 word, bool) memory_info" where
  "memory_report n =
     \<lparr>highMemLoadThresholdBytes = 0, totalAvailableMemoryBytes = 0,
      lastRecordedMemLoadBytes = 0, lastRecordedHeapSizeBytes = n,
      lastRecordedFragmentationBytes = 0, totalCommittedBytes = n,
      promotedBytes = 0, pinnedObjectCount = 0, finalizationPendingCount = 0,
      mi_index = 0, mi_generation = 0, pauseTimePct = 0,
      isCompaction = False, isConcurrent = False, genInfoRaw = 0, pauseInfoRaw = 0\<rparr>"

text \<open>The values of the report are those the variables hold.\<close>

definition info_holds ::
  "('p, 'p, 'p) memory_info \<Rightarrow> (64 word, 32 word, bool) memory_info \<Rightarrow> 'p out_vars \<Rightarrow> bool" where
  "info_holds out v s \<longleftrightarrow>
     map (u64_vars s) (outs_u64 out) = map Some
       [highMemLoadThresholdBytes v, totalAvailableMemoryBytes v, lastRecordedMemLoadBytes v,
        lastRecordedHeapSizeBytes v, lastRecordedFragmentationBytes v, totalCommittedBytes v,
        promotedBytes v, pinnedObjectCount v, finalizationPendingCount v, mi_index v,
        genInfoRaw v, pauseInfoRaw v] \<and>
     map (u32_vars s) (outs_u32 out) = map Some [mi_generation v, pauseTimePct v] \<and>
     map (bool_vars s) (outs_bool out) = map Some [isCompaction v, isConcurrent v]"

lemma put_valid:
  "p \<in> dom (u64_vars s) \<Longrightarrow> put_u64 p v s = Some (s\<lparr>u64_vars := (u64_vars s)(p \<mapsto> v)\<rparr>)"
  "q \<in> dom (u32_vars s) \<Longrightarrow> put_u32 q w s = Some (s\<lparr>u32_vars := (u32_vars s)(q \<mapsto> w)\<rparr>)"
  "r \<in> dom (bool_vars s) \<Longrightarrow> put_bool r b s = Some (s\<lparr>bool_vars := (bool_vars s)(r \<mapsto> b)\<rparr>)"
  by (auto simp: put_u64_def put_u32_def put_bool_def)

text \<open>The stores in one update; they come in the order of the code, so that of two pointers to one
  variable the later wins.\<close>

lemma GetMemoryInfo_eq:
  assumes "info_valid out s"
  shows "GetMemoryInfo out kind h s = Some
    \<lparr>u64_vars = (u64_vars s)(outs_u64 out [\<mapsto>] [0, 0, 0, allocatedBytes h, 0, allocatedBytes h, 0, 0, 0, 0, 0, 0]),
     u32_vars = (u32_vars s)(outs_u32 out [\<mapsto>] [0, 0]),
     bool_vars = (bool_vars s)(outs_bool out [\<mapsto>] [False, False])\<rparr>"
  using assms
  by (simp add: GetMemoryInfo_def info_valid_def outs_u64_def outs_u32_def outs_bool_def put_valid)

lemma GetMemoryInfo_reports:
  assumes "info_valid out s" and "info_distinct out"
  shows "\<exists>s'. GetMemoryInfo out kind h s = Some s' \<and> info_valid out s' \<and>
    info_holds out (memory_report (allocatedBytes h)) s'"
proof -
  have d: "distinct (outs_u64 out)" "distinct (outs_u32 out)" "distinct (outs_bool out)"
    using assms(2) by (simp_all add: info_distinct_def)
  show ?thesis
    using assms(1) d unfolding GetMemoryInfo_eq [OF assms(1)]
    by (simp add: info_holds_def memory_report_def info_valid_def outs_u64_def outs_u32_def outs_bool_def)
qed

end
