(* ===== verification/Heap_Run.thy ===== *)
theory Heap_Run
  imports Heap_API
begin

text \<open>
  A run of \<open>uGCHeap\<close>: calls of its methods in any order, with the runtime, the mutator and
  new threads between them. Beside the object and memory the state keeps, as ghosts, the bytes
  that \<open>Alloc\<close> has served and the segment handles returned so far, newest first.
\<close>

record 'p gc_run =
  heap :: "'p gc_heap"
  wld :: "('p cmem, 'p) world"
  served_bytes :: nat
  segs :: "'p list"

inductive gc_step ::
  "'w::len word clr_interface \<Rightarrow> 'w word gc_run \<Rightarrow> 'w word gc_run \<Rightarrow> bool" for clr where
  alloc: "acontext = 0 \<or> ctx_ptrs clr acontext \<in> set (ctxs (wld g)) \<Longrightarrow>
    Alloc clr acontext sz flags (heap g) (mem (wld g)) = Some (r, h', m') \<Longrightarrow>
    gc_step clr g
      (g\<lparr>heap := h',
         wld := (wld g)\<lparr>mem := m',
           objs := (if r = 0 then objs (wld g) else (r, unat sz) # objs (wld g))\<rparr>,
         served_bytes := served_bytes g + (if r = 0 then 0 else unat sz)\<rparr>)"
| register: "RegisterFrozenSegment pseginfo (heap g) = Some (sg, h') \<Longrightarrow>
    gc_step clr g (g\<lparr>heap := h', segs := sg # segs g\<rparr>)"
| hosting: "hosting_call clr q (heap g) = (v, h') \<Longrightarrow> gc_step clr g (g\<lparr>heap := h'\<rparr>)"
| bcl: "bcl_call clr b (heap g) = (v, h') \<Longrightarrow> gc_step clr g (g\<lparr>heap := h'\<rparr>)"
| state: "state_call clr st (heap g) = (v, h') \<Longrightarrow> gc_step clr g (g\<lparr>heap := h'\<rparr>)"
| diag: "diag_call clr d (heap g) = (v, h') \<Longrightarrow> gc_step clr g (g\<lparr>heap := h'\<rparr>)"
| segment: "segment_call clr sm (heap g) = (v, h') \<Longrightarrow> gc_step clr g (g\<lparr>heap := h'\<rparr>)"
| runtime: "env_step ObjectGap (wld g) w' \<Longrightarrow> gc_step clr g (g\<lparr>wld := w'\<rparr>)"

definition gc_start :: "'w::len word gc_run \<Rightarrow> bool" where
  "gc_start g \<longleftrightarrow> registeredSegments (heap g) = 0 \<and> allocatedBytes (heap g) = 0 \<and> world_start (wld g) \<and>
     served_bytes g = 0 \<and> segs g = []"

inductive gc_reach :: "'w::len word clr_interface \<Rightarrow> 'w word gc_run \<Rightarrow> bool" for clr where
  start: "gc_start g \<Longrightarrow> gc_reach clr g"
| step: "gc_reach clr g \<Longrightarrow> gc_step clr g g' \<Longrightarrow> gc_reach clr g'"

section \<open>Only two methods write the object\<close>

lemma hosting_call_heap: "snd (hosting_call clr q h) = h"
  by (simp add: hosting_call_answer)

lemma bcl_call_heap: "snd (bcl_call clr q h) = h"
  by (simp add: bcl_call_answer)

lemma state_call_heap: "snd (state_call clr q h) = h"
  by (simp add: state_call_answer)

lemma diag_call_heap: "snd (diag_call clr q h) = h"
  by (simp add: diag_call_answer)

lemma segment_call_heap: "snd (segment_call clr q h) = h"
  by (simp add: segment_call_answer)

lemmas call_heap =
  hosting_call_heap bcl_call_heap state_call_heap diag_call_heap segment_call_heap

section \<open>The invariant of a run\<close>

text \<open>The handles of the first \<open>n\<close> registrations, newest first.\<close>

fun seg_handles :: "nat \<Rightarrow> 'w::len word list" where
  "seg_handles 0 = []"
| "seg_handles (Suc n) = word_of_int (int (Suc n)) # seg_handles n"

definition gc_inv :: "'w::len word gc_run \<Rightarrow> bool" where
  "gc_inv g \<longleftrightarrow> world_inv ObjectGap (wld g) \<and>
     allocatedBytes (heap g) = of_nat (served_bytes g) \<and>
     (\<exists>n. n < 2 ^ 31 \<and> registeredSegments (heap g) = int n \<and> segs g = seg_handles n)"

lemma gc_start_inv: "gc_start g \<Longrightarrow> gc_inv g"
  by (auto simp: gc_start_def gc_inv_def new_uGCHeap_def world_start_def world_inv_def ctxs_ok_def
      intro!: exI [of _ 0])

lemma register_result:
  "RegisterFrozenSegment p h = Some (sg, h') \<Longrightarrow>
     sg = word_of_int (registeredSegments h + 1) \<and> registeredSegments h + 1 < 2 ^ 31 \<and>
     h' = h\<lparr>registeredSegments := registeredSegments h + 1\<rparr>"
  by (auto simp: RegisterFrozenSegment_def bind_eq_Some_conv c_simps)

lemma ucast_of_nat_unat: "(ucast (x :: 'w::len word) :: 'v::len word) = of_nat (unat x)"
  by simp

lemma Alloc_allocatedBytes:
  assumes "Alloc clr acontext sz flags h m = Some (r, h', m')"
  shows "allocatedBytes h' = allocatedBytes h + of_nat (if r = 0 then 0 else unat sz)"
    and "registeredSegments h' = registeredSegments h"
  using assms by (cases rule: Alloc_cases; simp)+

lemma gc_step_inv:
  fixes g g' :: "'w::len word gc_run"
  assumes t: "rv_target TYPE('w)" and step: "gc_step clr g g'" and inv: "gc_inv g"
  shows "gc_inv g'"
  using step
proof cases
  case (alloc acontext sz flags r h' m')
  have w: "world_inv ObjectGap (wld g)" using inv by (simp add: gc_inv_def)
  from Alloc_world_inv [OF t w alloc(2,3)] Alloc_allocatedBytes [OF alloc(3)] inv alloc(1)
  show ?thesis by (auto simp: gc_inv_def)
next
  case (register pseginfo sg h')
  obtain n where n: "registeredSegments (heap g) = int n" "segs g = seg_handles n"
    using inv by (auto simp: gc_inv_def)
  have "Suc n < 2 ^ 31 \<and> registeredSegments h' = int (Suc n) \<and> sg # segs g = seg_handles (Suc n)"
    using register_result [OF register(2)] n by (auto simp: add.commute)
  then have "\<exists>k < 2 ^ 31. registeredSegments h' = int k \<and> sg # segs g = seg_handles k" by blast
  moreover have "allocatedBytes h' = allocatedBytes (heap g)"
    using register_result [OF register(2)] by simp
  ultimately show ?thesis using inv unfolding gc_inv_def register(1) by simp
next
  case (runtime w')
  then show ?thesis using inv env_step_inv [of ObjectGap "wld g" w'] by (simp add: gc_inv_def)
next
  case (hosting q v h')
  then show ?thesis using inv hosting_call_heap [of clr q "heap g"] by (simp add: gc_inv_def)
next
  case (bcl q v h')
  then show ?thesis using inv bcl_call_heap [of clr q "heap g"] by (simp add: gc_inv_def)
next
  case (state q v h')
  then show ?thesis using inv state_call_heap [of clr q "heap g"] by (simp add: gc_inv_def)
next
  case (diag q v h')
  then show ?thesis using inv diag_call_heap [of clr q "heap g"] by (simp add: gc_inv_def)
next
  case (segment q v h')
  then show ?thesis using inv segment_call_heap [of clr q "heap g"] by (simp add: gc_inv_def)
qed

lemma gc_reach_inv:
  assumes "rv_target TYPE('w::len)" and "gc_reach clr (g :: 'w word gc_run)"
  shows "gc_inv g"
  using assms(2)
  by induction (auto intro: gc_start_inv gc_step_inv [OF assms(1)])

section \<open>Segment handles\<close>

lemma seg_handles_iff:
  "sg \<in> set (seg_handles n) \<longleftrightarrow> (\<exists>k. 0 < k \<and> k \<le> n \<and> sg = of_nat k)"
  by (induction n) (auto simp: le_Suc_eq)

lemma seg_handles_good:
  assumes "rv_target TYPE('w::len)" and "n < 2 ^ 31"
  shows "distinct (seg_handles n :: 'w word list) \<and> 0 \<notin> set (seg_handles n :: 'w word list)"
  using assms(2)
proof (induction n)
  case 0
  then show ?case by simp
next
  case (Suc n)
  have u: "unat (of_nat k :: 'w word) = k" if "k \<le> Suc n" for k
    using that Suc.prems by (intro unat_of_small assms(1)) simp
  have "(of_nat (Suc n) :: 'w word) \<noteq> of_nat k" if "k \<le> n" for k
    using u [of k] u [of "Suc n"] that by (metis Suc_n_not_le_n le_SucI order_refl)
  moreover have "(of_nat (Suc n) :: 'w word) \<noteq> 0"
    using u [of "Suc n"] by (metis nat.distinct(1) order_refl unat_0)
  ultimately show ?case using Suc by (auto simp: seg_handles_iff)
qed

section \<open>Alloc in a run\<close>

text \<open>The invariant of the world gives the precondition of the core's contract for every known
  context.\<close>

lemma world_inv_requires:
  fixes s :: "('w::len, 'm) mworld"
  assumes inv: "world_inv hdr s" and h: "1 \<le> unat hdr" "unat hdr \<le> 32768"
    and c: "pp = 0 \<or> (pp, lp) \<in> set (ctxs s)"
  shows "core_alloc_requires (mem s) pp lp hdr"
proof (cases "pp = 0")
  case True
  with h show ?thesis by (simp add: core_alloc_requires_def)
next
  case False
  with c have c': "(pp, lp) \<in> set (ctxs s)" by simp
  then obtain p l where pl: "cells (mem s) pp = Some p" "cells (mem s) lp = Some l" and ne: "pp \<noteq> lp"
    using inv by (fastforce simp: world_inv_def ctxs_ok_def)
  have "context_window (mem s) p l" if "p \<noteq> 0"
  proof -
    have "window (mem s) (pp, lp) = Some (p, l)" using pl that by (simp add: window_Some_iff)
    note W = world_inv_window(1) [OF inv c' this]
    have "inside (span p (unat l - unat p)) (win_span hdr (p, l))"
      using W by (simp add: window_ok_def win_span_def inside_def)
    with W have "in_block (mem s) (span p (unat l - unat p))"
      by (auto simp: window_ok_def elim: in_block_inside)
    with W show ?thesis
      by (auto simp: window_ok_def context_window_def valid_bytes_def in_block_def)
  qed
  with pl ne h show ?thesis by (auto simp: core_alloc_requires_def)
qed

lemma world_inv_Alloc_args:
  fixes w :: "('w::len, 'm) mworld"
  assumes t: "rv_target TYPE('w)" and inv: "world_inv ObjectGap w"
    and c: "acontext = 0 \<or> ctx_ptrs clr acontext \<in> set (ctxs w) \<and>
      i64s (mem w) (alloc_counter clr acontext flags) = Some x \<and>
      c_int64 (x + int64_of_size sz) \<noteq> None"
  shows "alloc_args_ok clr acontext sz flags (mem w)"
proof -
  have "fst (ctx_ptrs clr acontext) = 0 \<or>
      (fst (ctx_ptrs clr acontext), snd (ctx_ptrs clr acontext)) \<in> set (ctxs w)"
    using c by (auto simp: ctx_ptrs_def)
  with world_inv_requires [OF inv] ObjectGap_unat [OF t] c show ?thesis
    by (auto simp: alloc_args_ok_def)
qed

lemma gc_reach_Alloc_args:
  fixes g :: "'w::len word gc_run"
  assumes t: "rv_target TYPE('w)" and r: "gc_reach clr g"
    and c: "acontext = 0 \<or> ctx_ptrs clr acontext \<in> set (ctxs (wld g)) \<and>
      i64s (mem (wld g)) (alloc_counter clr acontext flags) = Some x \<and>
      c_int64 (x + int64_of_size sz) \<noteq> None"
  shows "alloc_args_ok clr acontext sz flags (mem (wld g))"
  using gc_reach_inv [OF t r] world_inv_Alloc_args [OF t _ c] by (simp add: gc_inv_def)

end
