(* ===== verification/Handle_Store.thy ===== *)
theory Handle_Store
  imports CMemory
begin

text \<open>
  The handle half of \<open>ugc/core/ugc_core.c\<close>: the seven globals and every function on them.
  A handle is the address of a slot of \<open>ugc_handles\<close>; parallel arrays hold the type, the
  extra info and the dependent secondary of the slot, and destroyed slots wait on a LIFO
  stack. The addresses of the two arrays whose elements the code takes the address of are the
  linker's choice, and a parameter \<open>layout\<close> of the model.
\<close>

section \<open>State\<close>

definition UGC_HANDLE_COUNT :: nat where
  "UGC_HANDLE_COUNT = 65535"

definition UGC_HANDLE_TYPE_FREE :: int where
  "UGC_HANDLE_TYPE_FREE = -1"

record 'p gstate = "'p cmem" +
  ugc_handle_count :: int
  ugc_handle_free_count :: int
  ugc_handles :: "'p carray"
  ugc_handle_types :: "int carray"
  ugc_handle_extra :: "'p carray"
  ugc_handle_dependent :: "'p carray"
  ugc_handle_free_stack :: "int carray"

record 'p layout =
  addr_handles :: 'p
  addr_dependent :: 'p

text \<open>\<open>&a[i]\<close> for an array of pointers at \<open>base\<close>.\<close>

definition elem_addr :: "'w::len word \<Rightarrow> nat \<Rightarrow> 'w word" where
  "elem_addr base i = base + of_nat (i * ptr_bytes TYPE('w))"

text \<open>The static initialisers: every global starts zeroed.\<close>

definition globals_init :: "'w::len word cmem \<Rightarrow> 'w word gstate" where
  "globals_init m = cmem.extend m
     \<lparr>ugc_handle_count = 0, ugc_handle_free_count = 0, ugc_handles = (\<lambda>_. 0),
      ugc_handle_types = (\<lambda>_. 0), ugc_handle_extra = (\<lambda>_. 0),
      ugc_handle_dependent = (\<lambda>_. 0), ugc_handle_free_stack = (\<lambda>_. 0)\<rparr>"

section \<open>The code\<close>

text \<open>Assignments to one element of each array.\<close>

definition set_handle :: "int \<Rightarrow> 'w::len word \<Rightarrow> 'w word gstate \<Rightarrow> 'w word gstate option" where
  "set_handle i v s =
     do { a \<leftarrow> awr UGC_HANDLE_COUNT (ugc_handles s) i v; Some (s\<lparr>ugc_handles := a\<rparr>) }"

definition set_htype :: "int \<Rightarrow> int \<Rightarrow> 'w::len word gstate \<Rightarrow> 'w word gstate option" where
  "set_htype i v s =
     do { a \<leftarrow> awr UGC_HANDLE_COUNT (ugc_handle_types s) i v; Some (s\<lparr>ugc_handle_types := a\<rparr>) }"

definition set_hextra :: "int \<Rightarrow> 'w::len word \<Rightarrow> 'w word gstate \<Rightarrow> 'w word gstate option" where
  "set_hextra i v s =
     do { a \<leftarrow> awr UGC_HANDLE_COUNT (ugc_handle_extra s) i v; Some (s\<lparr>ugc_handle_extra := a\<rparr>) }"

definition set_hdependent :: "int \<Rightarrow> 'w::len word \<Rightarrow> 'w word gstate \<Rightarrow> 'w word gstate option" where
  "set_hdependent i v s =
     do { a \<leftarrow> awr UGC_HANDLE_COUNT (ugc_handle_dependent s) i v;
          Some (s\<lparr>ugc_handle_dependent := a\<rparr>) }"

definition set_free_stack :: "int \<Rightarrow> int \<Rightarrow> 'w::len word gstate \<Rightarrow> 'w word gstate option" where
  "set_free_stack i v s =
     do { a \<leftarrow> awr UGC_HANDLE_COUNT (ugc_handle_free_stack s) i v;
          Some (s\<lparr>ugc_handle_free_stack := a\<rparr>) }"

definition ugc_handle_slot_acquire ::
  "'w::len word gstate \<Rightarrow> (int \<times> 'w word gstate) option" where
  "ugc_handle_slot_acquire s =
     (if ugc_handle_free_count s > 0 then do {
        k \<leftarrow> c_int (ugc_handle_free_count s - 1);
        idx \<leftarrow> ard UGC_HANDLE_COUNT (ugc_handle_free_stack s) k;
        Some (idx, s\<lparr>ugc_handle_free_count := k\<rparr>)
      }
      else if ugc_handle_count s < int UGC_HANDLE_COUNT then do {
        c \<leftarrow> c_int (ugc_handle_count s + 1);
        Some (ugc_handle_count s, s\<lparr>ugc_handle_count := c\<rparr>)
      }
      else Some (- 1, s))"

definition ugc_handle_create ::
  "'w::len word layout \<Rightarrow> 'w word \<Rightarrow> int \<Rightarrow> 'w word gstate \<Rightarrow>
   ('w word \<times> 'w word gstate) option" where
  "ugc_handle_create lay object type s =
     do {
       (idx, s) \<leftarrow> ugc_handle_slot_acquire s;
       if idx < 0 then Some (0, s)
       else do {
         s \<leftarrow> set_handle idx object s;
         s \<leftarrow> set_htype idx type s;
         s \<leftarrow> set_hextra idx 0 s;
         s \<leftarrow> set_hdependent idx 0 s;
         Some (elem_addr (addr_handles lay) (nat idx), s)
       }
     }"

definition ugc_handle_create_with_extra ::
  "'w::len word layout \<Rightarrow> 'w word \<Rightarrow> int \<Rightarrow> 'w word \<Rightarrow> 'w word gstate \<Rightarrow>
   ('w word \<times> 'w word gstate) option" where
  "ugc_handle_create_with_extra lay object type extra s =
     do {
       (idx, s) \<leftarrow> ugc_handle_slot_acquire s;
       if idx < 0 then Some (0, s)
       else do {
         s \<leftarrow> set_handle idx object s;
         s \<leftarrow> set_htype idx type s;
         s \<leftarrow> set_hextra idx extra s;
         s \<leftarrow> set_hdependent idx 0 s;
         Some (elem_addr (addr_handles lay) (nat idx), s)
       }
     }"

definition ugc_handle_create_dependent ::
  "'w::len word layout \<Rightarrow> 'w word \<Rightarrow> 'w word \<Rightarrow> int \<Rightarrow> 'w word gstate \<Rightarrow>
   ('w word \<times> 'w word gstate) option" where
  "ugc_handle_create_dependent lay primary secondary type s =
     do {
       (idx, s) \<leftarrow> ugc_handle_slot_acquire s;
       if idx < 0 then Some (0, s)
       else do {
         s \<leftarrow> set_handle idx primary s;
         s \<leftarrow> set_htype idx type s;
         s \<leftarrow> set_hextra idx 0 s;
         s \<leftarrow> set_hdependent idx secondary s;
         Some (elem_addr (addr_handles lay) (nat idx), s)
       }
     }"

definition ugc_handle_destroy_at ::
  "'w::len word \<Rightarrow> 'w word gstate \<Rightarrow> 'w word gstate option" where
  "ugc_handle_destroy_at idx s =
     do {
       t \<leftarrow> ard UGC_HANDLE_COUNT (ugc_handle_types s) (uint idx);
       if t < 0 \<or> ugc_handle_free_count s = int UGC_HANDLE_COUNT then Some s
       else do {
         s \<leftarrow> set_handle (uint idx) 0 s;
         s \<leftarrow> set_htype (uint idx) UGC_HANDLE_TYPE_FREE s;
         s \<leftarrow> set_hextra (uint idx) 0 s;
         s \<leftarrow> set_hdependent (uint idx) 0 s;
         s \<leftarrow> set_free_stack (ugc_handle_free_count s) (int_of_size idx) s;
         k \<leftarrow> c_int (ugc_handle_free_count s + 1);
         Some (s\<lparr>ugc_handle_free_count := k\<rparr>)
       }
     }"

definition ugc_handle_set_dependent_at ::
  "'w::len word \<Rightarrow> 'w word \<Rightarrow> 'w word gstate \<Rightarrow> 'w word gstate option" where
  "ugc_handle_set_dependent_at idx secondary s = set_hdependent (uint idx) secondary s"

definition ugc_handle_get_type_at :: "'w::len word \<Rightarrow> 'w word gstate \<Rightarrow> int option" where
  "ugc_handle_get_type_at idx s = ard UGC_HANDLE_COUNT (ugc_handle_types s) (uint idx)"

definition ugc_handle_set_type_at ::
  "'w::len word \<Rightarrow> int \<Rightarrow> 'w word gstate \<Rightarrow> 'w word gstate option" where
  "ugc_handle_set_type_at idx type s = set_htype (uint idx) type s"

definition ugc_handle_get_extra_at :: "'w::len word \<Rightarrow> 'w word gstate \<Rightarrow> 'w word option" where
  "ugc_handle_get_extra_at idx s = ard UGC_HANDLE_COUNT (ugc_handle_extra s) (uint idx)"

definition ugc_handle_set_extra_at ::
  "'w::len word \<Rightarrow> 'w word \<Rightarrow> 'w word gstate \<Rightarrow> 'w word gstate option" where
  "ugc_handle_set_extra_at idx extra s = set_hextra (uint idx) extra s"

text \<open>The loop of \<open>ugc_handle_store_reset\<close>, from \<open>i\<close> on; each round writes the five
  arrays, and \<open>i++\<close> stays an \<open>int\<close>.\<close>

function reset_loop :: "int \<Rightarrow> 'w::len word gstate \<Rightarrow> 'w word gstate option" where
  "reset_loop i s =
     (if i < int UGC_HANDLE_COUNT then do {
        s \<leftarrow> set_handle i 0 s;
        s \<leftarrow> set_htype i 0 s;
        s \<leftarrow> set_hextra i 0 s;
        s \<leftarrow> set_hdependent i 0 s;
        s \<leftarrow> set_free_stack i 0 s;
        j \<leftarrow> c_int (i + 1);
        reset_loop j s
      }
      else Some s)"
  by pat_completeness auto
termination
  by (relation "measure (\<lambda>(i, s). nat (int UGC_HANDLE_COUNT - i))") (auto simp: c_simps)

declare reset_loop.simps [simp del]

definition ugc_handle_store_reset :: "'w::len word gstate \<Rightarrow> 'w word gstate option" where
  "ugc_handle_store_reset s =
     do { s \<leftarrow> reset_loop 0 s; Some (s\<lparr>ugc_handle_count := 0, ugc_handle_free_count := 0\<rparr>) }"

section \<open>The ACSL predicates and the store invariant\<close>

definition ugc_store_consistent :: "'w::len word gstate \<Rightarrow> bool" where
  "ugc_store_consistent s \<longleftrightarrow>
     0 \<le> ugc_handle_count s \<and> ugc_handle_count s \<le> int UGC_HANDLE_COUNT \<and>
     0 \<le> ugc_handle_free_count s \<and> ugc_handle_free_count s \<le> int UGC_HANDLE_COUNT \<and>
     (\<forall>k < nat (ugc_handle_free_count s).
        0 \<le> ugc_handle_free_stack s k \<and> ugc_handle_free_stack s k < ugc_handle_count s)"

definition ugc_valid_slot :: "'w::len word layout \<Rightarrow> 'w word \<Rightarrow> bool" where
  "ugc_valid_slot lay h \<longleftrightarrow> (\<exists>i < UGC_HANDLE_COUNT. h = elem_addr (addr_handles lay) i)"

text \<open>
  The contract's predicate is not enough to rule out two handles for one slot. The invariant
  adds what the code relies on: the stack holds no index twice, and among the slots ever
  taken exactly those on the stack carry a negative type.
\<close>

definition free_slots :: "'w::len word gstate \<Rightarrow> nat list" where
  "free_slots s = map (\<lambda>k. nat (ugc_handle_free_stack s k)) [0..<nat (ugc_handle_free_count s)]"

definition store_inv :: "'w::len word gstate \<Rightarrow> bool" where
  "store_inv s \<longleftrightarrow> ugc_store_consistent s \<and> distinct (free_slots s) \<and>
     (\<forall>i < nat (ugc_handle_count s). ugc_handle_types s i < 0 \<longleftrightarrow> i \<in> set (free_slots s))"

definition live_slots :: "'w::len word gstate \<Rightarrow> nat set" where
  "live_slots s = {i. i < nat (ugc_handle_count s) \<and> 0 \<le> ugc_handle_types s i}"

section \<open>Setters in range\<close>

lemma set_in_range [simp]:
  assumes "0 \<le> i" and "i < int UGC_HANDLE_COUNT"
  shows "set_handle i v s = Some (s\<lparr>ugc_handles := (ugc_handles s)(nat i := v)\<rparr>)"
    and "set_htype i t s = Some (s\<lparr>ugc_handle_types := (ugc_handle_types s)(nat i := t)\<rparr>)"
    and "set_hextra i v s = Some (s\<lparr>ugc_handle_extra := (ugc_handle_extra s)(nat i := v)\<rparr>)"
    and "set_hdependent i v s =
         Some (s\<lparr>ugc_handle_dependent := (ugc_handle_dependent s)(nat i := v)\<rparr>)"
    and "set_free_stack i t s =
         Some (s\<lparr>ugc_handle_free_stack := (ugc_handle_free_stack s)(nat i := t)\<rparr>)"
  using assms
  by (simp_all add: set_handle_def set_htype_def set_hextra_def set_hdependent_def
      set_free_stack_def)

section \<open>Taking a slot\<close>

lemma acquire_full:
  "ugc_handle_free_count s = 0 \<Longrightarrow> ugc_handle_count s = int UGC_HANDLE_COUNT \<Longrightarrow>
   ugc_handle_slot_acquire s = Some (- 1, s)"
  by (simp add: ugc_handle_slot_acquire_def)

lemma acquire_fresh:
  assumes "ugc_store_consistent s" and "ugc_handle_free_count s = 0"
    and "ugc_handle_count s < int UGC_HANDLE_COUNT"
  shows "ugc_handle_slot_acquire s =
         Some (ugc_handle_count s, s\<lparr>ugc_handle_count := ugc_handle_count s + 1\<rparr>)"
  using assms
  by (simp add: ugc_handle_slot_acquire_def ugc_store_consistent_def UGC_HANDLE_COUNT_def c_int_def)

lemma acquire_recycled:
  assumes "ugc_store_consistent s" and "ugc_handle_free_count s > 0"
  shows "ugc_handle_slot_acquire s =
         Some (ugc_handle_free_stack s (nat (ugc_handle_free_count s - 1)),
               s\<lparr>ugc_handle_free_count := ugc_handle_free_count s - 1\<rparr>)"
  using assms
  by (simp add: ugc_handle_slot_acquire_def ugc_store_consistent_def UGC_HANDLE_COUNT_def c_int_def)

text \<open>The three ways, as an elimination rule for a consistent store.\<close>

lemma store_cases:
  assumes "ugc_store_consistent s"
  obtains
    (full) "ugc_handle_free_count s = 0" "ugc_handle_count s = int UGC_HANDLE_COUNT"
  | (fresh) "ugc_handle_free_count s = 0" "ugc_handle_count s < int UGC_HANDLE_COUNT"
  | (recycled) "ugc_handle_free_count s > 0"
  using assms unfolding ugc_store_consistent_def by linarith

text \<open>The common form of the three creating functions.\<close>

definition create_slot ::
  "'w::len word layout \<Rightarrow> 'w word \<Rightarrow> int \<Rightarrow> 'w word \<Rightarrow> 'w word \<Rightarrow> 'w word gstate \<Rightarrow>
   ('w word \<times> 'w word gstate) option" where
  "create_slot lay object type extra dep s =
     do {
       (idx, s) \<leftarrow> ugc_handle_slot_acquire s;
       if idx < 0 then Some (0, s)
       else do {
         s \<leftarrow> set_handle idx object s;
         s \<leftarrow> set_htype idx type s;
         s \<leftarrow> set_hextra idx extra s;
         s \<leftarrow> set_hdependent idx dep s;
         Some (elem_addr (addr_handles lay) (nat idx), s)
       }
     }"

lemma create_is_slot:
  "ugc_handle_create lay object type = create_slot lay object type 0 0"
  "ugc_handle_create_with_extra lay object type extra = create_slot lay object type extra 0"
  "ugc_handle_create_dependent lay primary secondary type = create_slot lay primary type 0 secondary"
  by (rule ext, simp add: ugc_handle_create_def ugc_handle_create_with_extra_def
      ugc_handle_create_dependent_def create_slot_def)+

text \<open>The state after slot \<open>i\<close> is filled.\<close>

definition filled ::
  "nat \<Rightarrow> 'w::len word \<Rightarrow> int \<Rightarrow> 'w word \<Rightarrow> 'w word \<Rightarrow> 'w word gstate \<Rightarrow> 'w word gstate" where
  "filled i object type extra dep s =
     s\<lparr>ugc_handles := (ugc_handles s)(i := object),
       ugc_handle_types := (ugc_handle_types s)(i := type),
       ugc_handle_extra := (ugc_handle_extra s)(i := extra),
       ugc_handle_dependent := (ugc_handle_dependent s)(i := dep)\<rparr>"

lemma filled_sel [simp]:
  "ugc_handle_count (filled i ob t e d s) = ugc_handle_count s"
  "ugc_handle_free_count (filled i ob t e d s) = ugc_handle_free_count s"
  "ugc_handle_free_stack (filled i ob t e d s) = ugc_handle_free_stack s"
  "ugc_handles (filled i ob t e d s) = (ugc_handles s)(i := ob)"
  "ugc_handle_types (filled i ob t e d s) = (ugc_handle_types s)(i := t)"
  "ugc_handle_extra (filled i ob t e d s) = (ugc_handle_extra s)(i := e)"
  "ugc_handle_dependent (filled i ob t e d s) = (ugc_handle_dependent s)(i := d)"
  "blocks (filled i ob t e d s) = blocks s" "bytes (filled i ob t e d s) = bytes s"
  "cells (filled i ob t e d s) = cells s" "i64s (filled i ob t e d s) = i64s s"
  "placements (filled i ob t e d s) = placements s"
  by (simp_all add: filled_def)

lemma create_full:
  "ugc_handle_free_count s = 0 \<Longrightarrow> ugc_handle_count s = int UGC_HANDLE_COUNT \<Longrightarrow>
   create_slot lay object type extra dep s = Some (0, s)"
  by (simp add: create_slot_def acquire_full)

lemma create_fresh:
  assumes "ugc_store_consistent s" and "ugc_handle_free_count s = 0"
    and "ugc_handle_count s < int UGC_HANDLE_COUNT"
  shows "create_slot lay object type extra dep s =
         Some (elem_addr (addr_handles lay) (nat (ugc_handle_count s)),
               filled (nat (ugc_handle_count s)) object type extra dep
                 (s\<lparr>ugc_handle_count := ugc_handle_count s + 1\<rparr>))"
  using assms acquire_fresh [OF assms]
  by (simp add: create_slot_def filled_def ugc_store_consistent_def)

lemma create_recycled:
  assumes "ugc_store_consistent s" and "ugc_handle_free_count s > 0"
  defines "i \<equiv> nat (ugc_handle_free_stack s (nat (ugc_handle_free_count s - 1)))"
  shows "create_slot lay object type extra dep s =
         Some (elem_addr (addr_handles lay) i,
               filled i object type extra dep
                 (s\<lparr>ugc_handle_free_count := ugc_handle_free_count s - 1\<rparr>))"
    and "i < nat (ugc_handle_count s)"
proof -
  let ?t = "ugc_handle_free_stack s (nat (ugc_handle_free_count s - 1))"
  have "nat (ugc_handle_free_count s - 1) < nat (ugc_handle_free_count s)"
    using assms(2) by simp
  then have t: "0 \<le> ?t" "?t < ugc_handle_count s" "?t < int UGC_HANDLE_COUNT"
    using assms(1) unfolding ugc_store_consistent_def by fastforce+
  then show "create_slot lay object type extra dep s =
         Some (elem_addr (addr_handles lay) i,
               filled i object type extra dep
                 (s\<lparr>ugc_handle_free_count := ugc_handle_free_count s - 1\<rparr>))"
    using acquire_recycled [OF assms(1,2)] by (simp add: create_slot_def filled_def i_def)
  show "i < nat (ugc_handle_count s)" using t by (simp add: i_def)
qed

section \<open>Destroying a slot\<close>

lemma index_in_range:
  fixes idx :: "'w::len word"
  assumes "unat idx < UGC_HANDLE_COUNT"
  shows "uint idx < int UGC_HANDLE_COUNT" and "nat (uint idx) = unat idx"
    and "int_of_size idx = int (unat idx)"
proof -
  show "uint idx < int UGC_HANDLE_COUNT" using assms by (metis of_nat_less_iff of_nat_unat)
  show "nat (uint idx) = unat idx" by simp
  have "unat idx < 2 ^ 31" using assms by (simp add: UGC_HANDLE_COUNT_def)
  then show "int_of_size idx = int (unat idx)" by (rule int_of_size_small)
qed

definition destroyed :: "nat \<Rightarrow> 'w::len word gstate \<Rightarrow> 'w word gstate" where
  "destroyed i s =
     (filled i 0 UGC_HANDLE_TYPE_FREE 0 0 s)
       \<lparr>ugc_handle_free_stack :=
          (ugc_handle_free_stack s)(nat (ugc_handle_free_count s) := int i),
        ugc_handle_free_count := ugc_handle_free_count s + 1\<rparr>"

lemma destroyed_sel [simp]:
  "ugc_handle_count (destroyed i s) = ugc_handle_count s"
  "ugc_handle_free_count (destroyed i s) = ugc_handle_free_count s + 1"
  "ugc_handle_free_stack (destroyed i s) =
     (ugc_handle_free_stack s)(nat (ugc_handle_free_count s) := int i)"
  "ugc_handles (destroyed i s) = (ugc_handles s)(i := 0)"
  "ugc_handle_types (destroyed i s) = (ugc_handle_types s)(i := UGC_HANDLE_TYPE_FREE)"
  "ugc_handle_extra (destroyed i s) = (ugc_handle_extra s)(i := 0)"
  "ugc_handle_dependent (destroyed i s) = (ugc_handle_dependent s)(i := 0)"
  "blocks (destroyed i s) = blocks s" "bytes (destroyed i s) = bytes s"
  "cells (destroyed i s) = cells s" "i64s (destroyed i s) = i64s s"
  "placements (destroyed i s) = placements s"
  by (simp_all add: destroyed_def)

lemma destroy_noop:
  fixes idx :: "'w::len word"
  assumes "unat idx < UGC_HANDLE_COUNT"
    and "ugc_handle_types s (unat idx) < 0 \<or> ugc_handle_free_count s = int UGC_HANDLE_COUNT"
  shows "ugc_handle_destroy_at idx s = Some s"
  using assms index_in_range [OF assms(1)] by (auto simp: ugc_handle_destroy_at_def)

lemma destroy_frees:
  fixes idx :: "'w::len word"
  assumes "unat idx < UGC_HANDLE_COUNT" and "ugc_handle_types s (unat idx) \<ge> 0"
    and "0 \<le> ugc_handle_free_count s" and "ugc_handle_free_count s < int UGC_HANDLE_COUNT"
  shows "ugc_handle_destroy_at idx s = Some (destroyed (unat idx) s)"
proof -
  have "c_int (ugc_handle_free_count s + 1) = Some (ugc_handle_free_count s + 1)"
    using assms(3,4) by (simp add: c_int_def UGC_HANDLE_COUNT_def)
  then show ?thesis
    using assms(2-4) index_in_range [OF assms(1)]
    by (simp add: ugc_handle_destroy_at_def destroyed_def filled_def)
qed

section \<open>Resetting the store\<close>

text \<open>What the loop leaves: indices below \<open>i\<close> as they were, the others zeroed.\<close>

definition zero_from :: "int \<Rightarrow> 'a::zero carray \<Rightarrow> 'a carray" where
  "zero_from i a = (\<lambda>k. if i \<le> int k \<and> k < UGC_HANDLE_COUNT then 0 else a k)"

lemma zero_from_step:
  assumes "0 \<le> i" and "i < int UGC_HANDLE_COUNT"
  shows "zero_from (i + 1) (a(nat i := 0)) = zero_from i a"
  using assms by (auto simp: zero_from_def fun_eq_iff)

lemma zero_from_end: "int UGC_HANDLE_COUNT \<le> i \<Longrightarrow> zero_from i a = a"
  by (auto simp: zero_from_def fun_eq_iff)

lemma reset_loop_result:
  "0 \<le> i \<Longrightarrow> reset_loop i s = Some
     (s\<lparr>ugc_handles := zero_from i (ugc_handles s),
        ugc_handle_types := zero_from i (ugc_handle_types s),
        ugc_handle_extra := zero_from i (ugc_handle_extra s),
        ugc_handle_dependent := zero_from i (ugc_handle_dependent s),
        ugc_handle_free_stack := zero_from i (ugc_handle_free_stack s)\<rparr>)"
proof (induction i s rule: reset_loop.induct)
  case (1 i s)
  show ?case
  proof (cases "i < int UGC_HANDLE_COUNT")
    case True
    then have c: "c_int (i + 1) = Some (i + 1)"
      using 1(2) by (simp add: c_int_def UGC_HANDLE_COUNT_def)
    show ?thesis
      using 1 True c by (subst reset_loop.simps) (simp add: zero_from_step)
  next
    case False
    then show ?thesis by (subst reset_loop.simps) (simp add: zero_from_end)
  qed
qed

lemma store_reset_result:
  "ugc_handle_store_reset s = Some
     (s\<lparr>ugc_handles := zero_from 0 (ugc_handles s),
        ugc_handle_types := zero_from 0 (ugc_handle_types s),
        ugc_handle_extra := zero_from 0 (ugc_handle_extra s),
        ugc_handle_dependent := zero_from 0 (ugc_handle_dependent s),
        ugc_handle_free_stack := zero_from 0 (ugc_handle_free_stack s),
        ugc_handle_count := 0, ugc_handle_free_count := 0\<rparr>)"
  by (simp add: ugc_handle_store_reset_def reset_loop_result)

end
