(* ===== verification/Handle_Slots.thy ===== *)
theory Handle_Slots
  imports Handle_Store
begin

text \<open>
  Handles as addresses: the range test and the index computation of \<open>ugc_core.c\<close>, and the
  operations on the object slot a handle points to. A \<open>void **\<close> may point to an element of
  \<open>ugc_handles\<close>, to an element of \<open>ugc_handle_dependent\<close>, or to a pointer variable of a
  caller; loads and stores through it go to whichever object it points to, so aliasing
  between the pointer and the arrays is the code's.
\<close>

section \<open>The code\<close>

text \<open>\<open>sizeof(ugc_handles)\<close>.\<close>

definition array_bytes :: "'w::len itself \<Rightarrow> nat" where
  "array_bytes _ = UGC_HANDLE_COUNT * ptr_bytes TYPE('w)"

definition ugc_handle_store_contains :: "'w::len word layout \<Rightarrow> 'w word \<Rightarrow> bool" where
  "ugc_handle_store_contains lay hndl =
     (let handle = hndl;
          handleStart = addr_handles lay;
          handleEnd = handleStart + of_nat (array_bytes TYPE('w))
      in handle \<ge> handleStart \<and> handle < handleEnd)"

definition ugc_handle_index :: "'w::len word layout \<Rightarrow> 'w word \<Rightarrow> 'w word" where
  "ugc_handle_index lay hndl = (hndl - addr_handles lay) div of_nat (ptr_bytes TYPE('w))"

text \<open>\<open>&a[idx]\<close> is defined up to one past the last element.\<close>

definition ugc_handle_dependent_slot_at ::
  "'w::len word layout \<Rightarrow> 'w word \<Rightarrow> 'w word option" where
  "ugc_handle_dependent_slot_at lay idx =
     (if unat idx \<le> UGC_HANDLE_COUNT
      then Some (elem_addr (addr_dependent lay) (unat idx)) else None)"

text \<open>The element of a pointer array that an address is, if it is one.\<close>

definition slot_of :: "'w::len word \<Rightarrow> 'w word \<Rightarrow> nat option" where
  "slot_of base p =
     (let d = unat (p - base) in
      if d mod ptr_bytes TYPE('w) = 0 \<and> d div ptr_bytes TYPE('w) < UGC_HANDLE_COUNT
      then Some (d div ptr_bytes TYPE('w)) else None)"

text \<open>\<open>*slot\<close> as a value and as the target of an assignment.\<close>

definition load_slot ::
  "'w::len word layout \<Rightarrow> 'w word \<Rightarrow> 'w word gstate \<Rightarrow> 'w word option" where
  "load_slot lay p s =
     (if p = 0 then None
      else case slot_of (addr_handles lay) p of
        Some i \<Rightarrow> Some (ugc_handles s i)
      | None \<Rightarrow> (case slot_of (addr_dependent lay) p of
          Some i \<Rightarrow> Some (ugc_handle_dependent s i)
        | None \<Rightarrow> load_cell p s))"

definition save_slot ::
  "'w::len word layout \<Rightarrow> 'w word \<Rightarrow> 'w word \<Rightarrow> 'w word gstate \<Rightarrow> 'w word gstate option" where
  "save_slot lay p v s =
     (if p = 0 then None
      else case slot_of (addr_handles lay) p of
        Some i \<Rightarrow> Some (s\<lparr>ugc_handles := (ugc_handles s)(i := v)\<rparr>)
      | None \<Rightarrow> (case slot_of (addr_dependent lay) p of
          Some i \<Rightarrow> Some (s\<lparr>ugc_handle_dependent := (ugc_handle_dependent s)(i := v)\<rparr>)
        | None \<Rightarrow> store_cell p v s))"

definition ugc_handle_slot_store ::
  "'w::len word layout \<Rightarrow> 'w word \<Rightarrow> 'w word \<Rightarrow> 'w word gstate \<Rightarrow> 'w word gstate option" where
  "ugc_handle_slot_store lay slot object s = save_slot lay slot object s"

definition ugc_handle_slot_store_if_null ::
  "'w::len word layout \<Rightarrow> 'w word \<Rightarrow> 'w word \<Rightarrow> 'w word gstate \<Rightarrow>
   (bool \<times> 'w word gstate) option" where
  "ugc_handle_slot_store_if_null lay slot object s =
     do {
       v \<leftarrow> load_slot lay slot s;
       if v = 0 then do { s \<leftarrow> save_slot lay slot object s; Some (True, s) }
       else Some (False, s)
     }"

definition ugc_handle_slot_cas ::
  "'w::len word layout \<Rightarrow> 'w word \<Rightarrow> 'w word \<Rightarrow> 'w word \<Rightarrow> 'w word gstate \<Rightarrow>
   ('w word \<times> 'w word gstate) option" where
  "ugc_handle_slot_cas lay slot object comparand s =
     do {
       v \<leftarrow> load_slot lay slot s;
       s \<leftarrow> (if v = comparand then save_slot lay slot object s else Some s);
       r \<leftarrow> load_slot lay slot s;
       Some (r, s)
     }"

section \<open>The linker's layout\<close>

text \<open>What a linked program guarantees of the two arrays: they are at aligned non-null
  addresses, end inside the address space, and do not overlap.\<close>

definition array_at :: "'w::len word \<Rightarrow> bool" where
  "array_at base \<longleftrightarrow> base \<noteq> 0 \<and> unat base mod ptr_bytes TYPE('w) = 0 \<and>
     unat base + array_bytes TYPE('w) < 2 ^ LENGTH('w)"

definition layout_ok :: "'w::len word layout \<Rightarrow> bool" where
  "layout_ok lay \<longleftrightarrow> rv_target TYPE('w) \<and> array_at (addr_handles lay) \<and>
     array_at (addr_dependent lay) \<and>
     apart (span (addr_handles lay) (array_bytes TYPE('w)))
           (span (addr_dependent lay) (array_bytes TYPE('w)))"

lemma layout_target: "layout_ok (lay :: 'w::len word layout) \<Longrightarrow> rv_target TYPE('w)"
  and layout_handles: "layout_ok lay \<Longrightarrow> array_at (addr_handles lay)"
  and layout_dependent: "layout_ok lay \<Longrightarrow> array_at (addr_dependent lay)"
  by (simp_all add: layout_ok_def)

lemma elem_offset:
  assumes "i < UGC_HANDLE_COUNT"
  shows "i * ptr_bytes TYPE('w::len) + ptr_bytes TYPE('w) \<le> array_bytes TYPE('w)"
proof -
  have "Suc i * ptr_bytes TYPE('w) \<le> UGC_HANDLE_COUNT * ptr_bytes TYPE('w)"
    using assms by (intro mult_le_mono1) simp
  then show ?thesis by (simp add: array_bytes_def)
qed

lemma array_bytes_small:
  assumes "rv_target TYPE('w::len)"
  shows "array_bytes TYPE('w) < 2 ^ 32"
proof -
  have "array_bytes TYPE('w) \<le> UGC_HANDLE_COUNT * 8"
    unfolding array_bytes_def by (intro mult_le_mono2 ptr_bytes_le_8 assms)
  then show ?thesis by (simp add: UGC_HANDLE_COUNT_def)
qed

lemma elem_addr_unat:
  fixes base :: "'w::len word"
  assumes "rv_target TYPE('w)" and "array_at base" and "i < UGC_HANDLE_COUNT"
  shows "unat (elem_addr base i) = unat base + i * ptr_bytes TYPE('w)"
proof -
  have "unat (of_nat (i * ptr_bytes TYPE('w)) :: 'w word) = i * ptr_bytes TYPE('w)"
    using elem_offset [OF assms(3), where 'w = 'w] array_bytes_small [OF assms(1)]
    by (intro unat_of_small assms(1)) linarith
  moreover have "unat base + i * ptr_bytes TYPE('w) < 2 ^ LENGTH('w)"
    using elem_offset [OF assms(3), where 'w = 'w] assms(2) by (simp add: array_at_def)
  ultimately show ?thesis by (simp add: elem_addr_def unat_add_small)
qed

lemma elem_addr_nonzero:
  fixes base :: "'w::len word"
  assumes "rv_target TYPE('w)" and "array_at base" and "i < UGC_HANDLE_COUNT"
  shows "elem_addr base i \<noteq> 0"
proof
  assume "elem_addr base i = 0"
  then have "unat base = 0" using elem_addr_unat [OF assms] by simp
  then show False using assms(2) by (simp add: array_at_def unat_eq_0)
qed

lemma elem_addr_inj:
  fixes base :: "'w::len word"
  assumes "rv_target TYPE('w)" and "array_at base"
    and "i < UGC_HANDLE_COUNT" and "j < UGC_HANDLE_COUNT"
  shows "elem_addr base i = elem_addr base j \<longleftrightarrow> i = j"
proof
  assume "elem_addr base i = elem_addr base j"
  then have "i * ptr_bytes TYPE('w) = j * ptr_bytes TYPE('w)"
    using elem_addr_unat [OF assms(1,2)] assms(3,4) by (metis add_left_cancel)
  then show "i = j" using ptr_bytes_pos [OF assms(1)] by simp
qed simp

lemma elem_addr_minus:
  fixes base :: "'w::len word"
  assumes "rv_target TYPE('w)" and "array_at base" and "i < UGC_HANDLE_COUNT"
  shows "unat (elem_addr base i - base) = i * ptr_bytes TYPE('w)"
  using elem_addr_unat [OF assms] by (simp add: unat_minus_le)

lemma slot_of_elem:
  fixes base :: "'w::len word"
  assumes "rv_target TYPE('w)" and "array_at base" and "i < UGC_HANDLE_COUNT"
  shows "slot_of base (elem_addr base i) = Some i"
  using elem_addr_minus [OF assms] ptr_bytes_pos [OF assms(1)] assms(3)
  by (simp add: slot_of_def)

lemma slot_of_Some:
  fixes base :: "'w::len word"
  assumes "slot_of base p = Some i"
  shows "i < UGC_HANDLE_COUNT" and "p = elem_addr base i"
proof -
  let ?d = "unat (p - base)" and ?w = "ptr_bytes TYPE('w)"
  show "i < UGC_HANDLE_COUNT" using assms by (auto simp: slot_of_def Let_def split: if_splits)
  have "?d = i * ?w" using assms by (auto simp: slot_of_def Let_def split: if_splits)
  moreover have "p - base = of_nat ?d" by simp
  ultimately have "p - base = of_nat (i * ?w)" by metis
  then show "p = elem_addr base i" by (simp add: elem_addr_def diff_eq_eq add.commute)
qed

lemma slot_of_other:
  fixes lay :: "'w::len word layout"
  assumes "layout_ok lay" and i: "i < UGC_HANDLE_COUNT"
  shows "slot_of (addr_handles lay) (elem_addr (addr_dependent lay) i) = None"
proof (rule ccontr)
  note t = layout_target [OF assms(1)]
  note H = layout_handles [OF assms(1)] and D = layout_dependent [OF assms(1)]
  assume "slot_of (addr_handles lay) (elem_addr (addr_dependent lay) i) \<noteq> None"
  then obtain j where j: "j < UGC_HANDLE_COUNT"
    "elem_addr (addr_dependent lay) i = elem_addr (addr_handles lay) j"
    using slot_of_Some by blast
  have "unat (addr_dependent lay) + i * ptr_bytes TYPE('w) =
        unat (addr_handles lay) + j * ptr_bytes TYPE('w)"
    using elem_addr_unat [OF t D i] elem_addr_unat [OF t H j(1)] j(2) by simp
  with elem_offset [OF i, where 'w = 'w] elem_offset [OF j(1), where 'w = 'w]
    assms(1) ptr_bytes_pos [OF t]
  show False by (auto simp: layout_ok_def apart_def)
qed

text \<open>The facts on element addresses, for the two arrays of a good layout.\<close>

lemma handle_addr:
  fixes lay :: "'w::len word layout"
  assumes "layout_ok lay" and "i < UGC_HANDLE_COUNT"
  shows "unat (elem_addr (addr_handles lay) i) = unat (addr_handles lay) + i * ptr_bytes TYPE('w)"
    and "unat (elem_addr (addr_handles lay) i - addr_handles lay) = i * ptr_bytes TYPE('w)"
    and "elem_addr (addr_handles lay) i \<noteq> 0"
    and "slot_of (addr_handles lay) (elem_addr (addr_handles lay) i) = Some i"
    and "0 < ptr_bytes TYPE('w)"
  using layout_target [OF assms(1)] layout_handles [OF assms(1)] assms(2)
  by (simp_all add: elem_addr_unat elem_addr_minus elem_addr_nonzero slot_of_elem ptr_bytes_pos)

lemma dependent_addr:
  fixes lay :: "'w::len word layout"
  assumes "layout_ok lay" and "i < UGC_HANDLE_COUNT"
  shows "elem_addr (addr_dependent lay) i \<noteq> 0"
    and "slot_of (addr_dependent lay) (elem_addr (addr_dependent lay) i) = Some i"
    and "slot_of (addr_handles lay) (elem_addr (addr_dependent lay) i) = None"
  using layout_target [OF assms(1)] layout_dependent [OF assms(1)] assms
  by (simp_all add: elem_addr_nonzero slot_of_elem slot_of_other)

section \<open>Range test and index\<close>

lemma unat_array_bytes:
  assumes "rv_target TYPE('w::len)"
  shows "unat (of_nat (array_bytes TYPE('w)) :: 'w word) = array_bytes TYPE('w)"
  using array_bytes_small [OF assms] by (intro unat_of_small assms)

lemma unat_ptr_bytes:
  assumes "rv_target TYPE('w::len)"
  shows "unat (of_nat (ptr_bytes TYPE('w)) :: 'w word) = ptr_bytes TYPE('w)"
  using ptr_bytes_le_8 [OF assms] by (intro unat_of_small assms) simp

lemma contains_iff:
  fixes lay :: "'w::len word layout"
  assumes "layout_ok lay"
  shows "ugc_handle_store_contains lay h \<longleftrightarrow>
    unat (addr_handles lay) \<le> unat h \<and>
    unat h < unat (addr_handles lay) + array_bytes TYPE('w)"
proof -
  note t = layout_target [OF assms]
  have "unat (addr_handles lay + of_nat (array_bytes TYPE('w))) =
        unat (addr_handles lay) + array_bytes TYPE('w)"
    using layout_handles [OF assms] unat_array_bytes [OF t]
    by (subst unat_add_small) (auto simp: array_at_def)
  then show ?thesis
    by (simp add: ugc_handle_store_contains_def Let_def word_le_nat_alt word_less_nat_alt)
qed

lemma index_unat:
  fixes lay :: "'w::len word layout"
  assumes "layout_ok lay"
  shows "unat (ugc_handle_index lay h) = unat (h - addr_handles lay) div ptr_bytes TYPE('w)"
  using unat_ptr_bytes [OF layout_target [OF assms]]
  by (simp add: ugc_handle_index_def unat_div_distrib)

lemma index_of_elem:
  fixes lay :: "'w::len word layout"
  assumes "layout_ok lay" and "i < UGC_HANDLE_COUNT"
  shows "unat (ugc_handle_index lay (elem_addr (addr_handles lay) i)) = i"
  using handle_addr [OF assms] by (simp add: index_unat [OF assms(1)])

lemma contains_elem:
  fixes lay :: "'w::len word layout"
  assumes "layout_ok lay" and "i < UGC_HANDLE_COUNT"
  shows "ugc_handle_store_contains lay (elem_addr (addr_handles lay) i)"
  using handle_addr [OF assms] elem_offset [OF assms(2), where 'w = 'w]
  by (simp add: contains_iff [OF assms(1)])

lemma contains_index_bound:
  fixes lay :: "'w::len word layout"
  assumes "layout_ok lay" and "ugc_handle_store_contains lay h"
  shows "unat (ugc_handle_index lay h) < UGC_HANDLE_COUNT"
proof -
  have "unat (h - addr_handles lay) = unat h - unat (addr_handles lay)"
    using assms by (simp add: contains_iff unat_minus_le)
  then have "unat (h - addr_handles lay) < UGC_HANDLE_COUNT * ptr_bytes TYPE('w)"
    using assms unfolding contains_iff [OF assms(1)] array_bytes_def by linarith
  then show ?thesis
    using index_unat [OF assms(1)] by (simp add: less_mult_imp_div_less)
qed

text \<open>A contained address is the address of an element exactly when it is aligned.\<close>

lemma contains_aligned_iff:
  fixes lay :: "'w::len word layout"
  assumes lay: "layout_ok lay"
  shows "ugc_valid_slot lay h \<longleftrightarrow>
    ugc_handle_store_contains lay h \<and> unat h mod ptr_bytes TYPE('w) = 0"
proof
  assume "ugc_valid_slot lay h"
  then obtain i where i: "i < UGC_HANDLE_COUNT" "h = elem_addr (addr_handles lay) i"
    by (auto simp: ugc_valid_slot_def)
  have "unat (addr_handles lay) mod ptr_bytes TYPE('w) = 0"
    using layout_handles [OF lay] by (simp add: array_at_def)
  then show "ugc_handle_store_contains lay h \<and> unat h mod ptr_bytes TYPE('w) = 0"
    using contains_elem [OF lay i(1)] handle_addr(1) [OF lay i(1)] i(2) by simp
next
  assume h: "ugc_handle_store_contains lay h \<and> unat h mod ptr_bytes TYPE('w) = 0"
  let ?w = "ptr_bytes TYPE('w)" and ?d = "unat (h - addr_handles lay)"
  have d: "?d = unat h - unat (addr_handles lay)" using h lay by (simp add: contains_iff unat_minus_le)
  have "?w dvd unat h" "?w dvd unat (addr_handles lay)"
    using h layout_handles [OF lay] by (auto simp: array_at_def)
  then have "?w dvd ?d" unfolding d by (rule dvd_diff_nat)
  then have "slot_of (addr_handles lay) h = Some (?d div ?w)"
    using contains_index_bound [OF lay conjunct1 [OF h]] index_unat [OF lay, of h]
    by (simp add: slot_of_def)
  then show "ugc_valid_slot lay h" unfolding ugc_valid_slot_def by (blast dest: slot_of_Some)
qed

section \<open>Loads and stores through a handle\<close>

lemma load_handle:
  fixes lay :: "'w::len word layout"
  assumes "layout_ok lay" and "i < UGC_HANDLE_COUNT"
  shows "load_slot lay (elem_addr (addr_handles lay) i) s = Some (ugc_handles s i)"
  using handle_addr [OF assms] by (simp add: load_slot_def)

lemma save_handle:
  fixes lay :: "'w::len word layout"
  assumes "layout_ok lay" and "i < UGC_HANDLE_COUNT"
  shows "save_slot lay (elem_addr (addr_handles lay) i) v s =
         Some (s\<lparr>ugc_handles := (ugc_handles s)(i := v)\<rparr>)"
  using handle_addr [OF assms] by (simp add: save_slot_def)

lemma load_dependent:
  fixes lay :: "'w::len word layout"
  assumes "layout_ok lay" and "i < UGC_HANDLE_COUNT"
  shows "load_slot lay (elem_addr (addr_dependent lay) i) s = Some (ugc_handle_dependent s i)"
  using dependent_addr [OF assms] by (simp add: load_slot_def)

text \<open>What a store through any pointer can change.\<close>

lemma save_slot_cases:
  assumes "save_slot lay p v s = Some s'"
  obtains
    (handle) i where "p \<noteq> 0" "slot_of (addr_handles lay) p = Some i" "i < UGC_HANDLE_COUNT"
      "s' = s\<lparr>ugc_handles := (ugc_handles s)(i := v)\<rparr>"
  | (dependent) i where "p \<noteq> 0" "slot_of (addr_handles lay) p = None"
      "slot_of (addr_dependent lay) p = Some i" "i < UGC_HANDLE_COUNT"
      "s' = s\<lparr>ugc_handle_dependent := (ugc_handle_dependent s)(i := v)\<rparr>"
  | (cell) "p \<noteq> 0" "slot_of (addr_handles lay) p = None" "slot_of (addr_dependent lay) p = None"
      "p \<in> dom (cells s)" "s' = s\<lparr>cells := (cells s)(p \<mapsto> v)\<rparr>"
proof -
  have p: "p \<noteq> 0" using assms by (auto simp: save_slot_def)
  show ?thesis
  proof (cases "slot_of (addr_handles lay) p")
    case (Some i)
    with assms p show ?thesis by (intro handle [OF p Some slot_of_Some(1) [OF Some]])
        (simp add: save_slot_def)
  next
    case None
    show ?thesis
    proof (cases "slot_of (addr_dependent lay) p")
      case (Some i)
      with assms p None show ?thesis by (intro dependent [OF p None Some slot_of_Some(1) [OF Some]])
          (simp add: save_slot_def)
    next
      case none: None
      with assms p None show ?thesis by (intro cell [OF p None none])
          (auto simp: save_slot_def store_cell_Some_iff)
    qed
  qed
qed

text \<open>A load after a store through the same pointer returns what was stored.\<close>

lemma load_save_same: "save_slot lay p v s = Some s' \<Longrightarrow> load_slot lay p s' = Some v"
  by (erule save_slot_cases) (simp_all add: load_slot_def load_cell_def)

lemma load_Some_save: "load_slot lay p s = Some v \<Longrightarrow> \<exists>s'. save_slot lay p w s = Some s'"
  by (auto simp: save_slot_def load_slot_def store_cell_def load_cell_def
      split: if_splits option.splits)

text \<open>Two different pointers do not interfere.\<close>

lemma load_save_other:
  assumes "save_slot lay p v s = Some s'" and ne: "p \<noteq> q"
  shows "load_slot lay q s' = load_slot lay q s"
proof -
  have inj: "slot_of base q = Some i \<Longrightarrow> slot_of base p \<noteq> Some i" for base i
    using ne slot_of_Some(2) [of base p i] slot_of_Some(2) [of base q i] by auto
  from assms(1) show ?thesis
  proof (cases rule: save_slot_cases)
    case (handle i)
    then show ?thesis using inj by (auto simp: load_slot_def load_cell_def split: option.splits)
  next
    case (dependent i)
    then show ?thesis using inj by (auto simp: load_slot_def load_cell_def split: option.splits)
  next
    case cell
    then show ?thesis using ne by (auto simp: load_slot_def load_cell_def split: option.splits)
  qed
qed

end
