(* ===== verification/Handle_Spec.thy ===== *)
theory Handle_Spec
  imports Handle_Slots
begin

text \<open>
  What the handle store promises. The invariant is kept by every operation of the core on a
  slot that was taken before; the store refines a finite map from slot numbers to slot values
  with a LIFO list of freed slots and a counter of slots ever taken; and that counter is the
  high-water mark of live slots.
\<close>

section \<open>The stack of freed slots\<close>

lemma free_slots_push:
  assumes "0 \<le> ugc_handle_free_count s"
  shows "free_slots (destroyed i s) = free_slots s @ [i]"
proof -
  have "nat (ugc_handle_free_count s + 1) = Suc (nat (ugc_handle_free_count s))"
    using assms by simp
  then show ?thesis by (simp add: free_slots_def destroyed_def filled_def)
qed

lemma free_slots_pop:
  assumes "0 < ugc_handle_free_count s"
  shows "free_slots s =
    free_slots (s\<lparr>ugc_handle_free_count := ugc_handle_free_count s - 1\<rparr>) @
    [nat (ugc_handle_free_stack s (nat (ugc_handle_free_count s - 1)))]"
proof -
  have "nat (ugc_handle_free_count s) = Suc (nat (ugc_handle_free_count s - 1))"
    using assms by simp
  then show ?thesis by (simp add: free_slots_def)
qed

lemma free_slots_filled [simp]: "free_slots (filled i ob t e d s) = free_slots s"
  by (simp add: free_slots_def filled_def)

lemma free_slots_count [simp]: "free_slots (s\<lparr>ugc_handle_count := c\<rparr>) = free_slots s"
  by (simp add: free_slots_def)

lemma length_free_slots: "length (free_slots s) = nat (ugc_handle_free_count s)"
  by (simp add: free_slots_def)

lemma free_slots_lt:
  "ugc_store_consistent s \<Longrightarrow> i \<in> set (free_slots s) \<Longrightarrow> i < nat (ugc_handle_count s)"
  by (auto simp: free_slots_def ugc_store_consistent_def)

section \<open>Counting\<close>

lemma live_slots_eq:
  assumes "store_inv s"
  shows "live_slots s = {..<nat (ugc_handle_count s)} - set (free_slots s)"
  using assms by (auto simp: store_inv_def live_slots_def not_less)

lemma card_live_slots:
  assumes "store_inv s"
  shows "card (live_slots s) + nat (ugc_handle_free_count s) = nat (ugc_handle_count s)"
proof -
  have sub: "set (free_slots s) \<subseteq> {..<nat (ugc_handle_count s)}"
    using assms free_slots_lt by (auto simp: store_inv_def)
  have c: "card (set (free_slots s)) = nat (ugc_handle_free_count s)"
    using assms by (simp add: store_inv_def distinct_card length_free_slots)
  have "card (set (free_slots s)) \<le> nat (ugc_handle_count s)"
    using card_mono [OF finite_lessThan sub] by simp
  then show ?thesis
    using live_slots_eq [OF assms] card_Diff_subset [OF finite_set sub] c by simp
qed

text \<open>While some slot is live the free stack has room: the second guard of
  \<open>ugc_handle_destroy_at\<close> never stops the destruction of a live slot.\<close>

lemma live_room:
  assumes inv: "store_inv s" and i: "i \<in> live_slots s"
  shows "ugc_handle_free_count s < ugc_handle_count s"
proof -
  have "finite (live_slots s)" using live_slots_eq [OF inv] by simp
  with i have "0 < card (live_slots s)" by (auto simp: card_gt_0_iff)
  then show ?thesis
    using card_live_slots [OF inv] inv by (auto simp: store_inv_def ugc_store_consistent_def)
qed

section \<open>The invariant is kept\<close>

lemma store_inv_init: "store_inv (globals_init m)"
  by (simp add: store_inv_def ugc_store_consistent_def free_slots_def globals_init_def
      cmem.defs)

lemma store_inv_reset: "ugc_handle_store_reset s = Some s' \<Longrightarrow> store_inv s'"
  by (auto simp: store_reset_result store_inv_def ugc_store_consistent_def free_slots_def)

lemma store_inv_consistent: "store_inv s \<Longrightarrow> ugc_store_consistent s"
  by (simp add: store_inv_def)

lemma store_inv_create:
  assumes inv: "store_inv s" and t: "0 \<le> type"
    and run: "create_slot lay object type extra dep s = Some (r, s')"
  shows "store_inv s'"
proof -
  note c = store_inv_consistent [OF inv]
  from c show ?thesis
  proof (cases rule: store_cases)
    case full
    with run inv show ?thesis by (simp add: create_full)
  next
    case fresh
    then have s': "s' = filled (nat (ugc_handle_count s)) object type extra dep
                        (s\<lparr>ugc_handle_count := ugc_handle_count s + 1\<rparr>)"
      using run create_fresh [OF c] by simp
    have e: "free_slots s = []" using fresh by (simp add: free_slots_def)
    have "0 \<le> ugc_handle_count s" using c by (simp add: ugc_store_consistent_def)
    then have n: "nat (ugc_handle_count s + 1) = Suc (nat (ugc_handle_count s))" by simp
    show ?thesis
      using inv t fresh e unfolding s' store_inv_def
      by (auto simp: ugc_store_consistent_def n less_Suc_eq)
  next
    case recycled
    let ?i = "nat (ugc_handle_free_stack s (nat (ugc_handle_free_count s - 1)))"
    let ?s = "s\<lparr>ugc_handle_free_count := ugc_handle_free_count s - 1\<rparr>"
    have s': "s' = filled ?i object type extra dep ?s"
      using run create_recycled(1) [OF c recycled] by simp
    have f: "free_slots s = free_slots ?s @ [?i]" by (rule free_slots_pop [OF recycled])
    show ?thesis
      using inv t recycled unfolding s' store_inv_def f
      by (auto simp: ugc_store_consistent_def)
  qed
qed

lemma store_inv_destroy:
  fixes idx :: "'w::len word"
  assumes inv: "store_inv s" and i: "unat idx < nat (ugc_handle_count s)"
  shows "\<exists>s'. ugc_handle_destroy_at idx s = Some s' \<and> store_inv s'"
proof -
  have cap: "unat idx < UGC_HANDLE_COUNT"
    using i inv by (auto simp: store_inv_def ugc_store_consistent_def)
  show ?thesis
  proof (cases "ugc_handle_types s (unat idx) < 0")
    case True
    with destroy_noop [OF cap] inv show ?thesis by blast
  next
    case False
    then have live: "unat idx \<in> live_slots s" using i by (simp add: live_slots_def)
    note room = live_room [OF inv live]
    have b: "0 \<le> ugc_handle_free_count s" "ugc_handle_free_count s < int UGC_HANDLE_COUNT"
      using room inv by (auto simp: store_inv_def ugc_store_consistent_def)
    have run: "ugc_handle_destroy_at idx s = Some (destroyed (unat idx) s)"
      using destroy_frees [OF cap _ b] False by simp
    have n: "nat (ugc_handle_free_count s + 1) = Suc (nat (ugc_handle_free_count s))"
      using b by simp
    have "uint idx < ugc_handle_count s" using i by (metis zless_nat_eq_int_zless of_nat_unat)
    moreover have "unat idx \<notin> set (free_slots s)" using live inv by (simp add: live_slots_eq)
    ultimately have "store_inv (destroyed (unat idx) s)"
      using inv i b unfolding store_inv_def free_slots_push [OF b(1)]
      by (auto simp: ugc_store_consistent_def n less_Suc_eq
          UGC_HANDLE_TYPE_FREE_def)
    with run show ?thesis by blast
  qed
qed

section \<open>The abstract store\<close>

text \<open>
  A slot's value, and the store as clients see it: the live slots, the freed slots with the
  next one to reuse in front, and the number of slots ever taken.
\<close>

record 'p aslot =
  a_object :: 'p
  a_type :: int
  a_extra :: 'p
  a_secondary :: 'p

record 'p astore =
  a_live :: "nat \<rightharpoonup> 'p aslot"
  a_free :: "nat list"
  a_next :: nat

definition a_create :: "'p aslot \<Rightarrow> 'p astore \<Rightarrow> nat option \<times> 'p astore" where
  "a_create v a =
     (case a_free a of
        i # is \<Rightarrow> (Some i, a\<lparr>a_live := (a_live a)(i \<mapsto> v), a_free := is\<rparr>)
      | [] \<Rightarrow>
          if a_next a < UGC_HANDLE_COUNT
          then (Some (a_next a),
                a\<lparr>a_live := (a_live a)(a_next a \<mapsto> v), a_next := a_next a + 1\<rparr>)
          else (None, a))"

definition a_destroy :: "nat \<Rightarrow> 'p astore \<Rightarrow> 'p astore" where
  "a_destroy i a =
     (if i \<in> dom (a_live a)
      then a\<lparr>a_live := (a_live a)(i := None), a_free := i # a_free a\<rparr> else a)"

definition slot_value :: "'w::len word gstate \<Rightarrow> nat \<Rightarrow> 'w word aslot" where
  "slot_value s i = \<lparr>a_object = ugc_handles s i, a_type = ugc_handle_types s i,
     a_extra = ugc_handle_extra s i, a_secondary = ugc_handle_dependent s i\<rparr>"

definition abs_store :: "'w::len word gstate \<Rightarrow> 'w word astore" where
  "abs_store s =
     \<lparr>a_live = (\<lambda>i. if i \<in> live_slots s then Some (slot_value s i) else None),
      a_free = rev (free_slots s),
      a_next = nat (ugc_handle_count s)\<rparr>"

text \<open>The pointer a client gets for an abstract result.\<close>

definition handle_of :: "'w::len word layout \<Rightarrow> nat option \<Rightarrow> 'w word" where
  "handle_of lay r = (case r of None \<Rightarrow> 0 | Some i \<Rightarrow> elem_addr (addr_handles lay) i)"

lemma abs_store_sel [simp]:
  "a_free (abs_store s) = rev (free_slots s)"
  "a_next (abs_store s) = nat (ugc_handle_count s)"
  "a_live (abs_store s) i = (if i \<in> live_slots s then Some (slot_value s i) else None)"
  by (simp_all add: abs_store_def)

lemma dom_abs_store [simp]: "dom (a_live (abs_store s)) = live_slots s"
  by (auto simp: dom_def)

lemma live_slots_filled:
  "live_slots (filled i ob t e d s) =
   (if 0 \<le> t \<and> i < nat (ugc_handle_count s) then insert i (live_slots s)
    else live_slots s - {i})"
  by (auto simp: live_slots_def)

lemma live_slots_destroyed: "live_slots (destroyed i s) = live_slots s - {i}"
  by (auto simp: live_slots_def UGC_HANDLE_TYPE_FREE_def)

lemma slot_value_filled:
  "slot_value (filled i ob t e d s) = (slot_value s)(i := \<lparr>a_object = ob, a_type = t,
     a_extra = e, a_secondary = d\<rparr>)"
  by (auto simp: slot_value_def fun_eq_iff)

lemma live_slots_frame [simp]:
  "live_slots (s\<lparr>ugc_handle_free_count := c\<rparr>) = live_slots s"
  by (simp add: live_slots_def)

lemma slot_value_frame [simp]:
  "slot_value (s\<lparr>ugc_handle_free_count := c\<rparr>) = slot_value s"
  "slot_value (s\<lparr>ugc_handle_count := c\<rparr>) = slot_value s"
  by (simp_all add: slot_value_def fun_eq_iff)

lemma live_slots_grow:
  assumes "0 \<le> ugc_handle_count s"
  shows "live_slots (filled (nat (ugc_handle_count s)) ob t e d
           (s\<lparr>ugc_handle_count := ugc_handle_count s + 1\<rparr>)) =
         (if 0 \<le> t then insert (nat (ugc_handle_count s)) (live_slots s) else live_slots s)"
proof -
  have "nat (ugc_handle_count s + 1) = Suc (nat (ugc_handle_count s))" using assms by simp
  then show ?thesis by (auto simp: live_slots_def less_Suc_eq)
qed

text \<open>Creating a handle on the store is creating it on the abstract store.\<close>

lemma create_refines:
  assumes inv: "store_inv s" and t: "0 \<le> type"
    and run: "create_slot lay object type extra dep s = Some (r, s')"
  defines "v \<equiv> \<lparr>a_object = object, a_type = type, a_extra = extra, a_secondary = dep\<rparr>"
  shows "a_create v (abs_store s) = (res, a') \<Longrightarrow> r = handle_of lay res \<and> abs_store s' = a'"
proof -
  note c = store_inv_consistent [OF inv]
  assume a: "a_create v (abs_store s) = (res, a')"
  from c show ?thesis
  proof (cases rule: store_cases)
    case full
    then have "free_slots s = []" by (simp add: free_slots_def)
    with full run a show ?thesis
      by (auto simp: create_full a_create_def handle_of_def)
  next
    case fresh
    have "free_slots s = []" using fresh by (simp add: free_slots_def)
    moreover have "nat (ugc_handle_count s) < UGC_HANDLE_COUNT" "0 \<le> ugc_handle_count s"
      using fresh c by (auto simp: ugc_store_consistent_def)
    ultimately show ?thesis
      using a run t create_fresh [OF c fresh]
      by (auto simp: a_create_def handle_of_def abs_store_def live_slots_grow slot_value_filled
          v_def fun_eq_iff nat_add_distrib)
  next
    case recycled
    let ?i = "nat (ugc_handle_free_stack s (nat (ugc_handle_free_count s - 1)))"
    have f: "free_slots s =
      free_slots (s\<lparr>ugc_handle_free_count := ugc_handle_free_count s - 1\<rparr>) @ [?i]"
      by (rule free_slots_pop [OF recycled])
    show ?thesis
      using a run t create_recycled [OF c recycled]
      by (auto simp: a_create_def handle_of_def abs_store_def f live_slots_filled
          slot_value_filled v_def fun_eq_iff)
  qed
qed

text \<open>Destroying a slot that was taken is destroying it on the abstract store.\<close>

lemma destroy_refines:
  fixes idx :: "'w::len word"
  assumes inv: "store_inv s" and i: "unat idx < nat (ugc_handle_count s)"
    and run: "ugc_handle_destroy_at idx s = Some s'"
  shows "abs_store s' = a_destroy (unat idx) (abs_store s)"
proof -
  have cap: "unat idx < UGC_HANDLE_COUNT"
    using i inv by (auto simp: store_inv_def ugc_store_consistent_def)
  show ?thesis
  proof (cases "unat idx \<in> live_slots s")
    case False
    then have "ugc_handle_types s (unat idx) < 0" using i by (auto simp: live_slots_def)
    with destroy_noop [OF cap] run False show ?thesis by (simp add: a_destroy_def)
  next
    case True
    note room = live_room [OF inv True]
    have b: "0 \<le> ugc_handle_free_count s" "ugc_handle_free_count s < int UGC_HANDLE_COUNT"
      using room inv by (auto simp: store_inv_def ugc_store_consistent_def)
    have "s' = destroyed (unat idx) s"
      using run destroy_frees [OF cap _ b] True by (simp add: live_slots_def)
    with True show ?thesis
      by (auto simp: a_destroy_def abs_store_def free_slots_push [OF b(1)] live_slots_destroyed
          slot_value_def fun_eq_iff)
  qed
qed

section \<open>Operations that take and free nothing\<close>

text \<open>The part of the state the invariant reads.\<close>

definition same_slots :: "'w::len word gstate \<Rightarrow> 'w word gstate \<Rightarrow> bool" where
  "same_slots s s' \<longleftrightarrow>
     ugc_handle_count s' = ugc_handle_count s \<and>
     ugc_handle_free_count s' = ugc_handle_free_count s \<and>
     ugc_handle_free_stack s' = ugc_handle_free_stack s \<and>
     ugc_handle_types s' = ugc_handle_types s"

lemma same_slots_inv:
  assumes "same_slots s s'"
  shows "store_inv s' \<longleftrightarrow> store_inv s" and "live_slots s' = live_slots s"
    and "free_slots s' = free_slots s" and "ugc_handle_count s' = ugc_handle_count s"
  using assms
  by (auto simp: same_slots_def store_inv_def ugc_store_consistent_def free_slots_def
      live_slots_def)

lemma same_slots_refl: "same_slots s s"
  by (simp add: same_slots_def)

lemma set_dependent_same:
  "ugc_handle_set_dependent_at idx v s = Some s' \<Longrightarrow> same_slots s s'"
  by (auto simp: ugc_handle_set_dependent_at_def set_hdependent_def bind_eq_Some_conv
      same_slots_def)

lemma set_extra_same: "ugc_handle_set_extra_at idx v s = Some s' \<Longrightarrow> same_slots s s'"
  by (auto simp: ugc_handle_set_extra_at_def set_hextra_def bind_eq_Some_conv same_slots_def)

lemma save_slot_same: "save_slot lay p v s = Some s' \<Longrightarrow> same_slots s s'"
  by (erule save_slot_cases) (simp_all add: same_slots_def)

lemma slot_store_if_null_same:
  "ugc_handle_slot_store_if_null lay p v s = Some (b, s') \<Longrightarrow> same_slots s s'"
  by (auto simp: ugc_handle_slot_store_if_null_def bind_eq_Some_conv same_slots_refl
      dest: save_slot_same split: if_splits)

lemma slot_cas_same: "ugc_handle_slot_cas lay p v c s = Some (r, s') \<Longrightarrow> same_slots s s'"
  by (auto simp: ugc_handle_slot_cas_def bind_eq_Some_conv same_slots_refl
      dest: save_slot_same split: if_splits)

lemma set_type_live:
  fixes idx :: "'w::len word"
  assumes inv: "store_inv s" and i: "unat idx \<in> live_slots s" and t: "0 \<le> type"
    and run: "ugc_handle_set_type_at idx type s = Some s'"
  shows "store_inv s'" and "live_slots s' = live_slots s"
    and "ugc_handle_count s' = ugc_handle_count s"
proof -
  have s': "s' = s\<lparr>ugc_handle_types := (ugc_handle_types s)(unat idx := type)\<rparr>"
    using run by (auto simp: ugc_handle_set_type_at_def set_htype_def c_simps bind_eq_Some_conv)
  have f: "free_slots s' = free_slots s" by (simp add: s' free_slots_def)
  show "live_slots s' = live_slots s" using i t by (auto simp: s' live_slots_def)
  show "ugc_handle_count s' = ugc_handle_count s" by (simp add: s')
  show "store_inv s'"
    using inv i t unfolding store_inv_def f
    by (auto simp: s' ugc_store_consistent_def live_slots_def)
qed

section \<open>How many slots are taken\<close>

text \<open>The number of slots taken grows only when the live slots outgrow it.\<close>

definition peak_ok :: "'w::len word gstate \<Rightarrow> 'w word gstate \<Rightarrow> bool" where
  "peak_ok s s' \<longleftrightarrow> nat (ugc_handle_count s') =
     max (nat (ugc_handle_count s)) (card (live_slots s'))"

lemma live_le_count: "store_inv s \<Longrightarrow> card (live_slots s) \<le> nat (ugc_handle_count s)"
  using card_live_slots [of s] by linarith

lemma create_peak:
  assumes inv: "store_inv s" and t: "0 \<le> type"
    and run: "create_slot lay object type extra dep s = Some (r, s')"
  shows "peak_ok s s'"
proof -
  note c = store_inv_consistent [OF inv]
  note inv' = store_inv_create [OF inv t run]
  from c show ?thesis
  proof (cases rule: store_cases)
    case full
    with run live_le_count [OF inv] show ?thesis by (simp add: create_full peak_ok_def)
  next
    case fresh
    have s': "ugc_handle_free_count s' = 0" "ugc_handle_count s' = ugc_handle_count s + 1"
      using run create_fresh [OF c fresh] fresh by auto
    have "nat (ugc_handle_count s + 1) = Suc (nat (ugc_handle_count s))"
      using c by (simp add: ugc_store_consistent_def Suc_nat_eq_nat_zadd1)
    then show ?thesis using card_live_slots [OF inv'] s' by (simp add: peak_ok_def)
  next
    case recycled
    then have "ugc_handle_count s' = ugc_handle_count s"
      using run create_recycled(1) [OF c recycled] by auto
    then show ?thesis using live_le_count [OF inv'] by (simp add: peak_ok_def)
  qed
qed

lemma same_count_peak:
  "store_inv s' \<Longrightarrow> ugc_handle_count s' = ugc_handle_count s \<Longrightarrow> peak_ok s s'"
  using live_le_count [of s'] by (simp add: peak_ok_def)

lemma same_slots_step: "same_slots s s' \<Longrightarrow> store_inv s \<Longrightarrow> store_inv s' \<and> peak_ok s s'"
  using same_slots_inv [of s s'] same_count_peak by blast

lemma destroy_count:
  "ugc_handle_destroy_at idx s = Some s' \<Longrightarrow> ugc_handle_count s' = ugc_handle_count s"
  by (auto simp: ugc_handle_destroy_at_def set_handle_def set_htype_def set_hextra_def
      set_hdependent_def set_free_stack_def bind_eq_Some_conv split: if_splits)

end
