(* ===== verification/Handle_Classes.thy ===== *)
theory Handle_Classes
  imports Handle_Spec CLR_Interface
begin

text \<open>
  The C++ wrappers over the handle store: \<open>uGCHandleStore\<close> (\<open>uGCHandleStore.cpp\<close>), which has
  no state of its own, and \<open>uGCHandleManager\<close> (\<open>uGCHandleManager.cpp\<close>), whose one member
  \<open>_handleStore\<close> is null until \<open>Initialize\<close>; a call through the null pointer is undefined
  behaviour. The storage the operator \<open>new\<close> returns is an argument.
\<close>

section \<open>uGCHandleStore\<close>

definition Uproot :: "'w::len word gstate \<Rightarrow> 'w word gstate" where
  "Uproot s = s"

definition ContainsHandle :: "'w::len word layout \<Rightarrow> 'w word \<Rightarrow> bool" where
  "ContainsHandle lay hndl = ugc_handle_store_contains lay hndl"

definition CreateHandleOfType ::
  "'w::len word layout \<Rightarrow> 'w word \<Rightarrow> int \<Rightarrow> 'w word gstate \<Rightarrow>
   ('w word \<times> 'w word gstate) option" where
  "CreateHandleOfType lay object type s = ugc_handle_create lay object type s"

definition CreateHandleOfType_heap ::
  "'w::len word layout \<Rightarrow> 'w word \<Rightarrow> int \<Rightarrow> int \<Rightarrow> 'w word gstate \<Rightarrow>
   ('w word \<times> 'w word gstate) option" where
  "CreateHandleOfType_heap lay object type heapToAffinitizeTo s = ugc_handle_create lay object type s"

definition CreateHandleWithExtraInfo ::
  "'w::len word layout \<Rightarrow> 'w word \<Rightarrow> int \<Rightarrow> 'w word \<Rightarrow> 'w word gstate \<Rightarrow>
   ('w word \<times> 'w word gstate) option" where
  "CreateHandleWithExtraInfo lay object type pExtraInfo s =
     ugc_handle_create_with_extra lay object type pExtraInfo s"

definition CreateDependentHandle ::
  "'w::len word clr_interface \<Rightarrow> 'w word layout \<Rightarrow> 'w word \<Rightarrow> 'w word \<Rightarrow> 'w word gstate \<Rightarrow>
   ('w word \<times> 'w word gstate) option" where
  "CreateDependentHandle clr lay primary secondary s =
     ugc_handle_create_dependent lay primary secondary (hndtype_dependent clr) s"

definition uDestroyHandle ::
  "'w::len word layout \<Rightarrow> 'w word \<Rightarrow> 'w word gstate \<Rightarrow> 'w word gstate option" where
  "uDestroyHandle lay hndl s =
     (if \<not> ugc_handle_store_contains lay hndl then Some s
      else ugc_handle_destroy_at (ugc_handle_index lay hndl) s)"

definition uGetDependentHandle :: "'w::len word layout \<Rightarrow> 'w word \<Rightarrow> 'w word option" where
  "uGetDependentHandle lay hndl = ugc_handle_dependent_slot_at lay (ugc_handle_index lay hndl)"

definition uSetDependentHandle ::
  "'w::len word layout \<Rightarrow> 'w word \<Rightarrow> 'w word \<Rightarrow> 'w word gstate \<Rightarrow> 'w word gstate option" where
  "uSetDependentHandle lay hndl secondary s =
     ugc_handle_set_dependent_at (ugc_handle_index lay hndl) secondary s"

definition uGetHandleType :: "'w::len word layout \<Rightarrow> 'w word \<Rightarrow> 'w word gstate \<Rightarrow> int option" where
  "uGetHandleType lay hndl s = ugc_handle_get_type_at (ugc_handle_index lay hndl) s"

definition uSetHandleType ::
  "'w::len word layout \<Rightarrow> 'w word \<Rightarrow> int \<Rightarrow> 'w word gstate \<Rightarrow> 'w word gstate option" where
  "uSetHandleType lay hndl type s = ugc_handle_set_type_at (ugc_handle_index lay hndl) type s"

definition uGetHandleExtraInfo ::
  "'w::len word layout \<Rightarrow> 'w word \<Rightarrow> 'w word gstate \<Rightarrow> 'w word option" where
  "uGetHandleExtraInfo lay hndl s = ugc_handle_get_extra_at (ugc_handle_index lay hndl) s"

definition uSetHandleExtraInfo ::
  "'w::len word layout \<Rightarrow> 'w word \<Rightarrow> 'w word \<Rightarrow> 'w word gstate \<Rightarrow> 'w word gstate option" where
  "uSetHandleExtraInfo lay hndl extraInfo s =
     ugc_handle_set_extra_at (ugc_handle_index lay hndl) extraInfo s"

section \<open>uGCHandleManager\<close>

record 'p handle_manager =
  handle_store :: 'p

text \<open>The object a call \<open>_handleStore->f(...)\<close> is made on.\<close>

definition store_object :: "'p::zero handle_manager \<Rightarrow> 'p option" where
  "store_object hm = (if handle_store hm = 0 then None else Some (handle_store hm))"

definition hm_Initialize :: "'p \<Rightarrow> 'p handle_manager \<Rightarrow> bool \<times> 'p handle_manager" where
  "hm_Initialize new_store hm = (True, hm\<lparr>handle_store := new_store\<rparr>)"

definition hm_Shutdown :: "'p handle_manager \<Rightarrow> 'p handle_manager" where
  "hm_Shutdown hm = hm"

definition GetGlobalHandleStore :: "'p handle_manager \<Rightarrow> 'p" where
  "GetGlobalHandleStore hm = handle_store hm"

definition CreateHandleStore :: "'p handle_manager \<Rightarrow> 'p" where
  "CreateHandleStore hm = handle_store hm"

definition DestroyHandleStore :: "'p \<Rightarrow> 'p handle_manager \<Rightarrow> 'p handle_manager" where
  "DestroyHandleStore store hm = hm"

definition CreateGlobalHandleOfType ::
  "'w::len word layout \<Rightarrow> 'w word handle_manager \<Rightarrow> 'w word \<Rightarrow> int \<Rightarrow> 'w word gstate \<Rightarrow>
   ('w word \<times> 'w word gstate) option" where
  "CreateGlobalHandleOfType lay hm object type s =
     do { _ \<leftarrow> store_object hm; CreateHandleOfType lay object type s }"

definition CreateDuplicateHandle ::
  "'w::len word layout \<Rightarrow> 'w word handle_manager \<Rightarrow> 'w word \<Rightarrow> 'w word gstate \<Rightarrow>
   ('w word \<times> 'w word gstate) option" where
  "CreateDuplicateHandle lay hm handle s =
     (if handle = 0 then Some (0, s)
      else do {
        _ \<leftarrow> store_object hm;
        object \<leftarrow> load_slot lay handle s;
        type \<leftarrow> uGetHandleType lay handle s;
        CreateHandleOfType lay object type s
      })"

definition DestroyHandleOfType ::
  "'w::len word layout \<Rightarrow> 'w word handle_manager \<Rightarrow> 'w word \<Rightarrow> int \<Rightarrow> 'w word gstate \<Rightarrow>
   'w word gstate option" where
  "DestroyHandleOfType lay hm handle type s =
     do { _ \<leftarrow> store_object hm; uDestroyHandle lay handle s }"

definition DestroyHandleOfUnknownType ::
  "'w::len word layout \<Rightarrow> 'w word handle_manager \<Rightarrow> 'w word \<Rightarrow> 'w word gstate \<Rightarrow>
   'w word gstate option" where
  "DestroyHandleOfUnknownType lay hm handle s =
     do { _ \<leftarrow> store_object hm; uDestroyHandle lay handle s }"

definition SetExtraInfoForHandle ::
  "'w::len word layout \<Rightarrow> 'w word handle_manager \<Rightarrow> 'w word \<Rightarrow> int \<Rightarrow> 'w word \<Rightarrow> 'w word gstate \<Rightarrow>
   'w word gstate option" where
  "SetExtraInfoForHandle lay hm handle type pExtraInfo s =
     do {
       _ \<leftarrow> store_object hm;
       s \<leftarrow> uSetHandleType lay handle type s;
       uSetHandleExtraInfo lay handle pExtraInfo s
     }"

definition GetExtraInfoFromHandle ::
  "'w::len word layout \<Rightarrow> 'w word handle_manager \<Rightarrow> 'w word \<Rightarrow> 'w word gstate \<Rightarrow> 'w word option" where
  "GetExtraInfoFromHandle lay hm handle s =
     do { _ \<leftarrow> store_object hm; uGetHandleExtraInfo lay handle s }"

definition StoreObjectInHandle ::
  "'w::len word layout \<Rightarrow> 'w word \<Rightarrow> 'w word \<Rightarrow> 'w word gstate \<Rightarrow> 'w word gstate option" where
  "StoreObjectInHandle lay handle object s = ugc_handle_slot_store lay handle object s"

definition StoreObjectInHandleIfNull ::
  "'w::len word layout \<Rightarrow> 'w word \<Rightarrow> 'w word \<Rightarrow> 'w word gstate \<Rightarrow>
   (bool \<times> 'w word gstate) option" where
  "StoreObjectInHandleIfNull lay handle object s = ugc_handle_slot_store_if_null lay handle object s"

definition SetDependentHandleSecondary ::
  "'w::len word layout \<Rightarrow> 'w word handle_manager \<Rightarrow> 'w word \<Rightarrow> 'w word \<Rightarrow> 'w word gstate \<Rightarrow>
   'w word gstate option" where
  "SetDependentHandleSecondary lay hm handle object s =
     do { _ \<leftarrow> store_object hm; uSetDependentHandle lay handle object s }"

definition GetDependentHandleSecondary ::
  "'w::len word layout \<Rightarrow> 'w word handle_manager \<Rightarrow> 'w word \<Rightarrow> 'w word gstate \<Rightarrow> 'w word option" where
  "GetDependentHandleSecondary lay hm handle s =
     do {
       _ \<leftarrow> store_object hm;
       handleObj \<leftarrow> uGetDependentHandle lay handle;
       load_slot lay handleObj s
     }"

definition InterlockedCompareExchangeObjectInHandle ::
  "'w::len word layout \<Rightarrow> 'w word \<Rightarrow> 'w word \<Rightarrow> 'w word \<Rightarrow> 'w word gstate \<Rightarrow>
   ('w word \<times> 'w word gstate) option" where
  "InterlockedCompareExchangeObjectInHandle lay handle object oldObject s =
     ugc_handle_slot_cas lay handle object oldObject s"

definition HandleFetchType ::
  "'w::len word layout \<Rightarrow> 'w word handle_manager \<Rightarrow> 'w word \<Rightarrow> 'w word gstate \<Rightarrow> int option" where
  "HandleFetchType lay hm handle s = do { _ \<leftarrow> store_object hm; uGetHandleType lay handle s }"

definition TraceRefCountedHandles :: "'w::len word gstate \<Rightarrow> 'w word gstate" where
  "TraceRefCountedHandles s = s"

section \<open>The methods on the handle of a slot\<close>

named_theorems handle_simps \<open>the wrappers, applied to the address of slot i\<close>

lemma index_uint:
  fixes lay :: "'w::len word layout"
  assumes "layout_ok lay" and "i < UGC_HANDLE_COUNT"
  shows "uint (ugc_handle_index lay (elem_addr (addr_handles lay) i)) = int i"
  using index_of_elem [OF assms] by (metis of_nat_unat)

lemma handle_index_simps [handle_simps]:
  fixes lay :: "'w::len word layout"
  assumes "layout_ok lay" and "i < UGC_HANDLE_COUNT"
  defines "h \<equiv> elem_addr (addr_handles lay) i"
  shows "uGetHandleType lay h s = Some (ugc_handle_types s i)"
    and "uSetHandleType lay h t s =
         Some (s\<lparr>ugc_handle_types := (ugc_handle_types s)(i := t)\<rparr>)"
    and "uGetHandleExtraInfo lay h s = Some (ugc_handle_extra s i)"
    and "uSetHandleExtraInfo lay h e s =
         Some (s\<lparr>ugc_handle_extra := (ugc_handle_extra s)(i := e)\<rparr>)"
    and "uSetDependentHandle lay h d s =
         Some (s\<lparr>ugc_handle_dependent := (ugc_handle_dependent s)(i := d)\<rparr>)"
    and "uGetDependentHandle lay h = Some (elem_addr (addr_dependent lay) i)"
    and "ContainsHandle lay h"
  using index_uint [OF assms(1,2)] index_of_elem [OF assms(1,2)] assms(2)
    contains_elem [OF assms(1,2)]
  by (simp_all add: h_def uGetHandleType_def ugc_handle_get_type_at_def uSetHandleType_def
      ugc_handle_set_type_at_def uGetHandleExtraInfo_def ugc_handle_get_extra_at_def
      uSetHandleExtraInfo_def ugc_handle_set_extra_at_def uSetDependentHandle_def
      ugc_handle_set_dependent_at_def uGetDependentHandle_def ugc_handle_dependent_slot_at_def
      ContainsHandle_def)

lemma destroy_handle_simp [handle_simps]:
  fixes lay :: "'w::len word layout"
  assumes "layout_ok lay" and "i < UGC_HANDLE_COUNT"
  shows "uDestroyHandle lay (elem_addr (addr_handles lay) i) s =
         ugc_handle_destroy_at (ugc_handle_index lay (elem_addr (addr_handles lay) i)) s"
  using contains_elem [OF assms] by (simp add: uDestroyHandle_def)

lemma create_handle_simps [handle_simps]:
  "CreateHandleOfType lay object type = create_slot lay object type 0 0"
  "CreateHandleOfType_heap lay object type heap = create_slot lay object type 0 0"
  "CreateHandleWithExtraInfo lay object type extra = create_slot lay object type extra 0"
  "CreateDependentHandle clr lay object secondary =
     create_slot lay object (hndtype_dependent clr) 0 secondary"
  by (rule ext, simp add: CreateHandleOfType_def CreateHandleOfType_heap_def
      CreateHandleWithExtraInfo_def CreateDependentHandle_def create_is_slot)+

lemma foreign_destroy: "\<not> ContainsHandle lay h \<Longrightarrow> uDestroyHandle lay h s = Some s"
  by (simp add: ContainsHandle_def uDestroyHandle_def)

lemma null_not_contained:
  fixes lay :: "'w::len word layout"
  assumes "layout_ok lay"
  shows "\<not> ContainsHandle lay 0"
  using layout_handles [OF assms]
  by (auto simp: ContainsHandle_def contains_iff [OF assms] array_at_def unat_eq_0)

text \<open>Live slots are slots of the arrays.\<close>

lemma live_in_range: "store_inv s \<Longrightarrow> i \<in> live_slots s \<Longrightarrow> i < UGC_HANDLE_COUNT"
  by (auto simp: store_inv_def ugc_store_consistent_def live_slots_def)

end
