(* ===== verification/Handle_Client.thy ===== *)
theory Handle_Client
  imports Handle_Classes
begin

text \<open>
  The interface the runtime sees: it creates handles with a value, reads them back by the
  handle it got, and destroys the handles it holds. The laws of the interface are stated
  once, a client's session is analysed on the laws alone, and the handle store of uGC is
  shown to obey them.
\<close>

section \<open>The interface\<close>

locale handle_provider =
  fixes create :: "'v \<Rightarrow> 's \<Rightarrow> ('h \<times> 's) option"
    and destroy :: "'h \<Rightarrow> 's \<Rightarrow> 's option"
    and lookup :: "'s \<Rightarrow> 'h \<Rightarrow> 'v option"
    and inv :: "'s \<Rightarrow> bool"
    and good :: "'v \<Rightarrow> bool"
    and null :: 'h
  assumes create_defined: "inv s \<Longrightarrow> good v \<Longrightarrow> \<exists>h s'. create v s = Some (h, s')"
    and create_new: "inv s \<Longrightarrow> good v \<Longrightarrow> create v s = Some (h, s') \<Longrightarrow> h \<noteq> null \<Longrightarrow>
      inv s' \<and> lookup s h = None \<and> lookup s' = (lookup s)(h \<mapsto> v)"
    and create_null: "inv s \<Longrightarrow> good v \<Longrightarrow> create v s = Some (null, s') \<Longrightarrow> s' = s"
    and destroy_live: "inv s \<Longrightarrow> lookup s h = Some v \<Longrightarrow>
      \<exists>s'. destroy h s = Some s' \<and> inv s' \<and> lookup s' = (lookup s)(h := None)"

text \<open>A provider that reuses the handle destroyed last.\<close>

locale lifo_provider = handle_provider +
  assumes reuse: "inv s \<Longrightarrow> lookup s h = Some v \<Longrightarrow> good w \<Longrightarrow> destroy h s = Some s1 \<Longrightarrow>
      \<exists>s2. create w s1 = Some (h, s2)"
    and null_unused: "inv s \<Longrightarrow> lookup s null = None"

text \<open>A client's session, with the handles it holds and the values it gave them.\<close>

inductive session ::
  "('v \<Rightarrow> 's \<Rightarrow> ('h \<times> 's) option) \<Rightarrow> ('h \<Rightarrow> 's \<Rightarrow> 's option) \<Rightarrow> ('v \<Rightarrow> bool) \<Rightarrow> 'h \<Rightarrow> 's \<Rightarrow>
   's \<Rightarrow> ('h \<times> 'v) list \<Rightarrow> bool"
  for create destroy good null s0 where
  start: "session create destroy good null s0 s0 []"
| created: "session create destroy good null s0 s held \<Longrightarrow> good v \<Longrightarrow>
    create v s = Some (h, s') \<Longrightarrow> h \<noteq> null \<Longrightarrow>
    session create destroy good null s0 s' ((h, v) # held)"
| exhausted: "session create destroy good null s0 s held \<Longrightarrow> good v \<Longrightarrow>
    create v s = Some (null, s') \<Longrightarrow> session create destroy good null s0 s' held"
| destroyed: "session create destroy good null s0 s held \<Longrightarrow> h \<in> fst ` set held \<Longrightarrow>
    destroy h s = Some s' \<Longrightarrow>
    session create destroy good null s0 s' (filter (\<lambda>p. fst p \<noteq> h) held)"

lemma map_of_filter_ne: "map_of (filter (\<lambda>p. fst p \<noteq> h) ps) = (map_of ps)(h := None)"
  by (induction ps) (auto simp: fun_eq_iff)

lemma distinct_map_fst_filter: "distinct (map fst ps) \<Longrightarrow> distinct (map fst (filter P ps))"
  by (induction ps) auto

context handle_provider
begin

text \<open>The store holds exactly what the client holds, each handle once.\<close>

lemma session_exact:
  assumes "session create destroy good null s0 s held" and "inv s0" and "lookup s0 = Map.empty"
  shows "inv s \<and> distinct (map fst held) \<and> lookup s = map_of held \<and> null \<notin> fst ` set held"
  using assms(1)
proof induction
  case start
  with assms(2,3) show ?case by simp
next
  case (created s held v h s')
  then have n: "inv s' \<and> lookup s h = None \<and> lookup s' = (lookup s)(h \<mapsto> v)"
    by (intro create_new) auto
  then have "h \<notin> fst ` set held" using created.IH by (simp add: map_of_eq_None_iff)
  with n created.IH created.hyps show ?case by (auto simp: fun_upd_def)
next
  case (exhausted s held v s')
  with create_null have "s' = s" by blast
  with exhausted show ?case by simp
next
  case (destroyed s held h s')
  then obtain v where "lookup s h = Some v"
    by (metis (mono_tags) map_of_eq_None_iff not_None_eq)
  with destroy_live [of s h v] destroyed have "inv s' \<and> lookup s' = (lookup s)(h := None)"
    by auto
  with destroyed.IH show ?case
    by (auto simp: map_of_filter_ne distinct_map_fst_filter)
qed

text \<open>No step of a session is undefined.\<close>

lemma session_progress:
  assumes "session create destroy good null s0 s held" and "inv s0" and "lookup s0 = Map.empty"
  shows "(good v \<longrightarrow> (\<exists>h s'. create v s = Some (h, s'))) \<and>
         (h \<in> fst ` set held \<longrightarrow> (\<exists>s'. destroy h s = Some s'))"
proof -
  note e = session_exact [OF assms]
  have "\<exists>s'. destroy h s = Some s'" if h: "h \<in> fst ` set held"
  proof -
    from h e obtain w where "lookup s h = Some w"
      by (metis (mono_tags) map_of_eq_None_iff not_None_eq)
    with e destroy_live show ?thesis by blast
  qed
  with e create_defined show ?thesis by blast
qed

end

context lifo_provider
begin

text \<open>A client that destroys a handle can always create another: it gets the same one.\<close>

lemma session_reuse:
  assumes "session create destroy good null s0 s held" and "inv s0" and "lookup s0 = Map.empty"
    and "h \<in> fst ` set held" and "good w" and "destroy h s = Some s1"
  shows "h \<noteq> null \<and> (\<exists>s2. create w s1 = Some (h, s2))"
proof -
  note e = session_exact [OF assms(1-3)]
  with assms(4) obtain v where "lookup s h = Some v"
    by (metis (mono_tags) map_of_eq_None_iff not_None_eq)
  with e assms(4-6) reuse show ?thesis by blast
qed

end

section \<open>The handle store is such a provider\<close>

text \<open>A value a client can give a handle: a live type, and extra info or a secondary but not both.
  Its handle comes from the creating function for such a value.\<close>

definition good_value :: "'w::len word aslot \<Rightarrow> bool" where
  "good_value v \<longleftrightarrow> live_type (a_type v) \<and> (a_extra v = 0 \<or> a_secondary v = 0)"

definition create_value ::
  "'w::len word layout \<Rightarrow> 'w word aslot \<Rightarrow> 'w word gstate \<Rightarrow> ('w word \<times> 'w word gstate) option" where
  "create_value lay v s =
     (if a_secondary v \<noteq> 0
      then ugc_handle_create_dependent lay (a_object v) (a_secondary v) (a_type v) s
      else if a_extra v \<noteq> 0
      then CreateHandleWithExtraInfo lay (a_object v) (a_type v) (a_extra v) s
      else CreateHandleOfType lay (a_object v) (a_type v) s)"

lemma create_value_slot:
  "good_value v \<Longrightarrow>
   create_value lay v s = create_slot lay (a_object v) (a_type v) (a_extra v) (a_secondary v) s"
  by (auto simp: create_value_def good_value_def handle_simps create_is_slot)

definition handle_lookup ::
  "'w::len word layout \<Rightarrow> 'w word gstate \<Rightarrow> 'w word \<Rightarrow> 'w word aslot option" where
  "handle_lookup lay s h =
     (if h = 0 then None
      else case slot_of (addr_handles lay) h of
        None \<Rightarrow> None
      | Some i \<Rightarrow> a_live (abs_store s) i)"

definition store_ok :: "'w::len word layout \<Rightarrow> 'w word gstate \<Rightarrow> bool" where
  "store_ok lay s \<longleftrightarrow> layout_ok lay \<and> store_inv s"

lemma handle_lookup_Some:
  assumes "handle_lookup lay s h = Some v"
  obtains i where "h = elem_addr (addr_handles lay) i" "i \<in> live_slots s" "v = slot_value s i"
    "i < UGC_HANDLE_COUNT"
  using assms slot_of_Some
  by (auto simp: handle_lookup_def split: if_splits option.splits) blast

lemma handle_lookup_upd:
  fixes lay :: "'w::len word layout"
  assumes lay: "layout_ok lay" and i: "i < UGC_HANDLE_COUNT"
    and live: "a_live (abs_store s') = (a_live (abs_store s))(i := x)"
  shows "handle_lookup lay s' = (handle_lookup lay s)(elem_addr (addr_handles lay) i := x)"
proof
  fix h
  show "handle_lookup lay s' h =
        ((handle_lookup lay s)(elem_addr (addr_handles lay) i := x)) h"
  proof (cases "h = elem_addr (addr_handles lay) i")
    case True
    then show ?thesis
      using handle_addr [OF lay i] by (simp add: handle_lookup_def live del: abs_store_sel)
  next
    case False
    then have "slot_of (addr_handles lay) h \<noteq> Some i" using slot_of_Some(2) by blast
    with False show ?thesis
      by (auto simp: handle_lookup_def live simp del: abs_store_sel split: option.splits)
  qed
qed

lemma a_create_cases:
  assumes "store_inv s" and "a_create v (abs_store s) = (res, a')"
  obtains (full) "res = None" "a' = abs_store s"
  | (slot) i where "res = Some i" "i < UGC_HANDLE_COUNT" "i \<notin> live_slots s"
      "a_live a' = (a_live (abs_store s))(i \<mapsto> v)"
proof (cases "rev (free_slots s)")
  case Nil
  show ?thesis
  proof (cases "nat (ugc_handle_count s) < UGC_HANDLE_COUNT")
    case True
    with Nil assms(2) show ?thesis
      by (intro slot [of "nat (ugc_handle_count s)"]) (auto simp: a_create_def live_slots_def)
  next
    case False
    with Nil assms(2) show ?thesis by (intro full) (auto simp: a_create_def)
  qed
next
  case (Cons i rest)
  then have i: "i \<in> set (free_slots s)" by (metis list.set_intros(1) set_rev)
  then have "i < nat (ugc_handle_count s)" "i \<notin> live_slots s"
    using assms(1) free_slots_lt by (auto simp: store_inv_def live_slots_eq [OF assms(1)])
  moreover have "i < UGC_HANDLE_COUNT"
    using calculation(1) assms(1) by (auto simp: store_inv_def ugc_store_consistent_def)
  ultimately show ?thesis
    using Cons assms(2) by (intro slot [of i]) (auto simp: a_create_def)
qed

lemma create_slot_defined:
  assumes "store_inv s"
  shows "\<exists>r s'. create_slot lay object type extra dep s = Some (r, s')"
  using store_inv_consistent [OF assms]
  by (cases rule: store_cases)
    (auto simp: create_full create_fresh create_recycled(1) store_inv_consistent [OF assms])

lemma create_value_refines:
  assumes ok: "store_ok lay s" and t: "good_value v"
    and run: "create_value lay v s = Some (h, s')"
    and a: "a_create v (abs_store s) = (res, a')"
  shows "store_ok lay s'" and "h = handle_of lay res" and "abs_store s' = a'"
proof -
  have inv: "store_inv s" and t': "0 \<le> a_type v"
    using ok t by (auto simp: store_ok_def good_value_def live_type_def)
  note run' = run [unfolded create_value_slot [OF t]]
  show "store_ok lay s'" using store_inv_create [OF inv t' run'] ok by (simp add: store_ok_def)
  have "\<lparr>a_object = a_object v, a_type = a_type v, a_extra = a_extra v,
         a_secondary = a_secondary v\<rparr> = v" by (cases v) simp
  then have "h = handle_of lay res \<and> abs_store s' = a'"
    using create_refines [OF inv t' run', of res a'] a by (simp only: simp_thms)
  then show "h = handle_of lay res" "abs_store s' = a'" by auto
qed

lemma create_value_new:
  assumes ok: "store_ok lay s" and t: "good_value v"
    and run: "create_value lay v s = Some (h, s')" and h: "h \<noteq> 0"
  shows "store_ok lay s'" and "handle_lookup lay s h = None"
    and "handle_lookup lay s' = (handle_lookup lay s)(h \<mapsto> v)"
proof -
  have inv: "store_inv s" and lay: "layout_ok lay" using ok by (auto simp: store_ok_def)
  obtain res a' where a: "a_create v (abs_store s) = (res, a')" by fastforce
  note R = create_value_refines [OF ok t run a]
  show "store_ok lay s'" by (rule R(1))
  from inv a have "handle_lookup lay s h = None \<and>
    handle_lookup lay s' = (handle_lookup lay s)(h \<mapsto> v)"
  proof (cases rule: a_create_cases)
    case full
    with R(2) h show ?thesis by (simp add: handle_of_def)
  next
    case (slot i)
    with R(2) have "h = elem_addr (addr_handles lay) i" by (simp add: handle_of_def)
    moreover have "a_live (abs_store s') = (a_live (abs_store s))(i \<mapsto> v)"
      using slot(4) R(3) by simp
    ultimately show ?thesis
      using handle_lookup_upd [OF lay slot(2)] handle_addr [OF lay slot(2)] slot(3)
      by (auto simp: handle_lookup_def)
  qed
  then show "handle_lookup lay s h = None"
    "handle_lookup lay s' = (handle_lookup lay s)(h \<mapsto> v)" by auto
qed

lemma create_value_null:
  assumes ok: "store_ok lay s" and t: "good_value v"
    and run: "create_value lay v s = Some (0, s')"
  shows "s' = s"
proof -
  have inv: "store_inv s" and lay: "layout_ok lay" using ok by (auto simp: store_ok_def)
  obtain res a' where a: "a_create v (abs_store s) = (res, a')" by fastforce
  note R = create_value_refines [OF ok t run a]
  from inv a have res: "res = None"
  proof (cases rule: a_create_cases)
    case (slot i)
    with R(2) handle_addr(3) [OF lay slot(2)] show ?thesis by (simp add: handle_of_def)
  qed
  have "free_slots s = []" "\<not> nat (ugc_handle_count s) < UGC_HANDLE_COUNT"
    using a res by (auto simp: a_create_def split: list.splits if_splits)
  then have "ugc_handle_free_count s = 0" "ugc_handle_count s = int UGC_HANDLE_COUNT"
    using store_inv_consistent [OF inv] length_free_slots [of s]
    by (auto simp: ugc_store_consistent_def)
  with run show ?thesis by (simp add: create_value_slot [OF t] create_full)
qed

lemma destroy_live_handle:
  assumes ok: "store_ok lay s" and l: "handle_lookup lay s h = Some v"
  obtains i s' where "h = elem_addr (addr_handles lay) i" "i \<in> live_slots s"
    "i < UGC_HANDLE_COUNT" "uDestroyHandle lay h s = Some s'" "store_ok lay s'"
    "abs_store s' = a_destroy i (abs_store s)"
proof -
  have inv: "store_inv s" and lay: "layout_ok lay" using ok by (auto simp: store_ok_def)
  from l obtain i where i: "h = elem_addr (addr_handles lay) i" "i \<in> live_slots s"
    "i < UGC_HANDLE_COUNT"
    by (rule handle_lookup_Some)
  let ?x = "ugc_handle_index lay (elem_addr (addr_handles lay) i)"
  have x: "unat ?x = i" by (rule index_of_elem [OF lay i(3)])
  have lt: "unat ?x < nat (ugc_handle_count s)" using i(2) x by (simp add: live_slots_def)
  from store_inv_destroy [OF inv lt] obtain s' where
    s': "ugc_handle_destroy_at ?x s = Some s'" "store_inv s'" by blast
  moreover have "abs_store s' = a_destroy i (abs_store s)"
    using destroy_refines [OF inv lt s'(1)] x by simp
  moreover have "uDestroyHandle lay h s = Some s'"
    unfolding i(1) destroy_handle_simp [OF lay i(3)] by (rule s'(1))
  ultimately show ?thesis using that [of i s'] i lay by (simp add: store_ok_def)
qed

lemma destroy_handle_lookup:
  assumes ok: "store_ok lay s" and l: "handle_lookup lay s h = Some v"
  shows "\<exists>s'. uDestroyHandle lay h s = Some s' \<and> store_ok lay s' \<and>
           handle_lookup lay s' = (handle_lookup lay s)(h := None)"
proof -
  have lay: "layout_ok lay" using ok by (simp add: store_ok_def)
  from ok l obtain i s' where i: "h = elem_addr (addr_handles lay) i" "i \<in> live_slots s"
    "i < UGC_HANDLE_COUNT" "uDestroyHandle lay h s = Some s'" "store_ok lay s'"
    "abs_store s' = a_destroy i (abs_store s)" by (rule destroy_live_handle)
  have "a_live (abs_store s') = (a_live (abs_store s))(i := None)"
    using i(2,6) by (simp add: a_destroy_def)
  with handle_lookup_upd [OF lay i(3)] i show ?thesis by blast
qed

lemma destroy_then_create:
  assumes ok: "store_ok lay s" and l: "handle_lookup lay s h = Some v"
    and t: "good_value w" and d: "uDestroyHandle lay h s = Some s1"
  shows "\<exists>s2. create_value lay w s1 = Some (h, s2)"
proof -
  from ok l obtain i s' where i: "h = elem_addr (addr_handles lay) i" "i \<in> live_slots s"
    "uDestroyHandle lay h s = Some s'" "store_ok lay s'"
    "abs_store s' = a_destroy i (abs_store s)" by (rule destroy_live_handle)
  with d have s1: "store_ok lay s1" "abs_store s1 = a_destroy i (abs_store s)" by auto
  then obtain r s2 where run: "create_value lay w s1 = Some (r, s2)"
    using create_slot_defined [of s1] by (fastforce simp: create_value_slot [OF t] store_ok_def)
  obtain a' where "a_create w (abs_store s1) = (Some i, a')"
    using i(2) by (simp add: s1(2) a_create_def a_destroy_def)
  with create_value_refines(2) [OF s1(1) t run] i(1) run show ?thesis
    by (simp add: handle_of_def)
qed

interpretation store_provider: lifo_provider
  "create_value lay" "uDestroyHandle lay" "handle_lookup lay" "store_ok lay"
  good_value 0 for lay :: "'w::len word layout"
proof
  fix s s' s1 :: "'w word gstate" and v w :: "'w word aslot" and h :: "'w word"
  show "store_ok lay s \<Longrightarrow> good_value v \<Longrightarrow> \<exists>h s'. create_value lay v s = Some (h, s')"
    using create_slot_defined by (auto simp: create_value_slot store_ok_def)
  show "store_ok lay s \<Longrightarrow> good_value v \<Longrightarrow> create_value lay v s = Some (h, s') \<Longrightarrow> h \<noteq> 0 \<Longrightarrow>
      store_ok lay s' \<and> handle_lookup lay s h = None \<and>
      handle_lookup lay s' = (handle_lookup lay s)(h \<mapsto> v)"
    using create_value_new by blast
  show "store_ok lay s \<Longrightarrow> good_value v \<Longrightarrow> create_value lay v s = Some (0, s') \<Longrightarrow> s' = s"
    using create_value_null by blast
  show "store_ok lay s \<Longrightarrow> handle_lookup lay s h = Some v \<Longrightarrow>
      \<exists>s'. uDestroyHandle lay h s = Some s' \<and> store_ok lay s' \<and>
        handle_lookup lay s' = (handle_lookup lay s)(h := None)"
    by (rule destroy_handle_lookup)
  show "store_ok lay s \<Longrightarrow> handle_lookup lay s h = Some v \<Longrightarrow> good_value w \<Longrightarrow>
      uDestroyHandle lay h s = Some s1 \<Longrightarrow> \<exists>s2. create_value lay w s1 = Some (h, s2)"
    by (rule destroy_then_create)
  show "store_ok lay s \<Longrightarrow> handle_lookup lay s 0 = None"
    by (simp add: handle_lookup_def)
qed

end
