(* ===== verification/GC_Init.thy ===== *)
theory GC_Init
  imports Heap_Run Handle_Client
begin

text \<open>
  The two entry points of \<open>ugc/uGC.cpp\<close>, linked in place of the runtime's own. The out
  parameters are results; \<open>gcDacVars\<close> is not written. \<open>new uGCHandleManager()\<close> has no
  user-provided constructor, so its one member is zeroed.
\<close>

definition new_uGCHandleManager :: "'p::zero handle_manager" where
  "new_uGCHandleManager = \<lparr>handle_store = 0\<rparr>"

definition GC_Initialize ::
  "'p::zero clr_interface \<Rightarrow> 'p \<Rightarrow> 32 word \<times> 'p gc_heap \<times> 'p handle_manager" where
  "GC_Initialize clr clrToGC =
     (let heap = new_uGCHeap clrToGC;
          handleManager = new_uGCHandleManager
      in (s_ok clr, heap, handleManager))"

record version_info =
  MajorVersion :: "32 word"
  MinorVersion :: "32 word"
  BuildVersion :: "32 word"
  Name :: string

definition GC_VersionInfo :: "'p clr_interface \<Rightarrow> version_info \<Rightarrow> version_info" where
  "GC_VersionInfo clr result =
     result\<lparr>MajorVersion := gc_interface_major_version clr,
            MinorVersion := gc_interface_minor_version clr,
            BuildVersion := 0,
            Name := ''uGC''\<rparr>"

text \<open>
  The state \<open>GC_Initialize\<close> leaves is one from which a run of the heap starts.
\<close>

lemma GC_Initialize_starts:
  assumes "GC_Initialize clr c = (hr, h, hm)" and "world_start w"
  shows "gc_start \<lparr>heap = h, wld = w, served_bytes = 0, segs = []\<rparr>"
  using assms by (auto simp: GC_Initialize_def gc_start_def new_uGCHeap_def Let_def)

end
