(* ===== verification/Alloc_Facts.thy ===== *)
theory Alloc_Facts
  imports Alloc_World
begin

text \<open>
  What a client of the allocator sees in a reachable state: a new object is zero and is its
  own, old objects keep their bytes, memory is never given back, objects are aligned when
  their sizes are, and the core's bump is the runtime's inline bump.
\<close>

section \<open>The inline bump\<close>

text \<open>The state the runtime's inline allocation of \<open>sz\<close> bytes leaves, when it fits.\<close>

definition inline_bump ::
  "'w::len word \<Rightarrow> 'w word \<Rightarrow> 'w word \<Rightarrow> ('w word, 'm) cmem_scheme \<Rightarrow>
   ('w word \<times> ('w word, 'm) cmem_scheme) option" where
  "inline_bump pp lp sz m =
     (case window m (pp, lp) of
        None \<Rightarrow> None
      | Some (p, l) \<Rightarrow>
          if unat p + unat sz \<le> unat l
          then Some (p, m\<lparr>cells := (cells m)(pp \<mapsto> p + sz)\<rparr>) else None)"

lemma core_alloc_inline:
  fixes m :: "('w::len word, 'm) cmem_scheme"
  assumes t: "rv_target TYPE('w)" and req: "core_alloc_requires m pp lp hdr"
    and i: "inline_bump pp lp sz m = Some (r, m')"
    and q: "unat sz + unat hdr \<le> 65536" and pp: "pp \<noteq> 0"
  shows "ugc_core_alloc zalloc pp lp sz False hdr m = Some (r, m')"
proof -
  from i obtain l where c: "cells m pp = Some r" "cells m lp = Some l" "r \<noteq> 0"
    and fits: "unat r + unat sz \<le> unat l" and m': "m' = m\<lparr>cells := (cells m)(pp \<mapsto> r + sz)\<rparr>"
    by (auto simp: inline_bump_def window_def split: option.splits if_splits)
  have "unat sz + unat hdr < 2 ^ LENGTH('w)"
    using q target_pow_le [OF t] by simp
  then have no: "\<not> sz > - 1 - hdr" by (simp add: gt_max_minus_iff)
  then have "\<not> sz + hdr > UGC_ALLOC_QUANTUM" using q by (simp add: over_quantum_iff [OF t])
  moreover have "l - r \<ge> sz" using fits by (simp add: fits_iff)
  moreover have "pp \<in> dom (cells m)" using c by blast
  ultimately show ?thesis
    using no pp c m' by (simp add: ugc_core_alloc_def)
qed

section \<open>Memory only grows\<close>

lemma env_step_blocks: "env_step hdr s s' \<Longrightarrow> blocks (mem s') = blocks (mem s)"
  by (erule env_stepE) auto

context zeroing_allocator
begin

lemma zalloc_blocks_suffix: "zalloc n m = (p, m') \<Longrightarrow> \<exists>new. blocks m' = new @ blocks m"
  by (cases "p = 0") (auto dest: zalloc_null zalloc_block)

lemma core_alloc_blocks:
  assumes "ugc_core_alloc zalloc pp lp sz bypass hdr m = Some (r, m')"
  shows "\<exists>new. blocks m' = new @ blocks m"
  using assms
proof (cases rule: core_alloc_cases)
  case (direct a)
  then show ?thesis using zalloc_blocks_suffix by blast
next
  case (refill p)
  from refill(7) show ?thesis
  proof (cases rule: ctx_refill_cases)
    case null
    then show ?thesis using zalloc_blocks_suffix by blast
  next
    case (fresh a m1)
    with zalloc_blocks_suffix [OF fresh(2)] show ?thesis by simp
  qed
qed simp_all

lemma alloc_step_grows:
  assumes "alloc_step zalloc hdr s s'"
  shows "(\<exists>new. blocks (mem s') = new @ blocks (mem s)) \<and> (\<exists>new. objs s' = new @ objs s)"
  using assms
proof cases
  case (call pp lp sz bypass r m')
  with core_alloc_blocks [OF call(3)] show ?thesis by simp
next
  case env
  then have "blocks (mem s') = blocks (mem s)" by (rule env_step_blocks)
  moreover have "\<exists>new. objs s' = new @ objs s"
    using env by (elim env_stepE) auto
  ultimately show ?thesis by simp
qed

text \<open>A call leaves a memory and a context the next call can work on.\<close>

lemma core_alloc_mem_ok:
  assumes "ugc_core_alloc zalloc pp lp sz bypass hdr m = Some (r, m')" and "mem_ok m"
  shows "mem_ok m'"
  using assms(1)
proof (cases rule: core_alloc_cases)
  case (direct a)
  show ?thesis by (rule zalloc_mem_ok [OF direct(3) assms(2)])
next
  case (refill p)
  from refill(7) show ?thesis
  proof (cases rule: ctx_refill_cases)
    case null
    show ?thesis by (rule zalloc_mem_ok [OF null(1) assms(2)])
  next
    case (fresh a m1)
    with zalloc_mem_ok [OF fresh(2) assms(2)] show ?thesis by simp
  qed
qed (use assms in simp_all)

lemma requires_mono:
  assumes "core_alloc_requires m pp lp hdr" and "cells m' = cells m"
    and "set (blocks m) \<subseteq> set (blocks m')"
  shows "core_alloc_requires m' pp lp hdr"
  using assms valid_bytes_mono [OF assms(3)]
  by (auto simp: core_alloc_requires_def context_window_def split: option.splits)

lemma core_alloc_keeps_requires:
  assumes t: "rv_target TYPE('w)" and req: "core_alloc_requires m pp lp hdr"
    and run: "ugc_core_alloc zalloc pp lp sz bypass hdr m = Some (r, m')"
  shows "core_alloc_requires m' pp lp hdr"
  using run
proof (cases rule: core_alloc_cases)
  case overflow
  with req show ?thesis by simp
next
  case (direct a)
  show ?thesis
    using zalloc_cells [OF direct(3)] zalloc_blocks_grow [OF direct(3)]
    by (intro requires_mono [OF req]) auto
next
  case (bump l)
  have ne: "pp \<noteq> lp" and w: "context_window m r l"
    using req bump by (auto simp: core_alloc_requires_def)
  then have fits: "unat r + unat sz \<le> unat l" using bump(8) by (simp add: context_window_def fits_iff)
  have "unat l < 2 ^ LENGTH('w)" by simp
  with fits have "unat (r + sz) = unat r + unat sz" by (intro unat_add_small) linarith
  with w fits have "context_window m (r + sz) l"
    by (auto simp: context_window_def elim: valid_bytes_sub)
  then show ?thesis
    using req bump ne by (simp add: core_alloc_requires_def context_window_def)
next
  case (refill p)
  have ne: "pp \<noteq> lp" and h: "unat hdr \<le> 65536" and h1: "1 \<le> unat hdr" "unat hdr \<le> 65536 div 2"
    using req refill by (auto simp: core_alloc_requires_def split: option.splits)
  have fits: "unat sz + unat hdr \<le> 65536"
    using refill(4) by (simp add: over_quantum_iff [OF t refill(1)])
  from refill(7) show ?thesis
  proof (cases rule: ctx_refill_cases)
    case null
    show ?thesis
      using zalloc_cells [OF null(1)] zalloc_blocks_grow [OF null(1)]
      by (intro requires_mono [OF req]) auto
  next
    case (fresh a m1)
    note u = fresh_result [OF t fresh(2,1) h]
    note v = u(4) [OF fits]
    have "valid_bytes m1 (a + hdr + sz) (65536 - unat hdr - unat sz)"
      using u(1) v fits by (intro valid_bytes_sub [OF u(5)]) auto
    then have "context_window m1 (a + hdr + sz) (a + UGC_ALLOC_QUANTUM)"
      using u(3) v fits by (simp add: context_window_def)
    then show ?thesis
      using fresh ne h1 by (simp add: core_alloc_requires_def context_window_def)
  qed
qed

section \<open>A call changes no byte of an old object and returns a zero object\<close>

lemma core_alloc_keeps:
  assumes run: "ugc_core_alloc zalloc pp lp sz bypass hdr m = Some (r, m')"
    and b: "b \<in> set (blocks m)" "fst (block_span b) \<le> unat x" "unat x < snd (block_span b)"
  shows "bytes m' x = bytes m x"
  using run
proof (cases rule: core_alloc_cases)
  case (direct a)
  show ?thesis by (rule zalloc_keeps [OF direct(3) b])
next
  case (refill p)
  from refill(7) show ?thesis
  proof (cases rule: ctx_refill_cases)
    case null
    show ?thesis by (rule zalloc_keeps [OF null(1) b])
  next
    case (fresh a m1)
    with zalloc_keeps [OF fresh(2) b] show ?thesis by simp
  qed
qed simp_all

lemma call_keeps_objects:
  assumes inv: "world_inv hdr s" and ob: "ob \<in> set (objs s)"
    and run: "ugc_core_alloc zalloc pp lp sz bypass hdr (mem s) = Some (r, m')"
    and x: "fst (obj_span hdr ob) \<le> unat x" "unat x < snd (obj_span hdr ob)"
  shows "bytes m' x = bytes (mem s) x"
proof -
  have "object_ok hdr (mem s) ob" using inv ob by (simp add: world_inv_def)
  from object_in_block [OF this] obtain b where
    "b \<in> set (blocks (mem s))" "inside (obj_span hdr ob) (block_span b)"
    by (auto simp: in_block_def)
  with x core_alloc_keeps [OF run] show ?thesis by (auto simp: inside_def)
qed

lemma zalloc_zero_span:
  assumes "zalloc n m = (a, m')" and "a \<noteq> 0"
  shows "zero_span m' (unat a, unat a + unat n)"
  using zalloc_zeroed [OF assms] by (simp add: zeroed_def zero_span_def)

lemma call_result_zero:
  assumes t: "rv_target TYPE('w)" and inv: "world_inv hdr s"
    and c: "pp = 0 \<or> (pp, lp) \<in> set (ctxs s)"
    and run: "ugc_core_alloc zalloc pp lp sz bypass hdr (mem s) = Some (r, m')" and r: "r \<noteq> 0"
  shows "zero_span m' (unat r - unat hdr, unat r + unat sz)"
  using t inv c run
proof (cases rule: core_call_cases)
  case null
  with r show ?thesis by simp
next
  case (direct a)
  note u = direct_result(1) [OF direct(1-3)] not_overflow_unat [OF direct(1)]
  with zalloc_zero_span [OF direct(2,3)] direct(4) show ?thesis by (simp add: ac_simps)
next
  case (bump l)
  then have "inside (unat r - unat hdr, unat r + unat sz) (win_span hdr (r, l))"
    by (simp add: inside_def win_span_def)
  with world_inv_window(1) [OF inv bump(1,2)] bump(5) show ?thesis
    by (auto simp: window_ok_def elim: zero_span_inside)
next
  case (refill a m1)
  have h: "unat hdr \<le> 65536" using refill(2) by simp
  have "zero_span m1 (unat a, unat a + 65536)"
    using zalloc_zero_span [OF refill(3,4)] unat_quantum [OF t] by simp
  moreover have "inside (unat r - unat hdr, unat r + unat sz) (unat a, unat a + 65536)"
    using fresh_result(1) [OF t refill(3,4) h] refill(2,5) by (simp add: inside_def)
  ultimately show ?thesis using refill(7) by (auto elim: zero_span_inside)
qed

end

section \<open>Alignment\<close>

text \<open>While every size so far is a multiple of 8, so is the start of every window and
  object.\<close>

definition aligned_sizes :: "('w::len, 'm) mworld \<Rightarrow> bool" where
  "aligned_sizes s \<longleftrightarrow> (\<forall>ob \<in> set (objs s). 8 dvd snd ob)"

definition aligned_world :: "('w::len, 'm) mworld \<Rightarrow> bool" where
  "aligned_world s \<longleftrightarrow>
     (\<forall>ob \<in> set (objs s). 8 dvd unat (fst ob)) \<and>
     (\<forall>c \<in> set (ctxs s). \<forall>w. window (mem s) c = Some w \<longrightarrow> 8 dvd unat (fst w))"

lemma aligned_sizes_mono: "aligned_sizes s' \<Longrightarrow> objs s' = new @ objs s \<Longrightarrow> aligned_sizes s"
  by (simp add: aligned_sizes_def)

lemma aligned_bump:
  fixes p sz :: "'w::len word"
  assumes inv: "world_inv hdr s" and al: "aligned_world s" and c: "(pp, lp) \<in> set (ctxs s)"
    and w: "window (mem s) (pp, lp) = Some (p, l)" and fits: "unat p + unat sz \<le> unat l"
    and sz: "8 dvd unat sz"
  shows "aligned_world
    (s\<lparr>mem := (mem s)\<lparr>cells := (cells (mem s))(pp \<mapsto> p + sz)\<rparr>, objs := (p, unat sz) # objs s\<rparr>)"
proof -
  have cs: "ctxs_ok (mem s) (ctxs s)" using inv by (simp add: world_inv_def)
  have "unat l < 2 ^ LENGTH('w)" by simp
  with fits have u: "unat (p + sz) = unat p + unat sz" by (intro unat_add_small) linarith
  have p: "8 dvd unat p" using al c w by (force simp: aligned_world_def)
  have "pp \<noteq> lp" using cs c by (force simp: ctxs_ok_def)
  then have "(cells (mem s))(pp \<mapsto> p + sz) = (cells (mem s))(fst (pp, lp) \<mapsto> p + sz, snd (pp, lp) \<mapsto> l)"
    using w by (auto simp: window_Some_iff fun_eq_iff)
  then show ?thesis
    using al p u sz window_upd [OF cs c] unfolding aligned_world_def
    by (auto simp del: fst_conv snd_conv split: if_splits) auto
qed

lemma aligned_env:
  fixes s s' :: "('w::len, 'm) mworld"
  assumes step: "env_step hdr s s'" and inv: "world_inv hdr s" and al: "aligned_world s"
    and sz: "aligned_sizes s'"
  shows "aligned_world s'"
  using step
proof cases
  case (inline pp lp p l n)
  with sz have "8 dvd unat n" by (simp add: aligned_sizes_def)
  with aligned_bump [OF inv al inline(2-4)] inline(1) show ?thesis by simp
next
  case (mutate ob x v)
  show ?thesis using al unfolding mutate(1) by (simp add: aligned_world_def)
next
  case (attach pp lp)
  have "window ((mem s)\<lparr>cells := (cells (mem s))(pp \<mapsto> 0, lp \<mapsto> 0)\<rparr>) c = window (mem s) c"
    if "c \<in> set (ctxs s)" for c
    using attach(4) that by (auto simp: window_def)
  moreover have "window ((mem s)\<lparr>cells := (cells (mem s))(pp \<mapsto> 0, lp \<mapsto> 0)\<rparr>) (pp, lp) = None"
    using attach(3) by (simp add: window_def)
  ultimately show ?thesis using al unfolding attach(1) aligned_world_def by simp
qed

context zeroing_allocator
begin

lemma aligned_call:
  assumes t: "rv_target TYPE('w)" and h: "8 dvd unat hdr" and inv: "world_inv hdr s"
    and al: "aligned_world s" and c: "pp = 0 \<or> (pp, lp) \<in> set (ctxs s)"
    and run: "ugc_core_alloc zalloc pp lp sz bypass hdr (mem s) = Some (r, m')"
    and sz: "r \<noteq> 0 \<Longrightarrow> 8 dvd unat sz"
  shows "aligned_world
    (s\<lparr>mem := m', objs := (if r = 0 then objs s else (r, unat sz) # objs s)\<rparr>)"
proof -
  have w: "window m d = window (mem s) d" if "zalloc n (mem s) = (a, m)" for n a m d
    using zalloc_cells [OF that] by (intro window_cells) blast
  from t inv c run show ?thesis
  proof (cases rule: core_call_cases)
    case null
    with al w show ?thesis by (auto simp: aligned_world_def)
  next
    case (direct a)
    have "8 dvd unat (a + hdr)"
      using direct_result(1) [OF direct(1-3)] zalloc_room(2) [OF direct(2,3)] h by presburger
    with al direct w [OF direct(2)] show ?thesis by (simp add: aligned_world_def)
  next
    case (bump l)
    with aligned_bump [OF inv al bump(1-3)] sz show ?thesis by simp
  next
    case (refill a m1)
    have "unat hdr \<le> 65536" using refill(2) by simp
    note u = fresh_result [OF t refill(3,4) this] zalloc_room(2) [OF refill(3,4)]
    have r: "8 dvd unat r" using u(1,7) refill(5) h by presburger
    then have p: "8 dvd unat (r + sz)" using u(4) [OF refill(2)] u(1) refill(5,6) sz by simp
    have cs: "ctxs_ok m1 (ctxs s)"
      using world_inv_zalloc [OF inv refill(3)] by (simp add: world_inv_def)
    have "window m' d = (if d = (pp, lp) then if r + sz = 0 then None
        else Some (r + sz, a + UGC_ALLOC_QUANTUM) else window (mem s) d)"
      if "d \<in> set (ctxs s)" for d
      using window_upd [OF cs refill(1) that] w [OF refill(3)] refill(5,7) by simp
    with al r p refill(6) show ?thesis by (auto simp: aligned_world_def split: if_splits)
  qed
qed

lemma alloc_reach_aligned:
  assumes "rv_target TYPE('w)" and "1 \<le> unat hdr" and h: "8 dvd unat hdr"
    and "alloc_reach zalloc hdr s" and "aligned_sizes s"
  shows "aligned_world s"
  using assms(4,5)
proof induction
  case (start s)
  then show ?case by (simp add: world_start_def aligned_world_def)
next
  case (step s t)
  note inv = alloc_reach_inv [OF assms(1,2) step.hyps(1)]
  have al: "aligned_world s"
    using step alloc_step_grows [OF step.hyps(2)] aligned_sizes_mono by blast
  from step.hyps(2) show ?case
  proof cases
    case (call pp lp sz bypass r m')
    have "8 dvd unat sz" if "r \<noteq> 0"
      using step.prems that call(1) by (simp add: aligned_sizes_def)
    with aligned_call [OF assms(1) h inv al call(2,3)] call(1) show ?thesis by simp
  next
    case env
    with aligned_env inv al step.prems show ?thesis by blast
  qed
qed

end

end
