(* ===== verification/Handle_Contracts.thy ===== *)
theory Handle_Contracts
  imports Handle_Spec
begin

text \<open>
  The ACSL contracts of \<open>ugc_core.h\<close> for the handle store, function by function: what a
  contract requires, which behaviour it assigns to a state, and what it ensures and allows
  to be assigned. The code is shown to meet each of them, and to return whenever the
  precondition holds. The contracts speak of \<open>ugc_store_consistent\<close> only, so nothing here
  rests on the stronger invariant of \<open>Handle_Spec\<close>.
\<close>

section \<open>What may be assigned\<close>

text \<open>\<open>assigns a[0 .. UGC_HANDLE_COUNT - 1]\<close> and \<open>assigns a[idx]\<close>.\<close>

definition assigns_array :: "'a carray \<Rightarrow> 'a carray \<Rightarrow> bool" where
  "assigns_array a b \<longleftrightarrow> (\<forall>k. UGC_HANDLE_COUNT \<le> k \<longrightarrow> b k = a k)"

definition assigns_elem :: "nat \<Rightarrow> 'a carray \<Rightarrow> 'a carray \<Rightarrow> bool" where
  "assigns_elem i a b \<longleftrightarrow> (\<forall>k. k \<noteq> i \<longrightarrow> b k = a k)"

lemma assigns_refl [simp]: "assigns_array a a" "assigns_elem i a a"
  by (simp_all add: assigns_array_def assigns_elem_def)

lemma assigns_upd [simp]:
  "i < UGC_HANDLE_COUNT \<Longrightarrow> assigns_array a (a(i := v))" "assigns_elem i a (a(i := v))"
  by (auto simp: assigns_array_def assigns_elem_def)

section \<open>Taking a slot\<close>

datatype acquire_behavior = Full | Recycled | Fresh

definition acquire_behavior :: "'w::len word gstate \<Rightarrow> acquire_behavior" where
  "acquire_behavior s =
     (if ugc_handle_free_count s > 0 then Recycled
      else if ugc_handle_count s < int UGC_HANDLE_COUNT then Fresh else Full)"

definition acquire_ensures :: "'w::len word gstate \<Rightarrow> int \<Rightarrow> 'w word gstate \<Rightarrow> bool" where
  "acquire_ensures s result s' \<longleftrightarrow>
     s' = s\<lparr>ugc_handle_count := ugc_handle_count s', ugc_handle_free_count := ugc_handle_free_count s'\<rparr> \<and>
     ugc_store_consistent s' \<and>
     (case acquire_behavior s of
        Full \<Rightarrow> result = - 1 \<and> s' = s
      | Recycled \<Rightarrow> ugc_handle_free_count s' = ugc_handle_free_count s - 1 \<and>
          ugc_handle_count s' = ugc_handle_count s \<and>
          result = ugc_handle_free_stack s' (nat (ugc_handle_free_count s')) \<and>
          0 \<le> result \<and> result < ugc_handle_count s'
      | Fresh \<Rightarrow> result = ugc_handle_count s \<and> ugc_handle_count s' = ugc_handle_count s + 1 \<and>
          ugc_handle_free_count s' = 0 \<and> 0 \<le> result \<and> result < ugc_handle_count s')"

lemma consistent_counts:
  assumes "ugc_store_consistent s"
  shows "0 \<le> ugc_handle_count s" "ugc_handle_count s \<le> int UGC_HANDLE_COUNT"
    "0 \<le> ugc_handle_free_count s"
  using assms unfolding ugc_store_consistent_def by blast+

lemma acquire_meets_contract:
  assumes c: "ugc_store_consistent s"
  shows "\<exists>r s'. ugc_handle_slot_acquire s = Some (r, s') \<and> acquire_ensures s r s'"
  using c
proof (cases rule: store_cases)
  case full
  with c show ?thesis
    by (simp add: acquire_full acquire_ensures_def acquire_behavior_def)
next
  case fresh
  have "ugc_store_consistent (s\<lparr>ugc_handle_count := ugc_handle_count s + 1\<rparr>)"
    using c fresh by (simp add: ugc_store_consistent_def)
  with fresh consistent_counts [OF c] show ?thesis
    by (simp add: acquire_fresh [OF c fresh] acquire_ensures_def acquire_behavior_def)
next
  case recycled
  let ?k = "ugc_handle_free_count s - 1"
  have "nat ?k < nat (ugc_handle_free_count s)" using recycled by simp
  then have "0 \<le> ugc_handle_free_stack s (nat ?k) \<and> ugc_handle_free_stack s (nat ?k) < ugc_handle_count s"
    using c unfolding ugc_store_consistent_def by blast
  moreover have "ugc_store_consistent (s\<lparr>ugc_handle_free_count := ?k\<rparr>)"
    using c recycled by (auto simp: ugc_store_consistent_def)
  ultimately show ?thesis
    using recycled by (simp add: acquire_recycled [OF c recycled] acquire_ensures_def acquire_behavior_def)
qed

section \<open>Creating a handle\<close>

text \<open>The three contracts differ in the extra info and the secondary of the new slot only.\<close>

definition slot_has ::
  "'w::len word gstate \<Rightarrow> nat \<Rightarrow> 'w word \<Rightarrow> int \<Rightarrow> 'w word \<Rightarrow> 'w word \<Rightarrow> bool" where
  "slot_has s i object type extra secondary \<longleftrightarrow>
     ugc_handles s i = object \<and> ugc_handle_types s i = type \<and>
     ugc_handle_extra s i = extra \<and> ugc_handle_dependent s i = secondary"

definition create_ensures ::
  "'w::len word layout \<Rightarrow> 'w word \<Rightarrow> int \<Rightarrow> 'w word \<Rightarrow> 'w word \<Rightarrow> 'w word gstate \<Rightarrow> 'w word \<Rightarrow>
   'w word gstate \<Rightarrow> bool" where
  "create_ensures lay object type extra secondary s result s' \<longleftrightarrow>
     cmem.truncate s' = cmem.truncate s \<and>
     ugc_handle_free_stack s' = ugc_handle_free_stack s \<and>
     assigns_array (ugc_handles s) (ugc_handles s') \<and>
     assigns_array (ugc_handle_types s) (ugc_handle_types s') \<and>
     assigns_array (ugc_handle_extra s) (ugc_handle_extra s') \<and>
     assigns_array (ugc_handle_dependent s) (ugc_handle_dependent s') \<and>
     ugc_store_consistent s' \<and>
     (case acquire_behavior s of
        Full \<Rightarrow> result = 0 \<and> ugc_handle_count s' = ugc_handle_count s \<and>
          ugc_handle_free_count s' = ugc_handle_free_count s
      | Recycled \<Rightarrow> ugc_handle_free_count s' = ugc_handle_free_count s - 1 \<and>
          ugc_handle_count s' = ugc_handle_count s \<and>
          (let i = nat (ugc_handle_free_stack s' (nat (ugc_handle_free_count s'))) in
           result = elem_addr (addr_handles lay) i \<and> slot_has s' i object type extra secondary)
      | Fresh \<Rightarrow>
          (let i = nat (ugc_handle_count s) in
           result = elem_addr (addr_handles lay) i \<and> slot_has s' i object type extra secondary) \<and>
          ugc_handle_count s' = ugc_handle_count s + 1 \<and> ugc_handle_free_count s' = 0)"

definition create_plain_ensures ::
  "'w::len word layout \<Rightarrow> 'w word \<Rightarrow> int \<Rightarrow> 'w word gstate \<Rightarrow> 'w word \<Rightarrow> 'w word gstate \<Rightarrow> bool" where
  "create_plain_ensures lay object type = create_ensures lay object type 0 0"

definition create_with_extra_ensures ::
  "'w::len word layout \<Rightarrow> 'w word \<Rightarrow> int \<Rightarrow> 'w word \<Rightarrow> 'w word gstate \<Rightarrow> 'w word \<Rightarrow>
   'w word gstate \<Rightarrow> bool" where
  "create_with_extra_ensures lay object type extra = create_ensures lay object type extra 0"

definition create_dependent_ensures ::
  "'w::len word layout \<Rightarrow> 'w word \<Rightarrow> 'w word \<Rightarrow> int \<Rightarrow> 'w word gstate \<Rightarrow> 'w word \<Rightarrow>
   'w word gstate \<Rightarrow> bool" where
  "create_dependent_ensures lay primary secondary type = create_ensures lay primary type 0 secondary"

lemma truncate_filled [simp]: "cmem.truncate (filled i ob t e d s) = cmem.truncate s"
  by (simp add: cmem.defs)

lemma slot_has_filled [simp]: "slot_has (filled i ob t e d s) i ob t e d"
  by (simp add: slot_has_def)

lemma consistent_filled [simp]:
  "ugc_store_consistent (filled i ob t e d s) = ugc_store_consistent s"
  by (simp add: ugc_store_consistent_def)

lemma create_meets_contract:
  assumes c: "ugc_store_consistent s"
  shows "\<exists>r s'. create_slot lay ob t e d s = Some (r, s') \<and> create_ensures lay ob t e d s r s'"
  using c
proof (cases rule: store_cases)
  case full
  with c show ?thesis by (simp add: create_full create_ensures_def acquire_behavior_def)
next
  case fresh
  let ?i = "nat (ugc_handle_count s)"
  have "?i < UGC_HANDLE_COUNT" using fresh consistent_counts [OF c] by simp
  moreover have "ugc_store_consistent (s\<lparr>ugc_handle_count := ugc_handle_count s + 1\<rparr>)"
    using c fresh by (simp add: ugc_store_consistent_def)
  moreover have "cmem.truncate (s\<lparr>ugc_handle_count := ugc_handle_count s + 1\<rparr>) = cmem.truncate s"
    by (simp add: cmem.defs)
  ultimately show ?thesis
    using fresh by (simp add: create_fresh [OF c fresh] create_ensures_def acquire_behavior_def)
next
  case recycled
  let ?i = "nat (ugc_handle_free_stack s (nat (ugc_handle_free_count s - 1)))"
  have "?i < UGC_HANDLE_COUNT"
    using create_recycled(2) [OF c recycled] consistent_counts [OF c] by linarith
  moreover have "ugc_store_consistent (s\<lparr>ugc_handle_free_count := ugc_handle_free_count s - 1\<rparr>)"
    using c recycled by (auto simp: ugc_store_consistent_def)
  moreover have "cmem.truncate (s\<lparr>ugc_handle_free_count := ugc_handle_free_count s - 1\<rparr>) = cmem.truncate s"
    by (simp add: cmem.defs)
  ultimately show ?thesis
    using recycled
    by (simp add: create_recycled(1) [OF c recycled] create_ensures_def acquire_behavior_def)
qed

section \<open>Destroying a handle\<close>

definition destroy_requires :: "'w::len word \<Rightarrow> 'w word gstate \<Rightarrow> bool" where
  "destroy_requires idx s \<longleftrightarrow> ugc_store_consistent s \<and> int (unat idx) < ugc_handle_count s"

definition destroy_ensures :: "'w::len word \<Rightarrow> 'w word gstate \<Rightarrow> 'w word gstate \<Rightarrow> bool" where
  "destroy_ensures idx s s' \<longleftrightarrow>
     cmem.truncate s' = cmem.truncate s \<and> ugc_handle_count s' = ugc_handle_count s \<and>
     assigns_array (ugc_handle_free_stack s) (ugc_handle_free_stack s') \<and>
     assigns_elem (unat idx) (ugc_handles s) (ugc_handles s') \<and>
     assigns_elem (unat idx) (ugc_handle_types s) (ugc_handle_types s') \<and>
     assigns_elem (unat idx) (ugc_handle_extra s) (ugc_handle_extra s') \<and>
     assigns_elem (unat idx) (ugc_handle_dependent s) (ugc_handle_dependent s') \<and>
     ugc_store_consistent s' \<and>
     (if ugc_handle_types s (unat idx) < 0 \<or> ugc_handle_free_count s = int UGC_HANDLE_COUNT
      then s' = s
      else slot_has s' (unat idx) 0 UGC_HANDLE_TYPE_FREE 0 0 \<and>
        ugc_handle_free_count s' = ugc_handle_free_count s + 1 \<and>
        ugc_handle_free_stack s' (nat (ugc_handle_free_count s)) = int (unat idx))"

lemma destroy_meets_contract:
  fixes idx :: "'w::len word"
  assumes "destroy_requires idx s"
  shows "\<exists>s'. ugc_handle_destroy_at idx s = Some s' \<and> destroy_ensures idx s s'"
proof -
  have c: "ugc_store_consistent s" and i: "int (unat idx) < ugc_handle_count s"
    using assms by (auto simp only: destroy_requires_def)
  note n = consistent_counts [OF c]
  have cap: "unat idx < UGC_HANDLE_COUNT" using i n by linarith
  show ?thesis
  proof (cases "ugc_handle_types s (unat idx) < 0 \<or> ugc_handle_free_count s = int UGC_HANDLE_COUNT")
    case True
    with c show ?thesis by (simp add: destroy_noop [OF cap True] destroy_ensures_def)
  next
    case False
    have k: "ugc_handle_free_count s < int UGC_HANDLE_COUNT"
      using c False by (simp add: ugc_store_consistent_def)
    have "nat (ugc_handle_free_count s + 1) = Suc (nat (ugc_handle_free_count s))" using n by simp
    then have "ugc_store_consistent (destroyed (unat idx) s)"
      using c k i n by (auto simp: ugc_store_consistent_def less_Suc_eq)
    moreover have "cmem.truncate (destroyed (unat idx) s) = cmem.truncate s"
      by (simp add: cmem.defs)
    moreover have "nat (ugc_handle_free_count s) < UGC_HANDLE_COUNT" using k n by simp
    ultimately show ?thesis
      using destroy_frees [OF cap _ n(3) k] False
      by (simp add: destroy_ensures_def slot_has_def)
  qed
qed

section \<open>Accessors\<close>

definition index_requires :: "'w::len word \<Rightarrow> bool" where
  "index_requires idx \<longleftrightarrow> unat idx < UGC_HANDLE_COUNT"

text \<open>Each setter changes one element of its array and no other global; the getters and the
  slot address change nothing.\<close>

definition dependent_slot_ensures :: "'w::len word layout \<Rightarrow> 'w word \<Rightarrow> 'w word \<Rightarrow> bool" where
  "dependent_slot_ensures lay idx result \<longleftrightarrow>
     result = elem_addr (addr_dependent lay) (unat idx)"

definition get_type_ensures :: "'w::len word \<Rightarrow> 'w word gstate \<Rightarrow> int \<Rightarrow> bool" where
  "get_type_ensures idx s result \<longleftrightarrow> result = ugc_handle_types s (unat idx)"

definition get_extra_ensures :: "'w::len word \<Rightarrow> 'w word gstate \<Rightarrow> 'w word \<Rightarrow> bool" where
  "get_extra_ensures idx s result \<longleftrightarrow> result = ugc_handle_extra s (unat idx)"

definition set_dependent_ensures ::
  "'w::len word \<Rightarrow> 'w word \<Rightarrow> 'w word gstate \<Rightarrow> 'w word gstate \<Rightarrow> bool" where
  "set_dependent_ensures idx secondary s s' \<longleftrightarrow>
     s' = s\<lparr>ugc_handle_dependent := ugc_handle_dependent s'\<rparr> \<and>
     assigns_elem (unat idx) (ugc_handle_dependent s) (ugc_handle_dependent s') \<and>
     ugc_handle_dependent s' (unat idx) = secondary"

definition set_type_ensures ::
  "'w::len word \<Rightarrow> int \<Rightarrow> 'w word gstate \<Rightarrow> 'w word gstate \<Rightarrow> bool" where
  "set_type_ensures idx type s s' \<longleftrightarrow>
     s' = s\<lparr>ugc_handle_types := ugc_handle_types s'\<rparr> \<and>
     assigns_elem (unat idx) (ugc_handle_types s) (ugc_handle_types s') \<and>
     ugc_handle_types s' (unat idx) = type"

definition set_extra_ensures ::
  "'w::len word \<Rightarrow> 'w word \<Rightarrow> 'w word gstate \<Rightarrow> 'w word gstate \<Rightarrow> bool" where
  "set_extra_ensures idx extra s s' \<longleftrightarrow>
     s' = s\<lparr>ugc_handle_extra := ugc_handle_extra s'\<rparr> \<and>
     assigns_elem (unat idx) (ugc_handle_extra s) (ugc_handle_extra s') \<and>
     ugc_handle_extra s' (unat idx) = extra"

lemma accessors_meet_contracts:
  fixes idx :: "'w::len word"
  assumes "index_requires idx"
  shows "\<exists>q. ugc_handle_dependent_slot_at lay idx = Some q \<and> dependent_slot_ensures lay idx q"
    and "\<exists>ty. ugc_handle_get_type_at idx s = Some ty \<and> get_type_ensures idx s ty"
    and "\<exists>e. ugc_handle_get_extra_at idx s = Some e \<and> get_extra_ensures idx s e"
    and "\<exists>s'. ugc_handle_set_dependent_at idx v s = Some s' \<and> set_dependent_ensures idx v s s'"
    and "\<exists>s'. ugc_handle_set_type_at idx t s = Some s' \<and> set_type_ensures idx t s s'"
    and "\<exists>s'. ugc_handle_set_extra_at idx v s = Some s' \<and> set_extra_ensures idx v s s'"
  using assms index_in_range [of idx]
  by (simp_all add: index_requires_def ugc_handle_dependent_slot_at_def ugc_handle_get_type_at_def
      ugc_handle_get_extra_at_def ugc_handle_set_dependent_at_def ugc_handle_set_type_at_def
      ugc_handle_set_extra_at_def set_dependent_ensures_def set_type_ensures_def
      set_extra_ensures_def dependent_slot_ensures_def get_type_ensures_def get_extra_ensures_def)

section \<open>Slot operations\<close>

text \<open>\<open>\valid(slot)\<close>: the pointer points to an object slot. \<open>assigns *slot\<close>: what any other
  pointer points to is unchanged, and so is everything no slot pointer reaches.\<close>

definition valid_slot_ptr :: "'w::len word layout \<Rightarrow> 'w word \<Rightarrow> 'w word gstate \<Rightarrow> bool" where
  "valid_slot_ptr lay slot s \<longleftrightarrow> load_slot lay slot s \<noteq> None"

definition assigns_slot ::
  "'w::len word layout \<Rightarrow> 'w word \<Rightarrow> 'w word gstate \<Rightarrow> 'w word gstate \<Rightarrow> bool" where
  "assigns_slot lay slot s s' \<longleftrightarrow>
     same_slots s s' \<and> ugc_handle_extra s' = ugc_handle_extra s \<and>
     blocks s' = blocks s \<and> bytes s' = bytes s \<and> i64s s' = i64s s \<and>
     (\<forall>q. q \<noteq> slot \<longrightarrow> load_slot lay q s' = load_slot lay q s)"

definition slot_store_ensures ::
  "'w::len word layout \<Rightarrow> 'w word \<Rightarrow> 'w word \<Rightarrow> 'w word gstate \<Rightarrow> 'w word gstate \<Rightarrow> bool" where
  "slot_store_ensures lay slot object s s' \<longleftrightarrow>
     assigns_slot lay slot s s' \<and> load_slot lay slot s' = Some object"

definition store_if_null_ensures ::
  "'w::len word layout \<Rightarrow> 'w word \<Rightarrow> 'w word \<Rightarrow> 'w word gstate \<Rightarrow> bool \<Rightarrow> 'w word gstate \<Rightarrow> bool" where
  "store_if_null_ensures lay slot object s result s' \<longleftrightarrow>
     assigns_slot lay slot s s' \<and>
     (if load_slot lay slot s = Some 0
      then load_slot lay slot s' = Some object \<and> result
      else load_slot lay slot s' = load_slot lay slot s \<and> \<not> result)"

definition slot_cas_ensures ::
  "'w::len word layout \<Rightarrow> 'w word \<Rightarrow> 'w word \<Rightarrow> 'w word \<Rightarrow> 'w word gstate \<Rightarrow> 'w word \<Rightarrow>
   'w word gstate \<Rightarrow> bool" where
  "slot_cas_ensures lay slot object comparand s result s' \<longleftrightarrow>
     assigns_slot lay slot s s' \<and>
     (if load_slot lay slot s = Some comparand
      then load_slot lay slot s' = Some object \<and> result = object
      else load_slot lay slot s' = load_slot lay slot s \<and> load_slot lay slot s = Some result)"

lemma assigns_slot_refl: "assigns_slot lay slot s s"
  by (simp add: assigns_slot_def same_slots_refl)

lemma save_assigns_slot:
  assumes run: "save_slot lay slot v s = Some s'"
  shows "assigns_slot lay slot s s'"
proof -
  have "ugc_handle_extra s' = ugc_handle_extra s \<and> blocks s' = blocks s \<and> bytes s' = bytes s \<and>
      i64s s' = i64s s"
    using run by (rule save_slot_cases) simp_all
  with save_slot_same [OF run] load_save_other [OF run] show ?thesis
    by (auto simp: assigns_slot_def)
qed

lemma slots_meet_contracts:
  assumes "valid_slot_ptr lay slot s"
  shows "\<exists>s'. ugc_handle_slot_store lay slot ob s = Some s' \<and> slot_store_ensures lay slot ob s s'"
    and "\<exists>b s'. ugc_handle_slot_store_if_null lay slot ob s = Some (b, s') \<and>
      store_if_null_ensures lay slot ob s b s'"
    and "\<exists>r s'. ugc_handle_slot_cas lay slot ob c s = Some (r, s') \<and>
      slot_cas_ensures lay slot ob c s r s'"
proof -
  obtain v where v: "load_slot lay slot s = Some v"
    using assms by (auto simp: valid_slot_ptr_def)
  from load_Some_save [OF v] obtain s1 where s1: "save_slot lay slot ob s = Some s1" by blast
  note facts = v s1 save_assigns_slot [OF s1] load_save_same [OF s1] assigns_slot_refl [of lay slot s]
  show "\<exists>s'. ugc_handle_slot_store lay slot ob s = Some s' \<and> slot_store_ensures lay slot ob s s'"
    using facts by (simp add: ugc_handle_slot_store_def slot_store_ensures_def)
  show "\<exists>b s'. ugc_handle_slot_store_if_null lay slot ob s = Some (b, s') \<and>
      store_if_null_ensures lay slot ob s b s'"
    using facts by (simp add: ugc_handle_slot_store_if_null_def store_if_null_ensures_def) blast
  show "\<exists>r s'. ugc_handle_slot_cas lay slot ob c s = Some (r, s') \<and>
      slot_cas_ensures lay slot ob c s r s'"
    using facts by (simp add: ugc_handle_slot_cas_def slot_cas_ensures_def)
qed

section \<open>Reset\<close>

definition reset_ensures :: "'w::len word gstate \<Rightarrow> 'w word gstate \<Rightarrow> bool" where
  "reset_ensures s s' \<longleftrightarrow>
     cmem.truncate s' = cmem.truncate s \<and>
     assigns_array (ugc_handles s) (ugc_handles s') \<and>
     assigns_array (ugc_handle_types s) (ugc_handle_types s') \<and>
     assigns_array (ugc_handle_extra s) (ugc_handle_extra s') \<and>
     assigns_array (ugc_handle_dependent s) (ugc_handle_dependent s') \<and>
     assigns_array (ugc_handle_free_stack s) (ugc_handle_free_stack s') \<and>
     ugc_handle_count s' = 0 \<and> ugc_handle_free_count s' = 0 \<and> ugc_store_consistent s' \<and>
     (\<forall>i < UGC_HANDLE_COUNT. slot_has s' i 0 0 0 0 \<and> ugc_handle_free_stack s' i = 0)"

lemma assigns_zero_from [simp]: "assigns_array a (zero_from i a)"
  by (simp add: assigns_array_def zero_from_def)

lemma reset_meets_contract:
  "\<exists>s'. ugc_handle_store_reset s = Some s' \<and> reset_ensures s s'"
proof -
  have "ugc_store_consistent (the (ugc_handle_store_reset s))"
    by (simp add: store_reset_result ugc_store_consistent_def)
  then show ?thesis
    by (simp add: store_reset_result reset_ensures_def slot_has_def zero_from_def [of 0] cmem.defs)
      (simp add: zero_from_def assigns_array_def)
qed

text \<open>
  The loop annotations. \<open>zeroed_below s i\<close> is the quantified invariant; \<open>reset_invariant s0 i s\<close>
  adds the range of \<open>i\<close> and the \<open>loop assigns\<close> clause, with \<open>s0\<close> the state before the loop.
  One round is the body of \<open>reset_loop\<close> without its recursive call.
\<close>

definition zeroed_below :: "'w::len word gstate \<Rightarrow> int \<Rightarrow> bool" where
  "zeroed_below s i \<longleftrightarrow>
     (\<forall>k < nat i. slot_has s k 0 0 0 0 \<and> ugc_handle_free_stack s k = 0)"

definition reset_invariant :: "'w::len word gstate \<Rightarrow> int \<Rightarrow> 'w word gstate \<Rightarrow> bool" where
  "reset_invariant s0 i s \<longleftrightarrow>
     0 \<le> i \<and> i \<le> int UGC_HANDLE_COUNT \<and> zeroed_below s i \<and>
     cmem.truncate s = cmem.truncate s0 \<and>
     ugc_handle_count s = ugc_handle_count s0 \<and>
     ugc_handle_free_count s = ugc_handle_free_count s0 \<and>
     assigns_array (ugc_handles s0) (ugc_handles s) \<and>
     assigns_array (ugc_handle_types s0) (ugc_handle_types s) \<and>
     assigns_array (ugc_handle_extra s0) (ugc_handle_extra s) \<and>
     assigns_array (ugc_handle_dependent s0) (ugc_handle_dependent s) \<and>
     assigns_array (ugc_handle_free_stack s0) (ugc_handle_free_stack s)"

definition reset_variant :: "int \<Rightarrow> int" where
  "reset_variant i = int UGC_HANDLE_COUNT - i"

lemma assigns_array_upd:
  "assigns_array a b \<Longrightarrow> i < UGC_HANDLE_COUNT \<Longrightarrow> assigns_array a (b(i := v))"
  by (auto simp: assigns_array_def)

lemma reset_round:
  assumes inv: "reset_invariant s0 i s" and i: "i < int UGC_HANDLE_COUNT"
  shows "\<exists>s'. reset_loop i s = reset_loop (i + 1) s' \<and> reset_invariant s0 (i + 1) s' \<and>
    0 \<le> reset_variant i \<and> reset_variant (i + 1) < reset_variant i"
proof -
  have i0: "0 \<le> i" using inv by (simp add: reset_invariant_def)
  have n: "nat i < UGC_HANDLE_COUNT" using i0 i by simp
  have c: "c_int (i + 1) = Some (i + 1)"
    using i0 i by (intro c_int_in_range) (simp_all add: UGC_HANDLE_COUNT_def)
  let ?s = "s\<lparr>ugc_handles := (ugc_handles s)(nat i := 0),
    ugc_handle_types := (ugc_handle_types s)(nat i := 0),
    ugc_handle_extra := (ugc_handle_extra s)(nat i := 0),
    ugc_handle_dependent := (ugc_handle_dependent s)(nat i := 0),
    ugc_handle_free_stack := (ugc_handle_free_stack s)(nat i := 0)\<rparr>"
  have "reset_loop i s = reset_loop (i + 1) ?s"
    using i0 i c by (subst reset_loop.simps) simp
  moreover have "nat (i + 1) = Suc (nat i)" using i0 by simp
  then have "zeroed_below ?s (i + 1)"
    using inv by (auto simp: reset_invariant_def zeroed_below_def slot_has_def less_Suc_eq)
  then have "reset_invariant s0 (i + 1) ?s"
    using inv i i0 n
    by (simp add: reset_invariant_def assigns_array_upd cmem.defs)
  ultimately show ?thesis using i by (auto simp: reset_variant_def)
qed

lemma reset_loop_invariant:
  "reset_invariant s0 i s \<Longrightarrow>
   \<exists>s'. reset_loop i s = Some s' \<and> reset_invariant s0 (int UGC_HANDLE_COUNT) s'"
proof (induction "nat (reset_variant i)" arbitrary: i s rule: less_induct)
  case less
  show ?case
  proof (cases "i < int UGC_HANDLE_COUNT")
    case True
    from reset_round [OF less.prems True] obtain s1 where
      s1: "reset_loop i s = reset_loop (i + 1) s1" "reset_invariant s0 (i + 1) s1"
        "0 \<le> reset_variant i" "reset_variant (i + 1) < reset_variant i" by blast
    with True have "nat (reset_variant (i + 1)) < nat (reset_variant i)"
      by (simp add: reset_variant_def)
    from less.hyps [OF this s1(2)] s1(1) show ?thesis by simp
  next
    case False
    with less.prems have "i = int UGC_HANDLE_COUNT" by (simp add: reset_invariant_def)
    with less.prems show ?thesis by (subst reset_loop.simps) simp
  qed
qed

end
