(* ===== verification/Handle_Run.thy ===== *)
theory Handle_Run
  imports Handle_Contracts
begin

text \<open>
  Runs of the handle store: sequences of calls of the functions of \<open>ugc_core.h\<close> that change it,
  the reset included. A call is allowed when it meets the \<open>requires\<close> clauses of its ACSL
  contract. One function needs more: \<open>ugc_handle_set_type_at\<close> may only retype a live slot, and
  not to a negative type; its contract asks for a valid index only, and a call on a freed slot
  breaks the store.
\<close>

section \<open>Calls\<close>

datatype 'p store_op =
    Op_Create 'p int
  | Op_Create_With_Extra 'p int 'p
  | Op_Create_Dependent 'p 'p int
  | Op_Destroy_At 'p
  | Op_Set_Dependent_At 'p 'p
  | Op_Set_Type_At 'p int
  | Op_Set_Extra_At 'p 'p
  | Op_Slot_Store 'p 'p
  | Op_Slot_Store_If_Null 'p 'p
  | Op_Slot_Cas 'p 'p 'p
  | Op_Reset

primrec store_exec ::
  "'w::len word layout \<Rightarrow> 'w word store_op \<Rightarrow> 'w word gstate \<Rightarrow> 'w word gstate option" where
  "store_exec lay (Op_Create ob t) s = map_option snd (ugc_handle_create lay ob t s)"
| "store_exec lay (Op_Create_With_Extra ob t e) s =
     map_option snd (ugc_handle_create_with_extra lay ob t e s)"
| "store_exec lay (Op_Create_Dependent ob d t) s =
     map_option snd (ugc_handle_create_dependent lay ob d t s)"
| "store_exec lay (Op_Destroy_At idx) s = ugc_handle_destroy_at idx s"
| "store_exec lay (Op_Set_Dependent_At idx d) s = ugc_handle_set_dependent_at idx d s"
| "store_exec lay (Op_Set_Type_At idx t) s = ugc_handle_set_type_at idx t s"
| "store_exec lay (Op_Set_Extra_At idx e) s = ugc_handle_set_extra_at idx e s"
| "store_exec lay (Op_Slot_Store slot ob) s = ugc_handle_slot_store lay slot ob s"
| "store_exec lay (Op_Slot_Store_If_Null slot ob) s =
     map_option snd (ugc_handle_slot_store_if_null lay slot ob s)"
| "store_exec lay (Op_Slot_Cas slot ob c) s = map_option snd (ugc_handle_slot_cas lay slot ob c s)"
| "store_exec lay Op_Reset s = ugc_handle_store_reset s"

primrec op_allowed ::
  "'w::len word layout \<Rightarrow> 'w word store_op \<Rightarrow> 'w word gstate \<Rightarrow> bool" where
  "op_allowed lay (Op_Create ob t) s \<longleftrightarrow> 0 \<le> t"
| "op_allowed lay (Op_Create_With_Extra ob t e) s \<longleftrightarrow> 0 \<le> t"
| "op_allowed lay (Op_Create_Dependent ob d t) s \<longleftrightarrow> 0 \<le> t"
| "op_allowed lay (Op_Destroy_At idx) s \<longleftrightarrow> int (unat idx) < ugc_handle_count s"
| "op_allowed lay (Op_Set_Dependent_At idx d) s \<longleftrightarrow> index_requires idx"
| "op_allowed lay (Op_Set_Type_At idx t) s \<longleftrightarrow>
     index_requires idx \<and> unat idx \<in> live_slots s \<and> 0 \<le> t"
| "op_allowed lay (Op_Set_Extra_At idx e) s \<longleftrightarrow> index_requires idx"
| "op_allowed lay (Op_Slot_Store slot ob) s \<longleftrightarrow> valid_slot_ptr lay slot s"
| "op_allowed lay (Op_Slot_Store_If_Null slot ob) s \<longleftrightarrow> valid_slot_ptr lay slot s"
| "op_allowed lay (Op_Slot_Cas slot ob c) s \<longleftrightarrow> valid_slot_ptr lay slot s"
| "op_allowed lay Op_Reset s \<longleftrightarrow> True"

section \<open>Runs\<close>

primrec store_ops ::
  "'w::len word layout \<Rightarrow> 'w word store_op list \<Rightarrow> 'w word gstate \<Rightarrow> 'w word gstate option" where
  "store_ops lay [] s = Some s"
| "store_ops lay (c # cs) s = do { s \<leftarrow> store_exec lay c s; store_ops lay cs s }"

text \<open>Every call is allowed in the state it finds.\<close>

primrec ops_allowed ::
  "'w::len word layout \<Rightarrow> 'w word store_op list \<Rightarrow> 'w word gstate \<Rightarrow> bool" where
  "ops_allowed lay [] s \<longleftrightarrow> True"
| "ops_allowed lay (c # cs) s \<longleftrightarrow> op_allowed lay c s \<and>
     (case store_exec lay c s of None \<Rightarrow> True | Some s' \<Rightarrow> ops_allowed lay cs s')"

text \<open>The most slots that were live at a time since the last reset, \<open>p\<close> before the run.\<close>

primrec live_peak ::
  "'w::len word layout \<Rightarrow> 'w word store_op list \<Rightarrow> 'w word gstate \<Rightarrow> nat \<Rightarrow> nat" where
  "live_peak lay [] s p = p"
| "live_peak lay (c # cs) s p =
     (case store_exec lay c s of
        None \<Rightarrow> p
      | Some s' \<Rightarrow> live_peak lay cs s' (if c = Op_Reset then 0 else max p (card (live_slots s'))))"

section \<open>One call\<close>

text \<open>An allowed call returns, keeps the invariant, and takes a slot only when no freed one is
  left.\<close>

lemma sim_create_op:
  assumes "store_inv s" and "0 \<le> t"
  shows "\<exists>r s'. create_slot lay ob t e d s = Some (r, s') \<and> store_inv s' \<and> peak_ok s s'"
  using create_meets_contract [OF store_inv_consistent [OF assms(1)]]
    store_inv_create [OF assms] create_peak [OF assms] by metis

lemma sim_same_op:
  assumes "\<exists>s'. run = Some s' \<and> P s'" and "\<And>s'. run = Some s' \<Longrightarrow> same_slots s s'" and "store_inv s"
  shows "\<exists>s'. run = Some s' \<and> store_inv s' \<and> peak_ok s s'"
  using assms same_slots_step by blast

lemma store_op_inv:
  assumes inv: "store_inv s" and ok: "op_allowed lay c s"
  shows "\<exists>s'. store_exec lay c s = Some s' \<and> store_inv s' \<and>
    (if c = Op_Reset then nat (ugc_handle_count s') = 0 else peak_ok s s')"
proof (cases c)
  case (Op_Destroy_At idx)
  with ok have "int (unat idx) < ugc_handle_count s" by (simp only: op_allowed.simps)
  then have i: "unat idx < nat (ugc_handle_count s)" by linarith
  from store_inv_destroy [OF inv i] obtain s' where
    s': "ugc_handle_destroy_at idx s = Some s'" "store_inv s'" by blast
  with Op_Destroy_At same_count_peak [OF s'(2) destroy_count [OF s'(1)]] show ?thesis by simp
next
  case (Op_Set_Type_At idx t)
  with ok obtain s' where run: "ugc_handle_set_type_at idx t s = Some s'"
    using accessors_meet_contracts(5) [of idx t s] by auto
  with Op_Set_Type_At ok set_type_live [OF inv _ _ run] same_count_peak show ?thesis by auto
next
  case (Op_Set_Dependent_At idx d)
  with ok sim_same_op [OF accessors_meet_contracts(4) set_dependent_same inv, of idx d]
  show ?thesis by simp
next
  case (Op_Set_Extra_At idx e)
  with ok sim_same_op [OF accessors_meet_contracts(6) set_extra_same inv, of idx e]
  show ?thesis by simp
next
  case (Op_Slot_Store slot ob)
  with ok obtain s' where run: "ugc_handle_slot_store lay slot ob s = Some s'"
    using slots_meet_contracts(1) [of lay slot s ob] by auto
  then have "same_slots s s'" unfolding ugc_handle_slot_store_def by (rule save_slot_same)
  with run Op_Slot_Store same_slots_step [OF _ inv] show ?thesis by simp
next
  case (Op_Slot_Store_If_Null slot ob)
  with ok slots_meet_contracts(2) [of lay slot s ob] slot_store_if_null_same same_slots_step [OF _ inv]
  show ?thesis by fastforce
next
  case (Op_Slot_Cas slot ob old)
  with ok slots_meet_contracts(3) [of lay slot s ob old] slot_cas_same same_slots_step [OF _ inv]
  show ?thesis by fastforce
next
  case Op_Reset
  with reset_meets_contract [of s] store_inv_reset [of s] show ?thesis by (auto simp: reset_ensures_def)
qed (use ok sim_create_op [OF inv] in \<open>fastforce simp: create_is_slot\<close>)+

text \<open>A run.\<close>

lemma store_ops_inv:
  assumes "store_inv s" and "ops_allowed lay cs s" and "nat (ugc_handle_count s) = p"
  shows "\<exists>s'. store_ops lay cs s = Some s' \<and> store_inv s' \<and>
    nat (ugc_handle_count s') = live_peak lay cs s p"
  using assms
proof (induction cs arbitrary: s p)
  case Nil
  then show ?case by simp
next
  case (Cons c cs)
  from store_op_inv [of s lay c] Cons.prems obtain s' where
    s': "store_exec lay c s = Some s'" "store_inv s'"
    "if c = Op_Reset then nat (ugc_handle_count s') = 0 else peak_ok s s'" by auto
  then have "nat (ugc_handle_count s') = (if c = Op_Reset then 0 else max p (card (live_slots s')))"
    using Cons.prems(3) by (cases "c = Op_Reset") (simp_all add: peak_ok_def)
  with Cons.IH [of s'] Cons.prems(2) s'(1,2) show ?case by simp
qed

lemma store_ops_start:
  assumes "ops_allowed lay cs (globals_init m)"
  shows "\<exists>s. store_ops lay cs (globals_init m) = Some s \<and> store_inv s \<and>
    nat (ugc_handle_count s) = live_peak lay cs (globals_init m) 0"
proof (rule store_ops_inv [OF store_inv_init assms])
  show "nat (ugc_handle_count (globals_init m)) = 0" by (simp add: globals_init_def cmem.defs)
qed

end
