(* ===== verification/Examples.thy ===== *)
theory Examples
  imports GC_Init Alloc_Facts Handle_Run
begin

text \<open>
  A concrete 64-bit program state for each hypothesis the properties make: a memory with one
  allocation context and two places for \<open>calloc\<close>, the worlds and heap runs that start from
  it, a linker layout, and a handle store with handles in it.
\<close>

section \<open>Memory and allocation\<close>

text \<open>An allocation context at 16: its pointers at 16 and 24, its counters at 32 and 40. Byte
  memory is not zero to begin with.\<close>

definition ex_mem :: "64 word cmem" where
  "ex_mem = \<lparr>blocks = [], bytes = (\<lambda>_. 0xAA), cells = [16 \<mapsto> 0, 24 \<mapsto> 0],
     i64s = [32 \<mapsto> 0, 40 \<mapsto> 0], placements = [0x10000, 0x30000]\<rparr>"

definition ex_mem0 :: "64 word cmem" where
  "ex_mem0 = ex_mem\<lparr>cells := Map.empty\<rparr>"

text \<open>After 104 bytes: a quantum at \<open>0x10000\<close>, the object behind its header.\<close>

definition ex_mem1 :: "64 word cmem" where
  "ex_mem1 = ex_mem
     \<lparr>blocks := [(0x10000, 0x10000)], bytes := zero_fill 0x10000 0x10000 (\<lambda>_. 0xAA),
      cells := [16 \<mapsto> 0x10070, 24 \<mapsto> 0x20000], placements := [0x30000]\<rparr>"

text \<open>After 24 bytes more, allocated inline.\<close>

definition ex_mem2 :: "64 word cmem" where
  "ex_mem2 = ex_mem1\<lparr>cells := [16 \<mapsto> 0x10088, 24 \<mapsto> 0x20000]\<rparr>"

definition ex_mem3 :: "64 word cmem" where
  "ex_mem3 = ex_mem2
     \<lparr>blocks := [(0x30000, 0x20008), (0x10000, 0x10000)],
      bytes := zero_fill 0x30000 0x20008 (zero_fill 0x10000 0x10000 (\<lambda>_. 0xAA)),
      placements := []\<rparr>"

definition ex_w0 :: "(64 word cmem, 64 word) world" where
  "ex_w0 = \<lparr>mem = ex_mem0, ctxs = [], objs = []\<rparr>"

definition ex_w1 :: "(64 word cmem, 64 word) world" where
  "ex_w1 = \<lparr>mem = ex_mem, ctxs = [(16, 24)], objs = []\<rparr>"

definition ex_w2 :: "(64 word cmem, 64 word) world" where
  "ex_w2 = \<lparr>mem = ex_mem1, ctxs = [(16, 24)], objs = [(0x10008, 104)]\<rparr>"

definition ex_w3 :: "(64 word cmem, 64 word) world" where
  "ex_w3 = \<lparr>mem = ex_mem2, ctxs = [(16, 24)], objs = [(0x10070, 24), (0x10008, 104)]\<rparr>"

definition ex_w4 :: "(64 word cmem, 64 word) world" where
  "ex_w4 = \<lparr>mem = ex_mem3, ctxs = [(16, 24)],
     objs = [(0x30008, 0x20000), (0x10070, 24), (0x10008, 104)]\<rparr>"

lemmas ex_mem_defs = ex_mem_def ex_mem0_def ex_mem1_def ex_mem2_def ex_mem3_def

lemma ex_quantum: "ugc_core_alloc ugc_zalloc 16 24 104 False 8 ex_mem = Some (0x10008, ex_mem1)"
  by (simp add: ugc_core_alloc_def ugc_ctx_refill_def ugc_zalloc_def calloc_def calloc_places_def
      load_cell_def store_cell_def UGC_ALLOC_QUANTUM_def ex_mem_defs Let_def)

lemma ex_large: "ugc_core_alloc ugc_zalloc 0 0 0x20000 False 8 ex_mem2 = Some (0x30008, ex_mem3)"
  by (simp add: ugc_core_alloc_def ugc_alloc_direct_def ugc_zalloc_def calloc_def
      calloc_places_def apart_def span_def UGC_ALLOC_QUANTUM_def ex_mem_defs Let_def)

lemma ex_attach: "env_step 8 ex_w0 ex_w1"
proof -
  have "ex_w1 = ex_w0\<lparr>mem := (mem ex_w0)\<lparr>cells := (cells (mem ex_w0))(16 \<mapsto> 0, 24 \<mapsto> 0)\<rparr>,
      ctxs := (16, 24) # ctxs ex_w0\<rparr>"
    by (simp add: ex_w0_def ex_w1_def ex_mem_defs)
  then show ?thesis
    using env_step.attach [of 16 24 ex_w0 8] by (simp add: ex_w0_def)
qed

lemma ex_inline: "env_step 8 ex_w2 ex_w3"
proof -
  have "ex_w3 = ex_w2\<lparr>mem := (mem ex_w2)\<lparr>cells := (cells (mem ex_w2))(16 \<mapsto> 0x10070 + 24)\<rparr>,
      objs := (0x10070, unat (24 :: 64 word)) # objs ex_w2\<rparr>"
    by (simp add: ex_w2_def ex_w3_def ex_mem_defs fun_upd_twist)
  moreover have "(16, 24) \<in> set (ctxs ex_w2)"
    "window (mem ex_w2) (16, 24) = Some (0x10070, 0x20000)"
    by (simp_all add: ex_w2_def ex_mem_defs window_def)
  ultimately show ?thesis
    using env_step.inline [of 16 24 ex_w2 "0x10070" "0x20000" 24 8] by simp
qed

lemma ex_reach1: "alloc_reach ugc_zalloc 8 ex_w1"
  using ex_attach
  by (intro alloc_reach.step [OF alloc_reach.start [of ex_w0]] alloc_step.env)
    (simp_all add: world_start_def ex_w0_def mem_ok_def ex_mem_defs)

lemma ex_reach2: "alloc_reach ugc_zalloc 8 ex_w2"
proof -
  have "alloc_step ugc_zalloc 8 ex_w1 ex_w2"
    using alloc_step.call [of 16 24 ex_w1 ugc_zalloc 104 False 8 "0x10008" ex_mem1] ex_quantum
    by (simp add: ex_w1_def ex_w2_def)
  with ex_reach1 show ?thesis by (rule alloc_reach.step)
qed

lemma ex_reach3: "alloc_reach ugc_zalloc 8 ex_w3"
  by (rule alloc_reach.step [OF ex_reach2 alloc_step.env [OF ex_inline]])

lemma ex_reach4: "alloc_reach ugc_zalloc 8 ex_w4"
proof -
  have "alloc_step ugc_zalloc 8 ex_w3 ex_w4"
    using alloc_step.call [of 0 0 ex_w3 ugc_zalloc "0x20000" False 8 "0x30008" ex_mem3] ex_large
    by (simp add: ex_w3_def ex_w4_def)
  with ex_reach3 show ?thesis by (rule alloc_reach.step)
qed

lemma ex_steps4: "(alloc_step ugc_zalloc 8)\<^sup>*\<^sup>* ex_w0 ex_w4"
proof -
  have "alloc_step ugc_zalloc 8 ex_w0 ex_w1" by (rule alloc_step.env [OF ex_attach])
  moreover have "alloc_step ugc_zalloc 8 ex_w1 ex_w2"
    using alloc_step.call [of 16 24 ex_w1 ugc_zalloc 104 False 8 "0x10008" ex_mem1] ex_quantum
    by (simp add: ex_w1_def ex_w2_def)
  moreover have "alloc_step ugc_zalloc 8 ex_w2 ex_w3" by (rule alloc_step.env [OF ex_inline])
  moreover have "alloc_step ugc_zalloc 8 ex_w3 ex_w4"
    using alloc_step.call [of 0 0 ex_w3 ugc_zalloc "0x20000" False 8 "0x30008" ex_mem3] ex_large
    by (simp add: ex_w3_def ex_w4_def)
  ultimately show ?thesis by (meson rtranclp.rtrancl_into_rtrancl rtranclp.rtrancl_refl)
qed

lemma ex_requires: "core_alloc_requires ex_mem 16 24 8"
  by (simp add: core_alloc_requires_def ex_mem_defs)

lemma ex_requires2: "core_alloc_requires ex_mem2 16 24 8"
  by (simp add: core_alloc_requires_def context_window_def valid_bytes_def inside_def
      block_span_def span_def ex_mem_defs)

section \<open>A run of the heap\<close>

definition ex_offset :: "ctx_field \<Rightarrow> 64 word" where
  "ex_offset f = (case f of Alloc_Ptr \<Rightarrow> 0 | Alloc_Limit \<Rightarrow> 8 | Alloc_Bytes \<Rightarrow> 16
     | Alloc_Bytes_UOH \<Rightarrow> 24)"

definition ex_clr :: "64 word clr_interface" where
  "ex_clr = \<lparr>hndtype_dependent = 6, gc_alloc_user_old_heap = 2, wait_full_gc_na = 4,
     status_succeed = 0, large_object_size = 85000, s_ok = 0, noerror = 0,
     gc_interface_major_version = 5, gc_interface_minor_version = 3, field_offset = ex_offset\<rparr>"

definition ex_mem1c :: "64 word cmem" where
  "ex_mem1c = ex_mem1\<lparr>i64s := [32 \<mapsto> 104, 40 \<mapsto> 0]\<rparr>"

definition ex_run0 :: "64 word gc_run" where
  "ex_run0 = \<lparr>heap = new_uGCHeap 0x50, wld = ex_w0, served_bytes = 0, segs = []\<rparr>"

definition ex_run1 :: "64 word gc_run" where
  "ex_run1 = \<lparr>heap = new_uGCHeap 0x50, wld = ex_w1, served_bytes = 0, segs = []\<rparr>"

definition ex_run2 :: "64 word gc_run" where
  "ex_run2 = \<lparr>heap = \<lparr>gcToCLR = 0x50, registeredSegments = 0, allocatedBytes = 104\<rparr>,
     wld = \<lparr>mem = ex_mem1c, ctxs = [(16, 24)], objs = [(0x10008, 104)]\<rparr>,
     served_bytes = 104, segs = []\<rparr>"

definition ex_run3 :: "64 word gc_run" where
  "ex_run3 = ex_run2\<lparr>heap := \<lparr>gcToCLR = 0x50, registeredSegments = 1, allocatedBytes = 104\<rparr>,
     segs := [1]\<rparr>"

definition ex_run4 :: "64 word gc_run" where
  "ex_run4 = ex_run2\<lparr>heap := \<lparr>gcToCLR = 0x50, registeredSegments = 2, allocatedBytes = 104\<rparr>,
     segs := [2, 1]\<rparr>"

lemma ex_ctx_ptrs: "ctx_ptrs ex_clr 16 = (16, 24)"
  by (simp add: ctx_ptrs_def ctx_field_addr_def ex_clr_def ex_offset_def)

lemma ex_counter: "alloc_counter ex_clr 16 0 = 32"
  by (simp add: alloc_counter_def ctx_field_addr_def ex_clr_def ex_offset_def)

lemma ex_size: "int64_of_size (104 :: 64 word) = 104"
  by (simp add: int64_of_size_def)

lemma ex_alloc_args: "alloc_args_ok ex_clr 16 104 0 ex_mem"
proof -
  have "core_alloc_requires ex_mem 16 24 ObjectGap" using ex_requires by (simp add: ObjectGap_eq)
  then show ?thesis
    by (simp add: alloc_args_ok_def ex_ctx_ptrs ex_counter ex_size)
      (simp add: ex_mem_def ex_size c_int64_def)
qed

lemma ex_Alloc:
  "Alloc ex_clr 16 104 0 (new_uGCHeap 0x50) ex_mem =
     Some (0x10008, (new_uGCHeap 0x50)\<lparr>allocatedBytes := 104\<rparr>, ex_mem1c)"
proof -
  have "add_i64 (32 :: 64 word) 104 ex_mem1 = Some ex_mem1c"
    by (simp add: add_i64_def c_int64_def ex_mem1c_def ex_mem_defs fun_eq_iff)
  then show ?thesis
    by (simp add: Alloc_def ctx_field_addr_def ObjectGap_eq ex_clr_def ex_offset_def ex_quantum
        ex_size new_uGCHeap_def)
qed

lemma ex_gc_reach2: "gc_reach ex_clr ex_run2"
proof -
  have "gc_reach ex_clr ex_run0"
    by (rule gc_reach.start) (auto simp: gc_start_def ex_run0_def world_start_def ex_w0_def
        mem_ok_def ex_mem_defs new_uGCHeap_def)
  moreover have "gc_step ex_clr ex_run0 ex_run1"
    using gc_step.runtime [of ex_run0 ex_w1 ex_clr] ex_attach
    by (simp add: ex_run0_def ex_run1_def ObjectGap_eq)
  moreover have "gc_step ex_clr ex_run1 ex_run2"
    using gc_step.alloc [of 16 ex_clr ex_run1 104 0 "0x10008"
        "(new_uGCHeap 0x50)\<lparr>allocatedBytes := 104\<rparr>" ex_mem1c] ex_Alloc ex_ctx_ptrs
    by (simp add: ex_run1_def ex_run2_def ex_w1_def new_uGCHeap_def)
  ultimately show ?thesis by (blast intro: gc_reach.step)
qed

lemma ex_gc_reach4: "gc_reach ex_clr ex_run4"
proof -
  have "gc_step ex_clr ex_run2 ex_run3"
    using gc_step.register [of 0 ex_run2 1 "heap ex_run3" ex_clr]
    by (simp add: RegisterFrozenSegment_def ex_run2_def ex_run3_def)
  moreover have "gc_step ex_clr ex_run3 ex_run4"
    using gc_step.register [of 0 ex_run3 2 "heap ex_run4" ex_clr]
    by (simp add: RegisterFrozenSegment_def ex_run2_def ex_run3_def ex_run4_def)
  ultimately show ?thesis using ex_gc_reach2 by (blast intro: gc_reach.step)
qed

section \<open>Handles\<close>

definition ex_layout :: "64 word layout" where
  "ex_layout = \<lparr>addr_handles = 0x100000, addr_dependent = 0x200000\<rparr>"

definition ex_store0 :: "64 word gstate" where
  "ex_store0 = globals_init ex_mem"

text \<open>A handle for the object at \<open>0x1000\<close>, then a dependent one.\<close>

definition ex_store1 :: "64 word gstate" where
  "ex_store1 = filled 0 0x1000 1 0 0 (ex_store0\<lparr>ugc_handle_count := 1\<rparr>)"

definition ex_store2 :: "64 word gstate" where
  "ex_store2 = filled 1 0x2000 6 0 0x3000 (ex_store1\<lparr>ugc_handle_count := 2\<rparr>)"

text \<open>The first of the two destroyed.\<close>

definition ex_store3 :: "64 word gstate" where
  "ex_store3 = destroyed 0 ex_store2"

lemma ex_layout_ok: "layout_ok ex_layout"
  by (simp add: layout_ok_def array_at_def array_bytes_def ptr_bytes_def UGC_HANDLE_COUNT_def
      apart_def span_def ex_layout_def)

lemma ex_elem: "elem_addr (addr_handles ex_layout) 0 = 0x100000"
  "elem_addr (addr_handles ex_layout) 1 = 0x100008"
  by (simp_all add: elem_addr_def ptr_bytes_def ex_layout_def)

lemma ex_counts [simp]:
  "ugc_handle_count ex_store0 = 0" "ugc_handle_free_count ex_store0 = 0"
  "ugc_handle_count ex_store1 = 1" "ugc_handle_free_count ex_store1 = 0"
  "ugc_handle_count ex_store2 = 2" "ugc_handle_free_count ex_store2 = 0"
  "ugc_handle_count ex_store3 = 2" "ugc_handle_free_count ex_store3 = 1"
  by (simp_all add: ex_store0_def ex_store1_def ex_store2_def ex_store3_def globals_init_def
      cmem.defs)

lemma ex_types [simp]:
  "ugc_handle_types ex_store2 0 = 1" "ugc_handle_types ex_store2 1 = 6"
  "ugc_handle_types ex_store3 0 = -1" "ugc_handle_types ex_store3 1 = 6"
  by (simp_all add: ex_store1_def ex_store2_def ex_store3_def UGC_HANDLE_TYPE_FREE_def)

lemma ex_create1: "ugc_handle_create ex_layout 0x1000 1 ex_store0 = Some (0x100000, ex_store1)"
  using create_fresh [of ex_store0 ex_layout "0x1000" 1 0 0] ex_elem
  by (simp add: create_is_slot store_inv_init store_inv_consistent ex_store1_def
      UGC_HANDLE_COUNT_def ex_store0_def [symmetric]) (simp add: ex_store0_def store_inv_init store_inv_consistent)

lemma ex_create2:
  "ugc_handle_create_dependent ex_layout 0x2000 0x3000 6 ex_store1 = Some (0x100008, ex_store2)"
proof -
  have "store_inv ex_store1"
    using store_inv_create [of ex_store0 1 ex_layout "0x1000" 0 0] ex_create1 store_inv_init [of ex_mem]
    by (simp add: create_is_slot ex_store0_def)
  then show ?thesis
    using create_fresh [of ex_store1 ex_layout "0x2000" 6 0 "0x3000"] ex_elem
    by (simp add: create_is_slot store_inv_consistent UGC_HANDLE_COUNT_def ex_store2_def)
qed

lemma ex_destroy: "ugc_handle_destroy_at 0 ex_store2 = Some ex_store3"
  using destroy_frees [of 0 ex_store2] by (simp add: UGC_HANDLE_COUNT_def ex_store3_def)

text \<open>The calls that lead there.\<close>

definition ex_ops :: "64 word store_op list" where
  "ex_ops = [Op_Create 0x1000 1, Op_Create_Dependent 0x2000 0x3000 6, Op_Destroy_At 0]"

lemma ex_exec_ops:
  "store_exec ex_layout (Op_Create 0x1000 1) (globals_init ex_mem) = Some ex_store1"
  "store_exec ex_layout (Op_Create_Dependent 0x2000 0x3000 6) ex_store1 = Some ex_store2"
  "store_exec ex_layout (Op_Destroy_At 0) ex_store2 = Some ex_store3"
  using ex_create1 ex_create2 ex_destroy by (simp_all add: ex_store0_def)

lemma ex_ops_allowed: "ops_allowed ex_layout ex_ops (globals_init ex_mem)"
  by (simp add: ex_ops_def ex_exec_ops del: store_exec.simps)

lemma ex_ops_run: "store_ops ex_layout ex_ops (globals_init ex_mem) = Some ex_store3"
  by (simp add: ex_ops_def ex_exec_ops del: store_exec.simps)

lemma ex_store_inv: "store_inv ex_store2" "store_inv ex_store3"
proof -
  have "store_inv ex_store2"
    using store_ops_start [of ex_layout "take 2 ex_ops" ex_mem]
    by (auto simp: ex_ops_def ex_exec_ops simp del: store_exec.simps)
  then show "store_inv ex_store2" .
  show "store_inv ex_store3"
    using store_ops_start [OF ex_ops_allowed] ex_ops_run by auto
qed

lemma ex_live: "live_slots ex_store2 = {0, 1}" "live_slots ex_store3 = {1}"
proof -
  show "live_slots ex_store2 = {0, 1}"
    by (auto simp: live_slots_def) (metis One_nat_def ex_types(1,2) less_2_cases_iff zero_le_numeral zero_le_one)
  then show "live_slots ex_store3 = {1}"
    by (auto simp: ex_store3_def live_slots_destroyed)
qed

definition ex_value1 :: "64 word aslot" where
  "ex_value1 = \<lparr>a_object = 0x1000, a_type = 1, a_extra = 0, a_secondary = 0\<rparr>"

definition ex_value2 :: "64 word aslot" where
  "ex_value2 = \<lparr>a_object = 0x2000, a_type = 6, a_extra = 0, a_secondary = 0x3000\<rparr>"

lemma ex_session:
  "session (create_value ex_layout) (uDestroyHandle ex_layout) good_value 0
     ex_store0 ex_store2 [(0x100008, ex_value2), (0x100000, ex_value1)]"
proof -
  have "create_value ex_layout ex_value1 ex_store0 = Some (0x100000, ex_store1)"
    "create_value ex_layout ex_value2 ex_store1 = Some (0x100008, ex_store2)"
    using ex_create1 ex_create2
    by (simp_all add: create_value_def handle_simps create_is_slot ex_value1_def ex_value2_def)
  moreover have "good_value ex_value1" "good_value ex_value2"
    by (simp_all add: good_value_def live_type_def ex_value1_def ex_value2_def)
  moreover have "(0x100000 :: 64 word) \<noteq> 0" "(0x100008 :: 64 word) \<noteq> 0" by simp_all
  ultimately show ?thesis
    by (blast intro: session.start session.created)
qed

lemma ex_store_ok: "store_ok ex_layout ex_store0"
  by (simp add: store_ok_def ex_layout_ok store_inv_init ex_store0_def)

lemma ex_lookup0: "handle_lookup ex_layout ex_store0 = Map.empty"
  by (auto simp: handle_lookup_def live_slots_def split: option.splits)

lemma ex_ok2: "store_ok ex_layout ex_store2"
  by (simp add: store_ok_def ex_layout_ok ex_store_inv)

lemma ex_lookup2:
  "handle_lookup ex_layout ex_store2 0x100000 = Some ex_value1"
  "handle_lookup ex_layout ex_store2 0x100008 = Some ex_value2"
  using store_provider.session_exact [OF ex_session ex_store_ok ex_lookup0] by simp_all

section \<open>Out parameters\<close>

text \<open>Sixteen variables of a caller of \<open>GetMemoryInfo\<close>.\<close>

definition ex_out :: "(64 word, 64 word, 64 word) memory_info" where
  "ex_out =
     \<lparr>highMemLoadThresholdBytes = 0x200, totalAvailableMemoryBytes = 0x208, lastRecordedMemLoadBytes = 0x210,
      lastRecordedHeapSizeBytes = 0x218, lastRecordedFragmentationBytes = 0x220, totalCommittedBytes = 0x228,
      promotedBytes = 0x230, pinnedObjectCount = 0x238, finalizationPendingCount = 0x240,
      mi_index = 0x248, mi_generation = 0x250, pauseTimePct = 0x258,
      isCompaction = 0x260, isConcurrent = 0x268, genInfoRaw = 0x270,
      pauseInfoRaw = 0x278\<rparr>"

definition ex_vars :: "64 word out_vars" where
  "ex_vars = \<lparr>u64_vars = (\<lambda>_. Some 1), u32_vars = (\<lambda>_. Some 1), bool_vars = (\<lambda>_. Some True)\<rparr>"

lemma ex_out_ok: "info_valid ex_out ex_vars" "info_distinct ex_out"
  by (auto simp: info_valid_def info_distinct_def outs_u64_def outs_u32_def outs_bool_def
      ex_out_def ex_vars_def)

end
