(* ===== verification/Handle_Facts.thy ===== *)
theory Handle_Facts
  imports Handle_Client
begin

text \<open>
  What the runtime sees of handles through \<open>uGCHandleManager\<close> and the core's slot operations:
  each operation on a held handle changes one field of that handle and nothing else; when
  the store is exhausted; and what becomes of calls on handles that are not held.
\<close>

section \<open>One field of one handle\<close>

lemma lookup_elem:
  fixes lay :: "'w::len word layout"
  assumes "layout_ok lay" and "i < UGC_HANDLE_COUNT"
  shows "handle_lookup lay s (elem_addr (addr_handles lay) i) =
    (if i \<in> live_slots s then Some (slot_value s i) else None)"
  using handle_addr [OF assms] by (simp add: handle_lookup_def)

lemma lookup_set_field:
  fixes lay :: "'w::len word layout"
  assumes lay: "layout_ok lay" and i: "i < UGC_HANDLE_COUNT" "i \<in> live_slots s"
    and live: "live_slots s' = live_slots s" and v: "slot_value s' = (slot_value s)(i := v)"
  shows "handle_lookup lay s' = (handle_lookup lay s)(elem_addr (addr_handles lay) i \<mapsto> v)"
  using i live v by (intro handle_lookup_upd [OF lay i(1)]) (auto simp: fun_eq_iff)

text \<open>The value of a handle with a new object, type, extra info or secondary.\<close>

lemma slot_value_upd:
  "slot_value (s\<lparr>ugc_handles := (ugc_handles s)(i := ob)\<rparr>) =
     (slot_value s)(i := (slot_value s i)\<lparr>a_object := ob\<rparr>)"
  "slot_value (s\<lparr>ugc_handle_types := (ugc_handle_types s)(i := t)\<rparr>) =
     (slot_value s)(i := (slot_value s i)\<lparr>a_type := t\<rparr>)"
  "slot_value (s\<lparr>ugc_handle_extra := (ugc_handle_extra s)(i := e)\<rparr>) =
     (slot_value s)(i := (slot_value s i)\<lparr>a_extra := e\<rparr>)"
  "slot_value (s\<lparr>ugc_handle_dependent := (ugc_handle_dependent s)(i := d)\<rparr>) =
     (slot_value s)(i := (slot_value s i)\<lparr>a_secondary := d\<rparr>)"
  by (auto simp: slot_value_def fun_eq_iff)

lemma live_slots_upd [simp]:
  "live_slots (s\<lparr>ugc_handles := a\<rparr>) = live_slots s"
  "live_slots (s\<lparr>ugc_handle_extra := a\<rparr>) = live_slots s"
  "live_slots (s\<lparr>ugc_handle_dependent := a\<rparr>) = live_slots s"
  by (simp_all add: live_slots_def)

lemma store_ok_same: "same_slots s s' \<Longrightarrow> store_ok lay s \<Longrightarrow> store_ok lay s'"
  using same_slots_inv(1) [of s s'] by (simp add: store_ok_def)

lemma store_object_handle:
  fixes lay :: "'w::len word layout"
  assumes ok: "store_ok lay s" and l: "handle_lookup lay s h = Some v"
  shows "\<exists>s'. StoreObjectInHandle lay h ob s = Some s' \<and> store_ok lay s' \<and>
    handle_lookup lay s' = (handle_lookup lay s)(h \<mapsto> v\<lparr>a_object := ob\<rparr>)"
proof -
  have lay: "layout_ok lay" using ok by (simp add: store_ok_def)
  from l obtain i where i: "h = elem_addr (addr_handles lay) i" "i \<in> live_slots s"
    "v = slot_value s i" "i < UGC_HANDLE_COUNT" by (rule handle_lookup_Some)
  let ?s = "s\<lparr>ugc_handles := (ugc_handles s)(i := ob)\<rparr>"
  have "save_slot lay h ob s = Some ?s" unfolding i(1) by (rule save_handle [OF lay i(4)])
  moreover from this have "store_ok lay ?s" using store_ok_same [OF save_slot_same ok] by blast
  moreover have "handle_lookup lay ?s = (handle_lookup lay s)(h \<mapsto> v\<lparr>a_object := ob\<rparr>)"
    unfolding i(1,3) by (rule lookup_set_field [OF lay i(4,2)]) (simp_all add: slot_value_upd)
  ultimately show ?thesis by (simp add: StoreObjectInHandle_def ugc_handle_slot_store_def)
qed

lemma load_held:
  assumes ok: "store_ok lay s" and l: "handle_lookup lay s h = Some v"
  shows "load_slot lay h s = Some (a_object v)"
proof -
  have lay: "layout_ok lay" using ok by (simp add: store_ok_def)
  from l obtain i where i: "h = elem_addr (addr_handles lay) i" "v = slot_value s i"
    "i < UGC_HANDLE_COUNT" by (rule handle_lookup_Some)
  with load_handle [OF lay i(3)] show ?thesis by (simp add: slot_value_def)
qed

lemma store_if_null_handle:
  assumes ok: "store_ok lay s" and l: "handle_lookup lay s h = Some v"
  shows "\<exists>s'. StoreObjectInHandleIfNull lay h ob s = Some (a_object v = 0, s') \<and> store_ok lay s' \<and>
    handle_lookup lay s' =
      (if a_object v = 0 then (handle_lookup lay s)(h \<mapsto> v\<lparr>a_object := ob\<rparr>) else handle_lookup lay s)"
proof (cases "a_object v = 0")
  case True
  with store_object_handle [OF ok l, of ob] load_held [OF ok l] show ?thesis
    by (auto simp: StoreObjectInHandleIfNull_def ugc_handle_slot_store_if_null_def
        StoreObjectInHandle_def ugc_handle_slot_store_def)
next
  case False
  with ok load_held [OF ok l] show ?thesis
    by (simp add: StoreObjectInHandleIfNull_def ugc_handle_slot_store_if_null_def)
qed

lemma cas_handle:
  assumes ok: "store_ok lay s" and l: "handle_lookup lay s h = Some v"
  shows "\<exists>s'. InterlockedCompareExchangeObjectInHandle lay h ob old s =
      Some (if a_object v = old then ob else a_object v, s') \<and> store_ok lay s' \<and>
    handle_lookup lay s' =
      (if a_object v = old then (handle_lookup lay s)(h \<mapsto> v\<lparr>a_object := ob\<rparr>) else handle_lookup lay s)"
proof (cases "a_object v = old")
  case True
  from store_object_handle [OF ok l, of ob] obtain s' where
    s': "save_slot lay h ob s = Some s'" "store_ok lay s'"
    "handle_lookup lay s' = (handle_lookup lay s)(h \<mapsto> v\<lparr>a_object := ob\<rparr>)"
    by (auto simp: StoreObjectInHandle_def ugc_handle_slot_store_def)
  then have "load_slot lay h s' = Some ob" by (intro load_save_same)
  with True s' load_held [OF ok l] show ?thesis
    by (simp add: InterlockedCompareExchangeObjectInHandle_def ugc_handle_slot_cas_def)
next
  case False
  with ok load_held [OF ok l] show ?thesis
    by (simp add: InterlockedCompareExchangeObjectInHandle_def ugc_handle_slot_cas_def)
qed

lemma dependent_handle:
  fixes lay :: "'w::len word layout"
  assumes ok: "store_ok lay s" and l: "handle_lookup lay s h = Some v"
    and hm: "handle_store hm \<noteq> 0"
  shows "GetDependentHandleSecondary lay hm h s = Some (a_secondary v)"
    and "HandleFetchType lay hm h s = Some (a_type v)"
    and "GetExtraInfoFromHandle lay hm h s = Some (a_extra v)"
    and "\<exists>s'. SetDependentHandleSecondary lay hm h d s = Some s' \<and> store_ok lay s' \<and>
      handle_lookup lay s' = (handle_lookup lay s)(h \<mapsto> v\<lparr>a_secondary := d\<rparr>)"
proof -
  have lay: "layout_ok lay" using ok by (simp add: store_ok_def)
  from l obtain i where i: "h = elem_addr (addr_handles lay) i" "i \<in> live_slots s"
    "v = slot_value s i" "i < UGC_HANDLE_COUNT" by (rule handle_lookup_Some)
  note h = handle_index_simps [OF lay i(4)]
  show "GetDependentHandleSecondary lay hm h s = Some (a_secondary v)"
    "HandleFetchType lay hm h s = Some (a_type v)"
    "GetExtraInfoFromHandle lay hm h s = Some (a_extra v)"
    using hm load_dependent [OF lay i(4)] unfolding i(1,3)
    by (simp_all add: GetDependentHandleSecondary_def HandleFetchType_def
        GetExtraInfoFromHandle_def store_object_def h slot_value_def)
  let ?s = "s\<lparr>ugc_handle_dependent := (ugc_handle_dependent s)(i := d)\<rparr>"
  have run: "SetDependentHandleSecondary lay hm h d s = Some ?s"
    using hm unfolding i(1) by (simp add: SetDependentHandleSecondary_def store_object_def h)
  have "same_slots s ?s" by (simp add: same_slots_def)
  then have "store_ok lay ?s" using ok by (rule store_ok_same)
  moreover have "handle_lookup lay ?s = (handle_lookup lay s)(h \<mapsto> v\<lparr>a_secondary := d\<rparr>)"
    unfolding i(1,3) by (rule lookup_set_field [OF lay i(4,2)]) (simp_all add: slot_value_upd)
  ultimately show "\<exists>s'. SetDependentHandleSecondary lay hm h d s = Some s' \<and> store_ok lay s' \<and>
      handle_lookup lay s' = (handle_lookup lay s)(h \<mapsto> v\<lparr>a_secondary := d\<rparr>)"
    using run by blast
qed

lemma extra_info_handle:
  fixes lay :: "'w::len word layout"
  assumes ok: "store_ok lay s" and l: "handle_lookup lay s h = Some v"
    and hm: "handle_store hm \<noteq> 0" and t: "live_type t"
  shows "\<exists>s'. SetExtraInfoForHandle lay hm h t e s = Some s' \<and> store_ok lay s' \<and>
    handle_lookup lay s' = (handle_lookup lay s)(h \<mapsto> v\<lparr>a_type := t, a_extra := e\<rparr>)"
proof -
  have lay: "layout_ok lay" and inv: "store_inv s" using ok by (auto simp: store_ok_def)
  from l obtain i where i: "h = elem_addr (addr_handles lay) i" "i \<in> live_slots s"
    "v = slot_value s i" "i < UGC_HANDLE_COUNT" by (rule handle_lookup_Some)
  note h = handle_index_simps [OF lay i(4)]
  let ?s1 = "s\<lparr>ugc_handle_types := (ugc_handle_types s)(i := t)\<rparr>"
  let ?s = "?s1\<lparr>ugc_handle_extra := (ugc_handle_extra s)(i := e)\<rparr>"
  have run: "SetExtraInfoForHandle lay hm h t e s = Some ?s"
    using hm unfolding i(1) by (simp add: SetExtraInfoForHandle_def store_object_def h)
  let ?x = "ugc_handle_index lay h"
  have x: "unat ?x \<in> live_slots s" using index_of_elem [OF lay i(4)] i(1,2) by simp
  have "ugc_handle_set_type_at ?x t s = Some ?s1"
    using h(2) unfolding i(1) uSetHandleType_def .
  note T = set_type_live [OF inv x _ this] t [unfolded live_type_def]
  have "same_slots ?s1 ?s" by (simp add: same_slots_def)
  with T lay have "store_ok lay ?s" by (metis same_slots_inv(1) store_ok_def)
  moreover have "handle_lookup lay ?s =
      (handle_lookup lay s)(h \<mapsto> v\<lparr>a_type := t, a_extra := e\<rparr>)"
    unfolding i(1,3)
    by (rule lookup_set_field [OF lay i(4,2)]) (use T in \<open>auto simp: slot_value_def fun_eq_iff\<close>)
  ultimately show ?thesis using run by blast
qed

section \<open>Duplicates and exhaustion\<close>

lemma create_slot_refines:
  assumes "store_inv s" and "0 \<le> type"
  shows "\<exists>s'. create_slot lay object type extra dep s =
      Some (handle_of lay (fst (a_create \<lparr>a_object = object, a_type = type, a_extra = extra,
        a_secondary = dep\<rparr> (abs_store s))), s') \<and> store_inv s' \<and>
      abs_store s' = snd (a_create \<lparr>a_object = object, a_type = type, a_extra = extra,
        a_secondary = dep\<rparr> (abs_store s))"
proof -
  from create_slot_defined [OF assms(1)] obtain r s' where
    run: "create_slot lay object type extra dep s = Some (r, s')" by blast
  with store_inv_create [OF assms run] create_refines [OF assms run, OF prod.collapse [symmetric]]
  show ?thesis by simp
qed

lemma create_value_exhausted:
  assumes ok: "store_ok lay s" and t: "good_value v"
    and run: "create_value lay v s = Some (h, s')"
  shows "h = 0 \<longleftrightarrow> card (live_slots s) = UGC_HANDLE_COUNT"
proof -
  have inv: "store_inv s" and lay: "layout_ok lay" using ok by (auto simp: store_ok_def)
  note c = store_inv_consistent [OF inv] and card = card_live_slots [OF inv]
  from c show ?thesis
  proof (cases rule: store_cases)
    case full
    with run card show ?thesis by (auto simp: create_value_slot [OF t] create_full)
  next
    case fresh
    then have "nat (ugc_handle_count s) < UGC_HANDLE_COUNT"
      using c by (simp add: ugc_store_consistent_def)
    with handle_addr(3) [OF lay this] run card fresh show ?thesis
      by (auto simp: create_value_slot [OF t] create_fresh [OF c fresh])
  next
    case recycled
    let ?i = "nat (ugc_handle_free_stack s (nat (ugc_handle_free_count s - 1)))"
    have n: "nat (ugc_handle_count s) \<le> UGC_HANDLE_COUNT"
      using c unfolding ugc_store_consistent_def by linarith
    with create_recycled(2) [OF c recycled] have "?i < UGC_HANDLE_COUNT" by linarith
    with handle_addr(3) [OF lay this] run card recycled n show ?thesis
      by (auto simp: create_value_slot [OF t] create_recycled(1) [OF c recycled])
  qed
qed

lemma duplicate_handle:
  fixes lay :: "'w::len word layout"
  assumes ok: "store_ok lay s" and l: "handle_lookup lay s h = Some v"
    and hm: "handle_store hm \<noteq> 0"
  shows "CreateDuplicateHandle lay hm h s =
    create_value lay \<lparr>a_object = a_object v, a_type = a_type v, a_extra = 0, a_secondary = 0\<rparr> s"
    and "live_type (a_type v)"
proof -
  have lay: "layout_ok lay" using ok by (simp add: store_ok_def)
  from l obtain i where i: "h = elem_addr (addr_handles lay) i" "i \<in> live_slots s"
    "v = slot_value s i" "i < UGC_HANDLE_COUNT" by (rule handle_lookup_Some)
  show t: "live_type (a_type v)" using i(2,3) by (simp add: live_type_def live_slots_def slot_value_def)
  have "h \<noteq> 0" using handle_addr(3) [OF lay i(4)] i(1) by simp
  moreover have "uGetHandleType lay h s = Some (a_type v)"
    using handle_index_simps(1) [OF lay i(4)] i(1,3) by (simp add: slot_value_def)
  ultimately show "CreateDuplicateHandle lay hm h s =
    create_value lay \<lparr>a_object = a_object v, a_type = a_type v, a_extra = 0, a_secondary = 0\<rparr> s"
    using hm load_held [OF ok l]
    by (simp add: CreateDuplicateHandle_def store_object_def create_value_def)
qed

section \<open>Destroying what is not held\<close>

lemma destroy_at_cases:
  fixes idx :: "'w::len word"
  assumes "ugc_handle_destroy_at idx s = Some s'"
  obtains (noop) "s' = s" | (freed) "ugc_handle_types s' (unat idx) = UGC_HANDLE_TYPE_FREE"
    "ugc_handle_free_count s' = ugc_handle_free_count s + 1"
  using assms
  by (auto simp: ugc_handle_destroy_at_def set_handle_def set_htype_def set_hextra_def
      set_hdependent_def set_free_stack_def c_simps
      bind_eq_Some_conv split: if_splits)

lemma destroy_at_twice:
  fixes idx :: "'w::len word"
  assumes "ugc_handle_destroy_at idx s = Some s'"
  shows "ugc_handle_destroy_at idx s' = Some s'"
  using assms
proof (cases rule: destroy_at_cases)
  case noop
  with assms show ?thesis by simp
next
  case freed
  have "uint idx < int UGC_HANDLE_COUNT"
    using assms by (auto simp: ugc_handle_destroy_at_def c_simps bind_eq_Some_conv)
  then have "unat idx < UGC_HANDLE_COUNT" by (metis of_nat_less_iff of_nat_unat)
  then show ?thesis using freed(1) by (intro destroy_noop) (auto simp: UGC_HANDLE_TYPE_FREE_def)
qed

text \<open>Popping an index does not ask whether it was ever taken.\<close>

lemma create_pops:
  assumes "ugc_handle_free_count s = int n + 1" and "ugc_handle_free_stack s n = int i"
    and "n < UGC_HANDLE_COUNT" and "i < UGC_HANDLE_COUNT"
  shows "create_slot lay ob t e d s = Some (elem_addr (addr_handles lay) i,
    filled i ob t e d (s\<lparr>ugc_handle_free_count := int n\<rparr>))"
proof -
  have "c_int (int n) = Some (int n)" using assms(3) by (simp add: c_int_def UGC_HANDLE_COUNT_def)
  moreover have "ard UGC_HANDLE_COUNT (ugc_handle_free_stack s) (int n) = Some (int i)"
    using assms(2,3) by (simp add: ard_def)
  ultimately show ?thesis
    using assms(1,4) by (simp add: create_slot_def ugc_handle_slot_acquire_def filled_def)
qed

text \<open>The wrapper's range test lets the index of a slot never taken through: it is pushed on the
  free stack although it is not below the count, and the next create pops it.\<close>

lemma destroy_untaken:
  fixes lay :: "'w::len word layout"
  assumes ok: "store_ok lay s" and i: "nat (ugc_handle_count s) \<le> i" "i < UGC_HANDLE_COUNT"
    and ty: "ugc_handle_types s i = 0" and h: "h = elem_addr (addr_handles lay) i"
  obtains s1 s2 where "uDestroyHandle lay h s = Some s1" and "\<not> ugc_store_consistent s1"
    and "CreateHandleOfType lay a t s1 = Some (h, s2)" and "store_inv s2"
    and "ugc_handle_count s2 = ugc_handle_count s" "ugc_handle_free_count s2 = ugc_handle_free_count s"
proof -
  have lay: "layout_ok lay" and inv: "store_inv s" using ok by (auto simp: store_ok_def)
  have c: "ugc_store_consistent s" by (rule store_inv_consistent [OF inv])
  have f: "0 \<le> ugc_handle_free_count s" "nat (ugc_handle_free_count s) \<le> i" "0 \<le> ugc_handle_count s"
    using card_live_slots [OF inv] i c by (auto simp: ugc_store_consistent_def)
  let ?x = "ugc_handle_index lay h" and ?s1 = "destroyed i s"
  let ?n = "nat (ugc_handle_free_count s)"
  let ?s2 = "filled i a t 0 0 (?s1\<lparr>ugc_handle_free_count := int ?n\<rparr>)"
  have x: "unat ?x = i" unfolding h by (rule index_of_elem [OF lay i(2)])
  have "uDestroyHandle lay h s = Some ?s1"
    using destroy_frees [of ?x s] x f i(2) ty destroy_handle_simp [OF lay i(2)] by (simp add: h)
  moreover have "\<not> ugc_store_consistent ?s1"
    using f i by (auto simp: ugc_store_consistent_def intro!: exI [of _ ?n])
  moreover have "CreateHandleOfType lay a t ?s1 = Some (h, ?s2)"
    using create_pops [of ?s1 ?n i lay a t 0 0] f i(2) by (simp add: handle_simps h)
  moreover have "free_slots ?s2 = free_slots s"
    using f by (auto simp: free_slots_def intro!: nth_equalityI)
  then have "store_inv ?s2"
    using inv f i unfolding store_inv_def ugc_store_consistent_def by auto
  ultimately show ?thesis using f that [of ?s1 ?s2] by simp
qed

text \<open>Creates one after the other.\<close>

primrec creates_of_type ::
  "'w::len word layout \<Rightarrow> int \<Rightarrow> 'w word list \<Rightarrow> 'w word gstate \<Rightarrow> ('w word list \<times> 'w word gstate) option" where
  "creates_of_type lay t [] s = Some ([], s)"
| "creates_of_type lay t (ob # obs) s =
     do {
       (h, s) \<leftarrow> CreateHandleOfType lay ob t s;
       (hs, s) \<leftarrow> creates_of_type lay t obs s;
       Some (h # hs, s)
     }"

text \<open>They use up the freed slots, then take new ones in order.\<close>

lemma creates_reach:
  assumes "store_inv s" and "live_type t" and "nat (ugc_handle_count s) \<le> i" and "i < UGC_HANDLE_COUNT"
    and "length obs = nat (ugc_handle_free_count s) + (i - nat (ugc_handle_count s)) + 1"
  shows "\<exists>hs s'. creates_of_type lay t obs s = Some (hs @ [elem_addr (addr_handles lay) i], s')"
  using assms(1,3,5)
proof (induction obs arbitrary: s)
  case Nil
  then show ?case by simp
next
  case (Cons ob obs)
  have t: "0 \<le> t" using assms(2) by (simp add: live_type_def)
  note c = store_inv_consistent [OF Cons.prems(1)]
  then have n: "0 \<le> ugc_handle_count s" "0 \<le> ugc_handle_free_count s"
    by (simp_all add: ugc_store_consistent_def)
  have step: ?case if run: "create_slot lay ob t 0 0 s = Some (h, s1)"
    and le: "nat (ugc_handle_count s1) \<le> i"
    and len: "length obs = nat (ugc_handle_free_count s1) + (i - nat (ugc_handle_count s1)) + 1" for h s1
  proof -
    from Cons.IH [OF store_inv_create [OF Cons.prems(1) t run] le len] obtain hs s' where
      "creates_of_type lay t obs s1 = Some (hs @ [elem_addr (addr_handles lay) i], s')" by blast
    with run show ?thesis by (auto simp: handle_simps intro!: exI [of _ "h # hs"])
  qed
  show ?case
  proof (cases "0 < ugc_handle_free_count s")
    case True
    then have "length obs = nat (ugc_handle_free_count s - 1) + (i - nat (ugc_handle_count s)) + 1"
      using Cons.prems(3) by (simp; linarith)
    with Cons.prems(2) show ?thesis by (intro step [OF create_recycled(1) [OF c True]]) simp_all
  next
    case False
    then have z: "ugc_handle_free_count s = 0" using n by simp
    have room: "ugc_handle_count s < int UGC_HANDLE_COUNT" using Cons.prems(2) assms(4) by linarith
    note run = create_fresh [OF c z room, of lay ob t 0 0]
    show ?thesis
    proof (cases "nat (ugc_handle_count s) = i")
      case True
      then have "obs = []" using Cons.prems(3) z by simp
      with True run show ?thesis by (auto simp: handle_simps)
    next
      case less: False
      from step [OF run] less z n Cons.prems(2,3) show ?thesis by (simp add: nat_add_distrib)
    qed
  qed
qed

text \<open>A type set on a destroyed handle makes it look live, and it can be destroyed again.\<close>

lemma revived_handle:
  fixes lay :: "'w::len word layout"
  assumes ok: "store_ok lay s" and l: "handle_lookup lay s h = Some v"
    and hm: "handle_store hm \<noteq> 0" and t: "live_type t"
    and room: "ugc_handle_free_count s + 1 < int UGC_HANDLE_COUNT"
  obtains i s1 s2 s3 where "h = elem_addr (addr_handles lay) i" "i < UGC_HANDLE_COUNT"
    "uDestroyHandle lay h s = Some s1" "SetExtraInfoForHandle lay hm h t e s1 = Some s2"
    "uDestroyHandle lay h s2 = Some s3"
    "free_slots s3 = free_slots s @ [i, i]" "ugc_store_consistent s3"
proof -
  have lay: "layout_ok lay" and inv: "store_inv s" using ok by (auto simp: store_ok_def)
  from l obtain i where i: "h = elem_addr (addr_handles lay) i" "i \<in> live_slots s"
    "v = slot_value s i" "i < UGC_HANDLE_COUNT" by (rule handle_lookup_Some)
  note h = handle_index_simps [OF lay i(4)] and d = destroy_handle_simp [OF lay i(4)]
  have x: "unat (ugc_handle_index lay h) = i" unfolding i(1) by (rule index_of_elem [OF lay i(4)])
  have c: "ugc_store_consistent s" by (rule store_inv_consistent [OF inv])
  have f0: "0 \<le> ugc_handle_free_count s" using c by (simp add: ugc_store_consistent_def)
  let ?s1 = "destroyed i s"
  let ?s2 = "?s1\<lparr>ugc_handle_types := (ugc_handle_types ?s1)(i := t),
                 ugc_handle_extra := (ugc_handle_extra ?s1)(i := e)\<rparr>"
  have r1: "uDestroyHandle lay h s = Some ?s1"
    using destroy_frees [of "ugc_handle_index lay h" s] x i f0 room d
    by (simp add: live_slots_def)
  have r2: "SetExtraInfoForHandle lay hm h t e ?s1 = Some ?s2"
    using hm unfolding i(1) by (simp add: SetExtraInfoForHandle_def store_object_def h)
  have r3: "uDestroyHandle lay h ?s2 = Some (destroyed i ?s2)"
    using destroy_frees [of "ugc_handle_index lay h" ?s2] x i f0 room d t
    by (simp add: live_type_def)
  have "free_slots ?s2 = free_slots ?s1" by (simp add: free_slots_def)
  then have "free_slots (destroyed i ?s2) = free_slots s @ [i, i]"
    using free_slots_push [of ?s2 i] free_slots_push [of s i] f0 by simp
  moreover have "ugc_store_consistent (destroyed i ?s2)"
    using c room i(2) by (auto simp: ugc_store_consistent_def live_slots_def)
  ultimately show ?thesis using that [OF i(1,4) r1 r2 r3] by blast
qed

text \<open>Two creates on a stack that ends with the same index twice return the same handle.\<close>

lemma creates_alias:
  assumes c: "ugc_store_consistent s" and f: "free_slots s = is @ [i, i]"
  shows "\<exists>s1 s2. create_slot lay a t 0 0 s = Some (elem_addr (addr_handles lay) i, s1) \<and>
    create_slot lay b t' 0 0 s1 = Some (elem_addr (addr_handles lay) i, s2)"
proof -
  have n: "2 \<le> ugc_handle_free_count s"
    using length_free_slots [of s] f by simp
  let ?p = "s\<lparr>ugc_handle_free_count := ugc_handle_free_count s - 1\<rparr>"
  let ?q = "?p\<lparr>ugc_handle_free_count := ugc_handle_free_count ?p - 1\<rparr>"
  have p: "free_slots s = free_slots ?p @ [nat (ugc_handle_free_stack s (nat (ugc_handle_free_count s - 1)))]"
    using n by (intro free_slots_pop) simp
  then have i: "nat (ugc_handle_free_stack s (nat (ugc_handle_free_count s - 1))) = i"
    "free_slots ?p = is @ [i]" using f by auto
  have "free_slots ?p = free_slots ?q @ [nat (ugc_handle_free_stack ?p (nat (ugc_handle_free_count ?p - 1)))]"
    using n by (intro free_slots_pop) simp
  then have j: "nat (ugc_handle_free_stack s (nat (ugc_handle_free_count s - 2))) = i"
    using i(2) by simp
  let ?s1 = "filled i a t 0 0 ?p"
  have "create_slot lay a t 0 0 s = Some (elem_addr (addr_handles lay) i, ?s1)"
    using create_recycled(1) [OF c] n i(1) by simp
  moreover have c1: "ugc_store_consistent ?s1"
    using c n by (auto simp: ugc_store_consistent_def)
  have "\<exists>s2. create_slot lay b t' 0 0 ?s1 = Some (elem_addr (addr_handles lay) i, s2)"
    using create_recycled(1) [OF c1] n j by simp
  ultimately show ?thesis by blast
qed

end
