(* ===== verification/Simulation.thy ===== *)
theory Simulation
  imports Prelude
begin

text \<open>
  A component against its abstract specification. The specification says which calls a
  client may make in an abstract state, and which results and next states a call may have.
  A client is a strategy: what it calls next depends on everything it has seen so far. The
  locale carries the one obligation of a forward simulation; from it, every client that
  obeys the specification runs against the code without undefined behaviour, and all it
  observes the specification allows.
\<close>

section \<open>Clients\<close>

text \<open>The histories of a client that the specification allows: every call within its
  precondition, every result allowed.\<close>

inductive spec_history ::
  "('a \<Rightarrow> 'c \<Rightarrow> bool) \<Rightarrow> ('a \<Rightarrow> 'c \<Rightarrow> 'r \<Rightarrow> 'a \<Rightarrow> bool) \<Rightarrow> (('c \<times> 'r) list \<Rightarrow> 'c) \<Rightarrow> 'a \<Rightarrow>
   ('c \<times> 'r) list \<Rightarrow> 'a \<Rightarrow> bool"
  for pre spec client a0 where
  empty: "spec_history pre spec client a0 [] a0"
| extend: "spec_history pre spec client a0 tr a \<Longrightarrow> pre a (client tr) \<Longrightarrow>
    spec a (client tr) r a' \<Longrightarrow> spec_history pre spec client a0 (tr @ [(client tr, r)]) a'"

text \<open>A client obeys the specification when no allowed history leads it to a call outside its
  precondition.\<close>

definition client_obeys ::
  "('a \<Rightarrow> 'c \<Rightarrow> bool) \<Rightarrow> ('a \<Rightarrow> 'c \<Rightarrow> 'r \<Rightarrow> 'a \<Rightarrow> bool) \<Rightarrow> 'a \<Rightarrow> (('c \<times> 'r) list \<Rightarrow> 'c) \<Rightarrow> bool" where
  "client_obeys pre spec a0 client \<longleftrightarrow>
     (\<forall>tr a. spec_history pre spec client a0 tr a \<longrightarrow> pre a (client tr))"

text \<open>The first \<open>n\<close> calls of a client against the code.\<close>

primrec play ::
  "('c \<Rightarrow> 's \<Rightarrow> ('r \<times> 's) option) \<Rightarrow> (('c \<times> 'r) list \<Rightarrow> 'c) \<Rightarrow> 's \<Rightarrow> nat \<Rightarrow>
   (('c \<times> 'r) list \<times> 's) option" where
  "play conc client s0 0 = Some ([], s0)"
| "play conc client s0 (Suc n) =
     do {
       (tr, s) \<leftarrow> play conc client s0 n;
       (r, s') \<leftarrow> conc (client tr) s;
       Some (tr @ [(client tr, r)], s')
     }"

section \<open>The simulation\<close>

locale forward_simulation =
  fixes conc :: "'c \<Rightarrow> 's \<Rightarrow> ('r \<times> 's) option"
    and pre :: "'a \<Rightarrow> 'c \<Rightarrow> bool"
    and spec :: "'a \<Rightarrow> 'c \<Rightarrow> 'r \<Rightarrow> 'a \<Rightarrow> bool"
    and abs :: "'s \<Rightarrow> 'a"
    and inv :: "'s \<Rightarrow> bool"
  assumes simulates: "inv s \<Longrightarrow> pre (abs s) c \<Longrightarrow>
      \<exists>r s'. conc c s = Some (r, s') \<and> inv s' \<and> spec (abs s) c r (abs s')"
begin

lemma play_refines:
  assumes "inv s0" and "client_obeys pre spec (abs s0) client"
  shows "\<exists>tr s. play conc client s0 n = Some (tr, s) \<and> length tr = n \<and> inv s \<and>
    spec_history pre spec client (abs s0) tr (abs s)"
proof (induction n)
  case 0
  show ?case using assms(1) spec_history.empty by auto
next
  case (Suc n)
  then obtain tr s where IH: "play conc client s0 n = Some (tr, s)" "length tr = n" "inv s"
    "spec_history pre spec client (abs s0) tr (abs s)" by blast
  have "pre (abs s) (client tr)" using assms(2) IH(4) by (simp add: client_obeys_def)
  with simulates [OF IH(3)] obtain r s' where
    "conc (client tr) s = Some (r, s')" "inv s'" "spec (abs s) (client tr) r (abs s')" by blast
  with IH \<open>pre (abs s) (client tr)\<close> show ?case
    by (auto intro: spec_history.extend)
qed

end

end
