(* ===== verification/Handle_API.thy ===== *)
theory Handle_API
  imports Handle_Facts Simulation
begin

text \<open>
  The class declarations of \<open>uGCHandleStore.h\<close> and \<open>uGCHandleManager.h\<close> as datatypes of calls,
  the virtual call that sends each to its method, and the specification of the handle API:
  a map from the handles the runtime holds to their values, and what each call does to it.
  The code simulates the specification call by call.
\<close>

section \<open>Calls and results\<close>

datatype 'p handle_value =
    HVoid
  | HBool bool
  | HType int
  | HPtr 'p
  | HHandle 'p

text \<open>The two overloads of \<open>CreateHandleOfType\<close> are two constructors.\<close>

datatype 'p store_method =
    S_Uproot
  | S_ContainsHandle 'p
  | S_CreateHandleOfType 'p int
  | S_CreateHandleOfType_heap 'p int int
  | S_CreateHandleWithExtraInfo 'p int 'p
  | S_CreateDependentHandle 'p 'p
  | S_uDestroyHandle 'p
  | S_uGetDependentHandle 'p
  | S_uSetDependentHandle 'p 'p
  | S_uGetHandleType 'p
  | S_uSetHandleType 'p int
  | S_uGetHandleExtraInfo 'p
  | S_uSetHandleExtraInfo 'p 'p

primrec store_call ::
  "'w::len word clr_interface \<Rightarrow> 'w word layout \<Rightarrow> 'w word store_method \<Rightarrow> 'w word gstate \<Rightarrow>
   ('w word handle_value \<times> 'w word gstate) option" where
  "store_call clr lay S_Uproot s = Some (HVoid, Uproot s)"
| "store_call clr lay (S_ContainsHandle hndl) s = Some (HBool (ContainsHandle lay hndl), s)"
| "store_call clr lay (S_CreateHandleOfType object type) s =
     do { (h, s) \<leftarrow> CreateHandleOfType lay object type s; Some (HHandle h, s) }"
| "store_call clr lay (S_CreateHandleOfType_heap object type heapToAffinitizeTo) s =
     do { (h, s) \<leftarrow> CreateHandleOfType_heap lay object type heapToAffinitizeTo s;
          Some (HHandle h, s) }"
| "store_call clr lay (S_CreateHandleWithExtraInfo object type pExtraInfo) s =
     do { (h, s) \<leftarrow> CreateHandleWithExtraInfo lay object type pExtraInfo s; Some (HHandle h, s) }"
| "store_call clr lay (S_CreateDependentHandle primary secondary) s =
     do { (h, s) \<leftarrow> CreateDependentHandle clr lay primary secondary s; Some (HHandle h, s) }"
| "store_call clr lay (S_uDestroyHandle hndl) s =
     do { s \<leftarrow> uDestroyHandle lay hndl s; Some (HVoid, s) }"
| "store_call clr lay (S_uGetDependentHandle hndl) s =
     do { p \<leftarrow> uGetDependentHandle lay hndl; Some (HPtr p, s) }"
| "store_call clr lay (S_uSetDependentHandle hndl secondary) s =
     do { s \<leftarrow> uSetDependentHandle lay hndl secondary s; Some (HVoid, s) }"
| "store_call clr lay (S_uGetHandleType hndl) s =
     do { t \<leftarrow> uGetHandleType lay hndl s; Some (HType t, s) }"
| "store_call clr lay (S_uSetHandleType hndl type) s =
     do { s \<leftarrow> uSetHandleType lay hndl type s; Some (HVoid, s) }"
| "store_call clr lay (S_uGetHandleExtraInfo hndl) s =
     do { e \<leftarrow> uGetHandleExtraInfo lay hndl s; Some (HPtr e, s) }"
| "store_call clr lay (S_uSetHandleExtraInfo hndl extraInfo) s =
     do { s \<leftarrow> uSetHandleExtraInfo lay hndl extraInfo s; Some (HVoid, s) }"

text \<open>\<open>Initialize\<close> carries the address operator \<open>new\<close> returns.\<close>

datatype 'p manager_method =
    HM_Initialize 'p
  | HM_Shutdown
  | HM_GetGlobalHandleStore
  | HM_CreateHandleStore
  | HM_DestroyHandleStore 'p
  | HM_CreateGlobalHandleOfType 'p int
  | HM_CreateDuplicateHandle 'p
  | HM_DestroyHandleOfType 'p int
  | HM_DestroyHandleOfUnknownType 'p
  | HM_SetExtraInfoForHandle 'p int 'p
  | HM_GetExtraInfoFromHandle 'p
  | HM_StoreObjectInHandle 'p 'p
  | HM_StoreObjectInHandleIfNull 'p 'p
  | HM_SetDependentHandleSecondary 'p 'p
  | HM_GetDependentHandleSecondary 'p
  | HM_InterlockedCompareExchangeObjectInHandle 'p 'p 'p
  | HM_HandleFetchType 'p
  | HM_TraceRefCountedHandles 'p 'p 'p

primrec manager_call ::
  "'w::len word layout \<Rightarrow> 'w word manager_method \<Rightarrow> 'w word handle_manager \<Rightarrow> 'w word gstate \<Rightarrow>
   ('w word handle_value \<times> 'w word handle_manager \<times> 'w word gstate) option" where
  "manager_call lay (HM_Initialize new_store) hm s =
     (case hm_Initialize new_store hm of (b, hm) \<Rightarrow> Some (HBool b, hm, s))"
| "manager_call lay HM_Shutdown hm s = Some (HVoid, hm_Shutdown hm, s)"
| "manager_call lay HM_GetGlobalHandleStore hm s = Some (HPtr (GetGlobalHandleStore hm), hm, s)"
| "manager_call lay HM_CreateHandleStore hm s = Some (HPtr (CreateHandleStore hm), hm, s)"
| "manager_call lay (HM_DestroyHandleStore store) hm s =
     Some (HVoid, DestroyHandleStore store hm, s)"
| "manager_call lay (HM_CreateGlobalHandleOfType object type) hm s =
     do { (h, s) \<leftarrow> CreateGlobalHandleOfType lay hm object type s; Some (HHandle h, hm, s) }"
| "manager_call lay (HM_CreateDuplicateHandle handle) hm s =
     do { (h, s) \<leftarrow> CreateDuplicateHandle lay hm handle s; Some (HHandle h, hm, s) }"
| "manager_call lay (HM_DestroyHandleOfType handle type) hm s =
     do { s \<leftarrow> DestroyHandleOfType lay hm handle type s; Some (HVoid, hm, s) }"
| "manager_call lay (HM_DestroyHandleOfUnknownType handle) hm s =
     do { s \<leftarrow> DestroyHandleOfUnknownType lay hm handle s; Some (HVoid, hm, s) }"
| "manager_call lay (HM_SetExtraInfoForHandle handle type pExtraInfo) hm s =
     do { s \<leftarrow> SetExtraInfoForHandle lay hm handle type pExtraInfo s; Some (HVoid, hm, s) }"
| "manager_call lay (HM_GetExtraInfoFromHandle handle) hm s =
     do { e \<leftarrow> GetExtraInfoFromHandle lay hm handle s; Some (HPtr e, hm, s) }"
| "manager_call lay (HM_StoreObjectInHandle handle object) hm s =
     do { s \<leftarrow> StoreObjectInHandle lay handle object s; Some (HVoid, hm, s) }"
| "manager_call lay (HM_StoreObjectInHandleIfNull handle object) hm s =
     do { (b, s) \<leftarrow> StoreObjectInHandleIfNull lay handle object s; Some (HBool b, hm, s) }"
| "manager_call lay (HM_SetDependentHandleSecondary handle object) hm s =
     do { s \<leftarrow> SetDependentHandleSecondary lay hm handle object s; Some (HVoid, hm, s) }"
| "manager_call lay (HM_GetDependentHandleSecondary handle) hm s =
     do { p \<leftarrow> GetDependentHandleSecondary lay hm handle s; Some (HPtr p, hm, s) }"
| "manager_call lay (HM_InterlockedCompareExchangeObjectInHandle handle object oldObject) hm s =
     do { (p, s) \<leftarrow> InterlockedCompareExchangeObjectInHandle lay handle object oldObject s;
          Some (HPtr p, hm, s) }"
| "manager_call lay (HM_HandleFetchType handle) hm s =
     do { t \<leftarrow> HandleFetchType lay hm handle s; Some (HType t, hm, s) }"
| "manager_call lay (HM_TraceRefCountedHandles callback param1 param2) hm s =
     Some (HVoid, hm, TraceRefCountedHandles s)"

text \<open>A call of the runtime goes to the manager, or to a store object the manager gave out:
  a store method on the null pointer is undefined behaviour.\<close>

datatype 'p handle_call =
    On_Manager "'p manager_method"
  | On_Store 'p "'p store_method"

primrec handle_api ::
  "'w::len word clr_interface \<Rightarrow> 'w word layout \<Rightarrow> 'w word handle_call \<Rightarrow>
   'w word handle_manager \<times> 'w word gstate \<Rightarrow>
   ('w word handle_value \<times> 'w word handle_manager \<times> 'w word gstate) option" where
  "handle_api clr lay (On_Manager c) st = manager_call lay c (fst st) (snd st)"
| "handle_api clr lay (On_Store p c) st =
     (if p = 0 then None
      else do { (r, s) \<leftarrow> store_call clr lay c (snd st); Some (r, fst st, s) })"

section \<open>The specification\<close>

text \<open>What the runtime may think the state is: the store object the manager gives out (null
  before \<open>Initialize\<close>) and the value of every handle it holds.\<close>

record 'p handle_spec =
  spec_store :: 'p
  held_values :: "'p \<rightharpoonup> 'p aslot"

definition is_held :: "'p handle_spec \<Rightarrow> 'p \<Rightarrow> bool" where
  "is_held a h \<longleftrightarrow> held_values a h \<noteq> None"

text \<open>Which calls are allowed: methods that use the store come after \<open>Initialize\<close>, handles are
  held (null where the code tests for it), and the types of handles are not negative.\<close>

primrec store_pre :: "'p::zero store_method \<Rightarrow> 'p handle_spec \<Rightarrow> bool" where
  "store_pre S_Uproot a = True"
| "store_pre (S_ContainsHandle h) a = (h = 0 \<or> is_held a h)"
| "store_pre (S_CreateHandleOfType object type) a = live_type type"
| "store_pre (S_CreateHandleOfType_heap object type heap) a = live_type type"
| "store_pre (S_CreateHandleWithExtraInfo object type extra) a = live_type type"
| "store_pre (S_CreateDependentHandle primary secondary) a = True"
| "store_pre (S_uDestroyHandle h) a = (h = 0 \<or> is_held a h)"
| "store_pre (S_uGetDependentHandle h) a = is_held a h"
| "store_pre (S_uSetDependentHandle h secondary) a = is_held a h"
| "store_pre (S_uGetHandleType h) a = is_held a h"
| "store_pre (S_uSetHandleType h type) a = (is_held a h \<and> live_type type)"
| "store_pre (S_uGetHandleExtraInfo h) a = is_held a h"
| "store_pre (S_uSetHandleExtraInfo h extra) a = is_held a h"

primrec manager_pre :: "'p::zero manager_method \<Rightarrow> 'p handle_spec \<Rightarrow> bool" where
  "manager_pre (HM_Initialize new_store) a = (new_store \<noteq> 0)"
| "manager_pre HM_Shutdown a = True"
| "manager_pre HM_GetGlobalHandleStore a = True"
| "manager_pre HM_CreateHandleStore a = True"
| "manager_pre (HM_DestroyHandleStore store) a = True"
| "manager_pre (HM_CreateGlobalHandleOfType object type) a = (spec_store a \<noteq> 0 \<and> live_type type)"
| "manager_pre (HM_CreateDuplicateHandle h) a = (h = 0 \<or> spec_store a \<noteq> 0 \<and> is_held a h)"
| "manager_pre (HM_DestroyHandleOfType h type) a = (spec_store a \<noteq> 0 \<and> (h = 0 \<or> is_held a h))"
| "manager_pre (HM_DestroyHandleOfUnknownType h) a = (spec_store a \<noteq> 0 \<and> (h = 0 \<or> is_held a h))"
| "manager_pre (HM_SetExtraInfoForHandle h type extra) a =
     (spec_store a \<noteq> 0 \<and> is_held a h \<and> live_type type)"
| "manager_pre (HM_GetExtraInfoFromHandle h) a = (spec_store a \<noteq> 0 \<and> is_held a h)"
| "manager_pre (HM_StoreObjectInHandle h object) a = is_held a h"
| "manager_pre (HM_StoreObjectInHandleIfNull h object) a = is_held a h"
| "manager_pre (HM_SetDependentHandleSecondary h object) a = (spec_store a \<noteq> 0 \<and> is_held a h)"
| "manager_pre (HM_GetDependentHandleSecondary h) a = (spec_store a \<noteq> 0 \<and> is_held a h)"
| "manager_pre (HM_InterlockedCompareExchangeObjectInHandle h object comparand) a = is_held a h"
| "manager_pre (HM_HandleFetchType h) a = (spec_store a \<noteq> 0 \<and> is_held a h)"
| "manager_pre (HM_TraceRefCountedHandles callback param1 param2) a = True"

primrec handle_pre :: "'p::zero handle_spec \<Rightarrow> 'p handle_call \<Rightarrow> bool" where
  "handle_pre a (On_Manager c) = manager_pre c a"
| "handle_pre a (On_Store p c) = (p \<noteq> 0 \<and> p = spec_store a \<and> store_pre c a)"

text \<open>A create returns null and changes nothing, or returns a handle nobody holds, which then
  has the value asked for.\<close>

definition creates ::
  "'p::zero aslot \<Rightarrow> 'p handle_spec \<Rightarrow> 'p handle_value \<Rightarrow> 'p handle_spec \<Rightarrow> bool" where
  "creates v a r a' \<longleftrightarrow>
     r = HHandle 0 \<and> a' = a \<or>
     (\<exists>h. h \<noteq> 0 \<and> held_values a h = None \<and> r = HHandle h \<and> a' = a\<lparr>held_values := (held_values a)(h \<mapsto> v)\<rparr>)"

definition plain_value :: "'p::zero \<Rightarrow> int \<Rightarrow> 'p aslot" where
  "plain_value object type = \<lparr>a_object = object, a_type = type, a_extra = 0, a_secondary = 0\<rparr>"

text \<open>One field of one held handle changes.\<close>

definition updates ::
  "'p \<Rightarrow> ('p aslot \<Rightarrow> 'p aslot) \<Rightarrow> 'p handle_spec \<Rightarrow> 'p handle_spec \<Rightarrow> bool" where
  "updates h f a a' \<longleftrightarrow>
     (\<exists>v. held_values a h = Some v \<and> a' = a\<lparr>held_values := (held_values a)(h \<mapsto> f v)\<rparr>)"

definition reads ::
  "'p \<Rightarrow> ('p aslot \<Rightarrow> 'p handle_value) \<Rightarrow> 'p handle_spec \<Rightarrow> 'p handle_value \<Rightarrow>
   'p handle_spec \<Rightarrow> bool" where
  "reads h f a r a' \<longleftrightarrow> (\<exists>v. held_values a h = Some v \<and> r = f v) \<and> a' = a"

definition forgets :: "'p \<Rightarrow> 'p handle_spec \<Rightarrow> 'p handle_spec \<Rightarrow> bool" where
  "forgets h a a' \<longleftrightarrow> a' = a\<lparr>held_values := (held_values a)(h := None)\<rparr>"

primrec store_spec ::
  "'w::len word clr_interface \<Rightarrow> 'w word store_method \<Rightarrow> 'w word handle_spec \<Rightarrow>
   'w word handle_value \<Rightarrow> 'w word handle_spec \<Rightarrow> bool" where
  "store_spec clr S_Uproot a r a' = (r = HVoid \<and> a' = a)"
| "store_spec clr (S_ContainsHandle h) a r a' = (r = HBool (h \<noteq> 0) \<and> a' = a)"
| "store_spec clr (S_CreateHandleOfType object type) a r a' =
     creates (plain_value object type) a r a'"
| "store_spec clr (S_CreateHandleOfType_heap object type heap) a r a' =
     creates (plain_value object type) a r a'"
| "store_spec clr (S_CreateHandleWithExtraInfo object type extra) a r a' =
     creates ((plain_value object type)\<lparr>a_extra := extra\<rparr>) a r a'"
| "store_spec clr (S_CreateDependentHandle primary secondary) a r a' =
     creates ((plain_value primary (hndtype_dependent clr))\<lparr>a_secondary := secondary\<rparr>) a r a'"
| "store_spec clr (S_uDestroyHandle h) a r a' = (r = HVoid \<and> forgets h a a')"
| "store_spec clr (S_uGetDependentHandle h) a r a' = (\<exists>p. p \<noteq> 0 \<and> r = HPtr p \<and> a' = a)"
| "store_spec clr (S_uSetDependentHandle h secondary) a r a' =
     (r = HVoid \<and> updates h (a_secondary_update (\<lambda>_. secondary)) a a')"
| "store_spec clr (S_uGetHandleType h) a r a' = reads h (\<lambda>v. HType (a_type v)) a r a'"
| "store_spec clr (S_uSetHandleType h type) a r a' =
     (r = HVoid \<and> updates h (a_type_update (\<lambda>_. type)) a a')"
| "store_spec clr (S_uGetHandleExtraInfo h) a r a' = reads h (\<lambda>v. HPtr (a_extra v)) a r a'"
| "store_spec clr (S_uSetHandleExtraInfo h extra) a r a' =
     (r = HVoid \<and> updates h (a_extra_update (\<lambda>_. extra)) a a')"

primrec manager_spec ::
  "'w::len word manager_method \<Rightarrow> 'w word handle_spec \<Rightarrow> 'w word handle_value \<Rightarrow>
   'w word handle_spec \<Rightarrow> bool" where
  "manager_spec (HM_Initialize new_store) a r a' =
     (r = HBool True \<and> a' = a\<lparr>spec_store := new_store\<rparr>)"
| "manager_spec HM_Shutdown a r a' = (r = HVoid \<and> a' = a)"
| "manager_spec HM_GetGlobalHandleStore a r a' = (r = HPtr (spec_store a) \<and> a' = a)"
| "manager_spec HM_CreateHandleStore a r a' = (r = HPtr (spec_store a) \<and> a' = a)"
| "manager_spec (HM_DestroyHandleStore store) a r a' = (r = HVoid \<and> a' = a)"
| "manager_spec (HM_CreateGlobalHandleOfType object type) a r a' =
     creates (plain_value object type) a r a'"
| "manager_spec (HM_CreateDuplicateHandle h) a r a' =
     (if h = 0 then r = HHandle 0 \<and> a' = a
      else \<exists>v. held_values a h = Some v \<and> creates (plain_value (a_object v) (a_type v)) a r a')"
| "manager_spec (HM_DestroyHandleOfType h type) a r a' = (r = HVoid \<and> forgets h a a')"
| "manager_spec (HM_DestroyHandleOfUnknownType h) a r a' = (r = HVoid \<and> forgets h a a')"
| "manager_spec (HM_SetExtraInfoForHandle h type extra) a r a' =
     (r = HVoid \<and> updates h (\<lambda>v. v\<lparr>a_type := type, a_extra := extra\<rparr>) a a')"
| "manager_spec (HM_GetExtraInfoFromHandle h) a r a' = reads h (\<lambda>v. HPtr (a_extra v)) a r a'"
| "manager_spec (HM_StoreObjectInHandle h object) a r a' =
     (r = HVoid \<and> updates h (a_object_update (\<lambda>_. object)) a a')"
| "manager_spec (HM_StoreObjectInHandleIfNull h object) a r a' =
     (\<exists>v. held_values a h = Some v \<and> r = HBool (a_object v = 0) \<and>
       (if a_object v = 0 then updates h (a_object_update (\<lambda>_. object)) a a' else a' = a))"
| "manager_spec (HM_SetDependentHandleSecondary h object) a r a' =
     (r = HVoid \<and> updates h (a_secondary_update (\<lambda>_. object)) a a')"
| "manager_spec (HM_GetDependentHandleSecondary h) a r a' =
     reads h (\<lambda>v. HPtr (a_secondary v)) a r a'"
| "manager_spec (HM_InterlockedCompareExchangeObjectInHandle h object comparand) a r a' =
     (\<exists>v. held_values a h = Some v \<and> r = HPtr (if a_object v = comparand then object else a_object v) \<and>
       (if a_object v = comparand then updates h (a_object_update (\<lambda>_. object)) a a' else a' = a))"
| "manager_spec (HM_HandleFetchType h) a r a' = reads h (\<lambda>v. HType (a_type v)) a r a'"
| "manager_spec (HM_TraceRefCountedHandles callback param1 param2) a r a' = (r = HVoid \<and> a' = a)"

definition handle_api_spec ::
  "'w::len word clr_interface \<Rightarrow> 'w word handle_spec \<Rightarrow> 'w word handle_call \<Rightarrow>
   'w word handle_value \<Rightarrow> 'w word handle_spec \<Rightarrow> bool" where
  "handle_api_spec clr a c r a' =
     (case c of On_Manager m \<Rightarrow> manager_spec m a r a' | On_Store p m \<Rightarrow> store_spec clr m a r a')"

text \<open>What the code's state means.\<close>

definition handle_abs ::
  "'w::len word layout \<Rightarrow> 'w word handle_manager \<times> 'w word gstate \<Rightarrow> 'w word handle_spec" where
  "handle_abs lay st = \<lparr>spec_store = handle_store (fst st), held_values = handle_lookup lay (snd st)\<rparr>"

definition handle_api_inv ::
  "'w::len word clr_interface \<Rightarrow> 'w word layout \<Rightarrow> 'w word handle_manager \<times> 'w word gstate \<Rightarrow> bool" where
  "handle_api_inv clr lay st \<longleftrightarrow> store_ok lay (snd st) \<and> live_type (hndtype_dependent clr)"

section \<open>The code simulates it\<close>

lemma handle_abs_sel [simp]:
  "spec_store (handle_abs lay st) = handle_store (fst st)"
  "held_values (handle_abs lay st) = handle_lookup lay (snd st)"
  by (simp_all add: handle_abs_def)

lemma handle_abs_upd:
  "(handle_abs lay (hm, s))\<lparr>held_values := m\<rparr> = \<lparr>spec_store = handle_store hm, held_values = m\<rparr>"
  "(handle_abs lay (hm, s))\<lparr>spec_store := p\<rparr> = \<lparr>spec_store = p, held_values = handle_lookup lay s\<rparr>"
  by (simp_all add: handle_abs_def)

text \<open>Creating a value the client may give.\<close>

lemma sim_create:
  assumes ok: "store_ok lay s" and t: "live_type type" and one: "extra = 0 \<or> dep = 0"
  shows "\<exists>h s'. create_slot lay object type extra dep s = Some (h, s') \<and> store_ok lay s' \<and>
    creates \<lparr>a_object = object, a_type = type, a_extra = extra, a_secondary = dep\<rparr>
      (handle_abs lay (hm, s)) (HHandle h) (handle_abs lay (hm, s'))"
proof -
  let ?v = "\<lparr>a_object = object, a_type = type, a_extra = extra, a_secondary = dep\<rparr>"
  have g: "good_value ?v" using t one by (simp add: good_value_def)
  have c: "create_value lay ?v s = create_slot lay object type extra dep s"
    by (simp add: create_value_slot [OF g])
  obtain h s' where run: "create_slot lay object type extra dep s = Some (h, s')"
    using create_slot_defined ok by (fastforce simp: store_ok_def)
  have "store_ok lay s' \<and> creates ?v (handle_abs lay (hm, s)) (HHandle h) (handle_abs lay (hm, s'))"
  proof (cases "h = 0")
    case True
    then have "s' = s" using create_value_null [OF ok g] run c by simp
    with ok True show ?thesis by (simp add: creates_def)
  next
    case False
    with create_value_new [OF ok g, of h s'] run c show ?thesis
      by (simp add: creates_def handle_abs_def)
  qed
  with run show ?thesis by blast
qed

text \<open>Destroying a held handle, or null.\<close>

lemma sim_destroy:
  assumes ok: "store_ok lay s" and h: "h = 0 \<or> handle_lookup lay s h \<noteq> None"
  shows "\<exists>s'. uDestroyHandle lay h s = Some s' \<and> store_ok lay s' \<and>
    forgets h (handle_abs lay (hm, s)) (handle_abs lay (hm, s'))"
proof (cases "handle_lookup lay s h")
  case None
  with h have "h = 0" by simp
  moreover have lay: "layout_ok lay" using ok by (simp add: store_ok_def)
  ultimately have "uDestroyHandle lay h s = Some s"
    using foreign_destroy null_not_contained by blast
  moreover have "(handle_lookup lay s)(h := None) = handle_lookup lay s"
    using None by auto
  ultimately show ?thesis using ok by (simp add: forgets_def handle_abs_def)
next
  case (Some v)
  with destroy_handle_lookup [OF ok] show ?thesis
    by (fastforce simp: forgets_def handle_abs_def)
qed

text \<open>Reading and setting the fields of a held handle.\<close>

lemma held_reads:
  assumes ok: "store_ok lay s" and l: "handle_lookup lay s h = Some v"
  shows "uGetHandleType lay h s = Some (a_type v)"
    and "uGetHandleExtraInfo lay h s = Some (a_extra v)"
    and "\<exists>p. p \<noteq> 0 \<and> uGetDependentHandle lay h = Some p"
    and "ContainsHandle lay h" and "h \<noteq> 0"
proof -
  have lay: "layout_ok lay" using ok by (simp add: store_ok_def)
  from l obtain i where i: "h = elem_addr (addr_handles lay) i" "v = slot_value s i"
    "i < UGC_HANDLE_COUNT" by (rule handle_lookup_Some)
  note h = handle_index_simps [OF lay i(3)]
  show "uGetHandleType lay h s = Some (a_type v)"
    "uGetHandleExtraInfo lay h s = Some (a_extra v)"
    unfolding i by (simp_all add: h slot_value_def)
  show "\<exists>p. p \<noteq> 0 \<and> uGetDependentHandle lay h = Some p"
    using dependent_addr(1) [OF lay i(3)] unfolding i by (simp add: h)
  show "ContainsHandle lay h" unfolding i by (rule h(7))
  show "h \<noteq> 0" using handle_addr(3) [OF lay i(3)] i(1) by simp
qed

lemma held_sets:
  assumes ok: "store_ok lay s" and l: "handle_lookup lay s h = Some v"
  shows "\<exists>s'. uSetDependentHandle lay h d s = Some s' \<and> store_ok lay s' \<and>
      handle_lookup lay s' = (handle_lookup lay s)(h \<mapsto> v\<lparr>a_secondary := d\<rparr>)"
    and "\<exists>s'. uSetHandleExtraInfo lay h e s = Some s' \<and> store_ok lay s' \<and>
      handle_lookup lay s' = (handle_lookup lay s)(h \<mapsto> v\<lparr>a_extra := e\<rparr>)"
    and "live_type t \<Longrightarrow> \<exists>s'. uSetHandleType lay h t s = Some s' \<and> store_ok lay s' \<and>
      handle_lookup lay s' = (handle_lookup lay s)(h \<mapsto> v\<lparr>a_type := t\<rparr>)"
proof -
  have lay: "layout_ok lay" and inv: "store_inv s" using ok by (auto simp: store_ok_def)
  from l obtain i where i: "h = elem_addr (addr_handles lay) i" "i \<in> live_slots s"
    "v = slot_value s i" "i < UGC_HANDLE_COUNT" by (rule handle_lookup_Some)
  note h = handle_index_simps [OF lay i(4)] and set = lookup_set_field [OF lay i(4,2)]
  let ?d = "s\<lparr>ugc_handle_dependent := (ugc_handle_dependent s)(i := d)\<rparr>"
  have "store_ok lay ?d" by (rule store_ok_same [OF _ ok]) (simp add: same_slots_def)
  moreover have "handle_lookup lay ?d = (handle_lookup lay s)(h \<mapsto> v\<lparr>a_secondary := d\<rparr>)"
    unfolding i by (rule set) (simp_all add: slot_value_upd)
  ultimately show "\<exists>s'. uSetDependentHandle lay h d s = Some s' \<and> store_ok lay s' \<and>
      handle_lookup lay s' = (handle_lookup lay s)(h \<mapsto> v\<lparr>a_secondary := d\<rparr>)"
    unfolding i by (simp add: h)
  let ?e = "s\<lparr>ugc_handle_extra := (ugc_handle_extra s)(i := e)\<rparr>"
  have "store_ok lay ?e" by (rule store_ok_same [OF _ ok]) (simp add: same_slots_def)
  moreover have "handle_lookup lay ?e = (handle_lookup lay s)(h \<mapsto> v\<lparr>a_extra := e\<rparr>)"
    unfolding i by (rule set) (simp_all add: slot_value_upd)
  ultimately show "\<exists>s'. uSetHandleExtraInfo lay h e s = Some s' \<and> store_ok lay s' \<and>
      handle_lookup lay s' = (handle_lookup lay s)(h \<mapsto> v\<lparr>a_extra := e\<rparr>)"
    unfolding i by (simp add: h)
  assume t: "live_type t"
  let ?t = "s\<lparr>ugc_handle_types := (ugc_handle_types s)(i := t)\<rparr>"
  have run: "uSetHandleType lay h t s = Some ?t" unfolding i by (simp add: h)
  have x: "unat (ugc_handle_index lay h) \<in> live_slots s"
    using index_of_elem [OF lay i(4)] i(1,2) by simp
  note T = set_type_live [OF inv x t [unfolded live_type_def] run [unfolded uSetHandleType_def]]
  have "handle_lookup lay ?t = (handle_lookup lay s)(h \<mapsto> v\<lparr>a_type := t\<rparr>)"
    unfolding i by (rule set) (use T in \<open>auto simp: slot_value_upd\<close>)
  with run T(1) lay show "\<exists>s'. uSetHandleType lay h t s = Some s' \<and> store_ok lay s' \<and>
      handle_lookup lay s' = (handle_lookup lay s)(h \<mapsto> v\<lparr>a_type := t\<rparr>)"
    by (auto simp: store_ok_def)
qed

lemma sim_update:
  assumes "\<exists>s'. run = Some s' \<and> store_ok lay s' \<and> handle_lookup lay s' = (handle_lookup lay s)(h \<mapsto> f v)"
    and "handle_lookup lay s h = Some v"
  shows "\<exists>s'. run = Some s' \<and> store_ok lay s' \<and>
    updates h f (handle_abs lay (hm, s)) (handle_abs lay (hm, s'))"
  using assms by (auto simp: updates_def handle_abs_def)

lemma sim_read:
  "handle_lookup lay s h = Some v \<Longrightarrow> f v = r \<Longrightarrow>
     reads h f (handle_abs lay (hm, s)) r (handle_abs lay (hm, s))"
  by (auto simp: reads_def)

text \<open>The methods of both classes by what they do: create or destroy a handle, change a held one,
  read one, or leave the store alone.\<close>

datatype method_group = Slots | Updates | Reads | Others

primrec store_group :: "'p store_method \<Rightarrow> method_group" where
  "store_group S_Uproot = Others"
| "store_group (S_ContainsHandle x0) = Others"
| "store_group (S_CreateHandleOfType x0 x1) = Slots"
| "store_group (S_CreateHandleOfType_heap x0 x1 x2) = Slots"
| "store_group (S_CreateHandleWithExtraInfo x0 x1 x2) = Slots"
| "store_group (S_CreateDependentHandle x0 x1) = Slots"
| "store_group (S_uDestroyHandle x0) = Slots"
| "store_group (S_uGetDependentHandle x0) = Reads"
| "store_group (S_uSetDependentHandle x0 x1) = Updates"
| "store_group (S_uGetHandleType x0) = Reads"
| "store_group (S_uSetHandleType x0 x1) = Updates"
| "store_group (S_uGetHandleExtraInfo x0) = Reads"
| "store_group (S_uSetHandleExtraInfo x0 x1) = Updates"

primrec manager_group :: "'p manager_method \<Rightarrow> method_group" where
  "manager_group (HM_Initialize x0) = Others"
| "manager_group HM_Shutdown = Others"
| "manager_group HM_GetGlobalHandleStore = Others"
| "manager_group HM_CreateHandleStore = Others"
| "manager_group (HM_DestroyHandleStore x0) = Others"
| "manager_group (HM_CreateGlobalHandleOfType x0 x1) = Slots"
| "manager_group (HM_CreateDuplicateHandle x0) = Slots"
| "manager_group (HM_DestroyHandleOfType x0 x1) = Slots"
| "manager_group (HM_DestroyHandleOfUnknownType x0) = Slots"
| "manager_group (HM_SetExtraInfoForHandle x0 x1 x2) = Updates"
| "manager_group (HM_GetExtraInfoFromHandle x0) = Reads"
| "manager_group (HM_StoreObjectInHandle x0 x1) = Updates"
| "manager_group (HM_StoreObjectInHandleIfNull x0 x1) = Updates"
| "manager_group (HM_SetDependentHandleSecondary x0 x1) = Updates"
| "manager_group (HM_GetDependentHandleSecondary x0) = Reads"
| "manager_group (HM_InterlockedCompareExchangeObjectInHandle x0 x1 x2) = Updates"
| "manager_group (HM_HandleFetchType x0) = Reads"
| "manager_group (HM_TraceRefCountedHandles x0 x1 x2) = Others"

lemma sim_store_slots:
  assumes ok: "store_ok lay s" and dep: "live_type (hndtype_dependent clr)"
    and pre: "store_pre c (handle_abs lay (hm, s))" and c: "store_group c = Slots"
  shows "\<exists>r s'. store_call clr lay c s = Some (r, s') \<and> store_ok lay s' \<and>
    store_spec clr c (handle_abs lay (hm, s)) r (handle_abs lay (hm, s'))"
proof (cases c)
  case (S_CreateHandleOfType object type)
  with pre have "live_type type" by simp
  from sim_create [OF ok this, of 0 0 object hm] S_CreateHandleOfType show ?thesis
    by (fastforce simp: handle_simps plain_value_def)
next
  case (S_CreateHandleOfType_heap object type heap)
  with pre have "live_type type" by simp
  from sim_create [OF ok this, of 0 0 object hm] S_CreateHandleOfType_heap show ?thesis
    by (fastforce simp: handle_simps plain_value_def)
next
  case (S_CreateHandleWithExtraInfo object type extra)
  with pre have "live_type type" by simp
  from sim_create [OF ok this, of extra 0 object hm] S_CreateHandleWithExtraInfo show ?thesis
    by (fastforce simp: handle_simps plain_value_def)
next
  case (S_CreateDependentHandle primary secondary)
  from sim_create [OF ok dep, of 0 secondary primary hm] S_CreateDependentHandle show ?thesis
    by (fastforce simp: handle_simps plain_value_def)
next
  case (S_uDestroyHandle h)
  with pre sim_destroy [OF ok, of h hm] show ?thesis by (fastforce simp: is_held_def)
qed (use c in simp_all)

lemma sim_store_updates:
  assumes ok: "store_ok lay s"
    and pre: "store_pre c (handle_abs lay (hm, s))" and c: "store_group c = Updates"
  shows "\<exists>r s'. store_call clr lay c s = Some (r, s') \<and> store_ok lay s' \<and>
    store_spec clr c (handle_abs lay (hm, s)) r (handle_abs lay (hm, s'))"
proof (cases c)
  case (S_uSetDependentHandle h d)
  with pre obtain v where v: "handle_lookup lay s h = Some v" by (auto simp: is_held_def)
  from sim_update [where f = "a_secondary_update (\<lambda>_. d)" and hm = hm, OF held_sets(1) [OF ok v] v] S_uSetDependentHandle show ?thesis by fastforce
next
  case (S_uSetHandleType h t)
  with pre obtain v where v: "handle_lookup lay s h = Some v" "live_type t"
    by (auto simp: is_held_def)
  from sim_update [where f = "a_type_update (\<lambda>_. t)" and hm = hm, OF held_sets(3) [OF ok v(1,2)] v(1)] S_uSetHandleType show ?thesis by fastforce
next
  case (S_uSetHandleExtraInfo h e)
  with pre obtain v where v: "handle_lookup lay s h = Some v" by (auto simp: is_held_def)
  from sim_update [where f = "a_extra_update (\<lambda>_. e)" and hm = hm, OF held_sets(2) [OF ok v] v] S_uSetHandleExtraInfo show ?thesis by fastforce
qed (use c in simp_all)

lemma sim_store_reads:
  assumes ok: "store_ok lay s"
    and pre: "store_pre c (handle_abs lay (hm, s))" and c: "store_group c = Reads"
  shows "\<exists>r s'. store_call clr lay c s = Some (r, s') \<and> store_ok lay s' \<and>
    store_spec clr c (handle_abs lay (hm, s)) r (handle_abs lay (hm, s'))"
proof (cases c)
  case (S_uGetDependentHandle h)
  with pre obtain v where "handle_lookup lay s h = Some v" by (auto simp: is_held_def)
  with ok held_reads(3) [OF ok this] S_uGetDependentHandle show ?thesis by auto
next
  case (S_uGetHandleType h)
  with pre obtain v where v: "handle_lookup lay s h = Some v" by (auto simp: is_held_def)
  with ok held_reads(1) [OF ok v] S_uGetHandleType show ?thesis by (simp add: sim_read)
next
  case (S_uGetHandleExtraInfo h)
  with pre obtain v where v: "handle_lookup lay s h = Some v" by (auto simp: is_held_def)
  with ok held_reads(2) [OF ok v] S_uGetHandleExtraInfo show ?thesis by (simp add: sim_read)
qed (use c in simp_all)

lemma sim_store_others:
  assumes ok: "store_ok lay s"
    and pre: "store_pre c (handle_abs lay (hm, s))" and c: "store_group c = Others"
  shows "\<exists>r s'. store_call clr lay c s = Some (r, s') \<and> store_ok lay s' \<and>
    store_spec clr c (handle_abs lay (hm, s)) r (handle_abs lay (hm, s'))"
proof (cases c)
  case S_Uproot
  with ok show ?thesis by (simp add: Uproot_def)
next
  case (S_ContainsHandle h)
  have "ContainsHandle lay h \<longleftrightarrow> h \<noteq> 0"
    using pre S_ContainsHandle held_reads(4,5) [OF ok] null_not_contained [of lay] ok
    by (auto simp: is_held_def store_ok_def)
  with ok S_ContainsHandle show ?thesis by simp
qed (use c in simp_all)

lemma store_call_simulates:
  assumes ok: "store_ok lay s" and dep: "live_type (hndtype_dependent clr)"
    and pre: "store_pre c (handle_abs lay (hm, s))"
  shows "\<exists>r s'. store_call clr lay c s = Some (r, s') \<and> store_ok lay s' \<and>
    store_spec clr c (handle_abs lay (hm, s)) r (handle_abs lay (hm, s'))"
  using sim_store_slots [OF ok dep pre] sim_store_updates [OF ok pre] sim_store_reads [OF ok pre]
    sim_store_others [OF ok pre]
  by (cases "store_group c")

lemma sim_manager_slots:
  assumes ok: "store_ok lay s"
    and pre: "manager_pre c (handle_abs lay (hm, s))" and c: "manager_group c = Slots"
  shows "\<exists>r hm' s'. manager_call lay c hm s = Some (r, hm', s') \<and> store_ok lay s' \<and>
    manager_spec c (handle_abs lay (hm, s)) r (handle_abs lay (hm', s'))"
proof (cases c)
  case (HM_CreateGlobalHandleOfType object type)
  with pre have "live_type type" and "handle_store hm \<noteq> 0" by simp_all
  with sim_create [OF ok this(1), of 0 0 object hm] HM_CreateGlobalHandleOfType show ?thesis
    by (fastforce simp: CreateGlobalHandleOfType_def store_object_def handle_simps plain_value_def)
next
  case (HM_CreateDuplicateHandle h)
  show ?thesis
  proof (cases "h = 0")
    case True
    with ok HM_CreateDuplicateHandle show ?thesis by (simp add: CreateDuplicateHandle_def)
  next
    case False
    with pre HM_CreateDuplicateHandle obtain v where v: "handle_lookup lay s h = Some v"
      and st: "handle_store hm \<noteq> 0" by (auto simp: is_held_def)
    have "good_value \<lparr>a_object = a_object v, a_type = a_type v, a_extra = 0, a_secondary = 0\<rparr>"
      using duplicate_handle(2) [OF ok v st] by (simp add: good_value_def)
    then have "CreateDuplicateHandle lay hm h s = create_slot lay (a_object v) (a_type v) 0 0 s"
      using duplicate_handle(1) [OF ok v st] by (simp add: create_value_slot)
    with sim_create [OF ok duplicate_handle(2) [OF ok v st], of 0 0 "a_object v" hm]
      v False HM_CreateDuplicateHandle show ?thesis by (fastforce simp: plain_value_def)
  qed
next
  case (HM_DestroyHandleOfType h type)
  with pre sim_destroy [OF ok, of h hm] show ?thesis
    by (fastforce simp: is_held_def DestroyHandleOfType_def store_object_def)
next
  case (HM_DestroyHandleOfUnknownType h)
  with pre sim_destroy [OF ok, of h hm] show ?thesis
    by (fastforce simp: is_held_def DestroyHandleOfUnknownType_def store_object_def)
qed (use c in simp_all)

lemma sim_manager_updates:
  assumes ok: "store_ok lay s"
    and pre: "manager_pre c (handle_abs lay (hm, s))" and c: "manager_group c = Updates"
  shows "\<exists>r hm' s'. manager_call lay c hm s = Some (r, hm', s') \<and> store_ok lay s' \<and>
    manager_spec c (handle_abs lay (hm, s)) r (handle_abs lay (hm', s'))"
proof (cases c)
  case (HM_SetExtraInfoForHandle h t e)
  with pre obtain v where v: "handle_lookup lay s h = Some v" and st: "handle_store hm \<noteq> 0"
    and t: "live_type t" by (auto simp: is_held_def)
  from sim_update [where f = "\<lambda>v. v\<lparr>a_type := t, a_extra := e\<rparr>" and hm = hm,
      OF extra_info_handle [OF ok v st t] v] HM_SetExtraInfoForHandle
  show ?thesis by fastforce
next
  case (HM_StoreObjectInHandle h ob)
  with pre obtain v where v: "handle_lookup lay s h = Some v" by (auto simp: is_held_def)
  from sim_update [where f = "a_object_update (\<lambda>_. ob)" and hm = hm,
      OF store_object_handle [OF ok v] v] HM_StoreObjectInHandle
  show ?thesis by fastforce
next
  case (HM_StoreObjectInHandleIfNull h ob)
  with pre obtain v where v: "handle_lookup lay s h = Some v" by (auto simp: is_held_def)
  with store_if_null_handle [OF ok v, of ob] HM_StoreObjectInHandleIfNull show ?thesis
    by (fastforce simp: updates_def handle_abs_def)
next
  case (HM_SetDependentHandleSecondary h d)
  with pre obtain v where v: "handle_lookup lay s h = Some v" and st: "handle_store hm \<noteq> 0"
    by (auto simp: is_held_def)
  from sim_update [where f = "a_secondary_update (\<lambda>_. d)" and hm = hm,
      OF dependent_handle(4) [OF ok v st] v] HM_SetDependentHandleSecondary
  show ?thesis by fastforce
next
  case (HM_InterlockedCompareExchangeObjectInHandle h ob old)
  with pre obtain v where v: "handle_lookup lay s h = Some v" by (auto simp: is_held_def)
  with cas_handle [OF ok v, of ob old] HM_InterlockedCompareExchangeObjectInHandle show ?thesis
    by (fastforce simp: updates_def handle_abs_def)
qed (use c in simp_all)

lemma sim_manager_reads:
  assumes ok: "store_ok lay s"
    and pre: "manager_pre c (handle_abs lay (hm, s))" and c: "manager_group c = Reads"
  shows "\<exists>r hm' s'. manager_call lay c hm s = Some (r, hm', s') \<and> store_ok lay s' \<and>
    manager_spec c (handle_abs lay (hm, s)) r (handle_abs lay (hm', s'))"
proof (cases c)
  case (HM_GetExtraInfoFromHandle h)
  with pre obtain v where v: "handle_lookup lay s h = Some v" and st: "handle_store hm \<noteq> 0"
    by (auto simp: is_held_def)
  with ok dependent_handle(3) [OF ok v st] HM_GetExtraInfoFromHandle show ?thesis
    by (simp add: sim_read)
next
  case (HM_GetDependentHandleSecondary h)
  with pre obtain v where v: "handle_lookup lay s h = Some v" and st: "handle_store hm \<noteq> 0"
    by (auto simp: is_held_def)
  with ok dependent_handle(1) [OF ok v st] HM_GetDependentHandleSecondary show ?thesis
    by (simp add: sim_read)
next
  case (HM_HandleFetchType h)
  with pre obtain v where v: "handle_lookup lay s h = Some v" and st: "handle_store hm \<noteq> 0"
    by (auto simp: is_held_def)
  with ok dependent_handle(2) [OF ok v st] HM_HandleFetchType show ?thesis
    by (simp add: sim_read)
qed (use c in simp_all)

lemma sim_manager_others:
  assumes ok: "store_ok lay s"
    and pre: "manager_pre c (handle_abs lay (hm, s))" and c: "manager_group c = Others"
  shows "\<exists>r hm' s'. manager_call lay c hm s = Some (r, hm', s') \<and> store_ok lay s' \<and>
    manager_spec c (handle_abs lay (hm, s)) r (handle_abs lay (hm', s'))"
proof (cases c)
  case (HM_Initialize new_store)
  with ok show ?thesis by (simp add: hm_Initialize_def handle_abs_def)
next
  case HM_Shutdown
  with ok show ?thesis by (simp add: hm_Shutdown_def)
next
  case HM_GetGlobalHandleStore
  with ok show ?thesis by (simp add: GetGlobalHandleStore_def)
next
  case HM_CreateHandleStore
  with ok show ?thesis by (simp add: CreateHandleStore_def)
next
  case (HM_DestroyHandleStore store)
  with ok show ?thesis by (simp add: DestroyHandleStore_def)
next
  case (HM_TraceRefCountedHandles callback p1 p2)
  with ok show ?thesis by (simp add: TraceRefCountedHandles_def)
qed (use c in simp_all)

lemma manager_call_simulates:
  assumes ok: "store_ok lay s" and pre: "manager_pre c (handle_abs lay (hm, s))"
  shows "\<exists>r hm' s'. manager_call lay c hm s = Some (r, hm', s') \<and> store_ok lay s' \<and>
    manager_spec c (handle_abs lay (hm, s)) r (handle_abs lay (hm', s'))"
  using sim_manager_slots [OF ok pre] sim_manager_updates [OF ok pre]
    sim_manager_reads [OF ok pre] sim_manager_others [OF ok pre]
  by (cases "manager_group c")

lemma handle_api_simulates:
  assumes inv: "handle_api_inv clr lay st" and pre: "handle_pre (handle_abs lay st) c"
  shows "\<exists>r st'. handle_api clr lay c st = Some (r, st') \<and> handle_api_inv clr lay st' \<and>
    handle_api_spec clr (handle_abs lay st) c r (handle_abs lay st')"
proof -
  obtain hm s where st: "st = (hm, s)" by fastforce
  have ok: "store_ok lay s" and dep: "live_type (hndtype_dependent clr)"
    using inv by (simp_all add: handle_api_inv_def st)
  show ?thesis
  proof (cases c)
    case (On_Manager m)
    with pre manager_call_simulates [OF ok, of m hm] dep show ?thesis
      by (auto simp: st handle_api_inv_def handle_api_spec_def)
  next
    case (On_Store p m)
    with pre store_call_simulates [OF ok dep, of m hm] dep show ?thesis
      by (fastforce simp: st handle_api_inv_def handle_api_spec_def)
  qed
qed

interpretation handle_client: forward_simulation
  "handle_api clr lay" handle_pre "handle_api_spec clr" "handle_abs lay" "handle_api_inv clr lay"
  for clr :: "'w::len word clr_interface" and lay :: "'w word layout"
  by unfold_locales (rule handle_api_simulates)

section \<open>Before Initialize\<close>

text \<open>The methods of the manager that call through its store member, and those that dereference
  their handle themselves.\<close>

primrec needs_store :: "'p::zero manager_method \<Rightarrow> bool" where
  "needs_store (HM_Initialize new_store) = False"
| "needs_store HM_Shutdown = False"
| "needs_store HM_GetGlobalHandleStore = False"
| "needs_store HM_CreateHandleStore = False"
| "needs_store (HM_DestroyHandleStore store) = False"
| "needs_store (HM_CreateGlobalHandleOfType object type) = True"
| "needs_store (HM_CreateDuplicateHandle h) = (h \<noteq> 0)"
| "needs_store (HM_DestroyHandleOfType h type) = True"
| "needs_store (HM_DestroyHandleOfUnknownType h) = True"
| "needs_store (HM_SetExtraInfoForHandle h type extra) = True"
| "needs_store (HM_GetExtraInfoFromHandle h) = True"
| "needs_store (HM_StoreObjectInHandle h object) = False"
| "needs_store (HM_StoreObjectInHandleIfNull h object) = False"
| "needs_store (HM_SetDependentHandleSecondary h object) = True"
| "needs_store (HM_GetDependentHandleSecondary h) = True"
| "needs_store (HM_InterlockedCompareExchangeObjectInHandle h object comparand) = False"
| "needs_store (HM_HandleFetchType h) = True"
| "needs_store (HM_TraceRefCountedHandles callback param1 param2) = False"

definition dereferenced :: "'p manager_method \<Rightarrow> 'p option" where
  "dereferenced c =
     (case c of
        HM_StoreObjectInHandle h _ \<Rightarrow> Some h
      | HM_StoreObjectInHandleIfNull h _ \<Rightarrow> Some h
      | HM_InterlockedCompareExchangeObjectInHandle h _ _ \<Rightarrow> Some h
      | _ \<Rightarrow> None)"

lemma slot_op_None_iff:
  "ugc_handle_slot_store lay p v s = None \<longleftrightarrow> load_slot lay p s = None"
  "ugc_handle_slot_store_if_null lay p v s = None \<longleftrightarrow> load_slot lay p s = None"
  "ugc_handle_slot_cas lay p v c s = None \<longleftrightarrow> load_slot lay p s = None"
proof -
  have n: "save_slot lay p v s = None" if "load_slot lay p s = None"
    using that by (auto simp: save_slot_def load_slot_def load_cell_def store_cell_def
        split: if_splits option.splits)
  have d: "\<exists>s'. save_slot lay p v s = Some s' \<and> load_slot lay p s' = Some v" if "load_slot lay p s = Some w" for w
    using load_Some_save [OF that, of v] load_save_same by blast
  show "ugc_handle_slot_store lay p v s = None \<longleftrightarrow> load_slot lay p s = None"
  proof (cases "load_slot lay p s")
    case None
    with n show ?thesis by (simp add: ugc_handle_slot_store_def)
  next
    case (Some w)
    with d obtain s' where "save_slot lay p v s = Some s'" by blast
    with Some show ?thesis by (simp add: ugc_handle_slot_store_def)
  qed
  show "ugc_handle_slot_store_if_null lay p v s = None \<longleftrightarrow> load_slot lay p s = None"
  proof (cases "load_slot lay p s")
    case (Some w)
    with d obtain s' where "save_slot lay p v s = Some s'" by blast
    with Some show ?thesis by (simp add: ugc_handle_slot_store_if_null_def ex_bool_eq)
  qed (simp add: ugc_handle_slot_store_if_null_def)
  show "ugc_handle_slot_cas lay p v c s = None \<longleftrightarrow> load_slot lay p s = None"
  proof (cases "load_slot lay p s")
    case (Some w)
    with d obtain s' where "save_slot lay p v s = Some s'" "load_slot lay p s' = Some v" by blast
    with Some show ?thesis by (simp add: ugc_handle_slot_cas_def)
  qed (simp add: ugc_handle_slot_cas_def)
qed

lemma bind_pair_None: "(do { (x, y) \<leftarrow> m; Some (f x y) }) = None \<longleftrightarrow> m = None"
  by (cases m) auto

text \<open>Without a store exactly these calls are undefined behaviour: the first, and the others on a
  pointer to no slot.\<close>

lemma manager_call_without_store:
  assumes "handle_store hm = 0"
  shows "manager_call lay c hm s = None \<longleftrightarrow>
    needs_store c \<or> (\<exists>h. dereferenced c = Some h \<and> load_slot lay h s = None)"
proof -
  have n: "store_object hm = None" using assms by (simp add: store_object_def)
  show ?thesis
    by (cases c)
      (auto simp: dereferenced_def n hm_Initialize_def CreateGlobalHandleOfType_def
        CreateDuplicateHandle_def DestroyHandleOfType_def DestroyHandleOfUnknownType_def
        SetExtraInfoForHandle_def GetExtraInfoFromHandle_def SetDependentHandleSecondary_def
        GetDependentHandleSecondary_def HandleFetchType_def StoreObjectInHandle_def
        StoreObjectInHandleIfNull_def InterlockedCompareExchangeObjectInHandle_def
        bind_pair_None slot_op_None_iff bind_eq_None_conv [of _ "\<lambda>x. Some (f x)" for f])
qed

end
