(* ===== verification/Alloc_Bounds.thy ===== *)
theory Alloc_Bounds
  imports Alloc_Facts
begin

text \<open>
  Quantities of a run of the allocator: memory that is nobody's stays nobody's; the bytes
  taken from \<open>calloc\<close> against the bytes handed out; and how many objects one quantum serves.
\<close>

section \<open>Memory outside every window and object\<close>

text \<open>A block the runtime or the linker owns, or any part of it: no window and no object has a
  byte of it, and none ever gets one.\<close>

lemma clear_mem: "cells m' = cells (mem s) \<Longrightarrow> clear hdr (s\<lparr>mem := m'\<rparr>) r = clear hdr s r"
  by (simp add: clear_def window_def)

lemma clear_object:
  "clear hdr s r \<Longrightarrow> apart r (obj_span hdr ob) \<Longrightarrow> clear hdr (s\<lparr>objs := ob # objs s\<rparr>) r"
  by (simp add: clear_def)

lemma clear_set_window:
  assumes "ctxs_ok (mem s) (ctxs s)" and "c \<in> set (ctxs s)" and "clear hdr s r"
    and "apart r (win_span hdr (p, l))"
  shows "clear hdr (s\<lparr>mem := (mem s)\<lparr>cells := (cells (mem s))(fst c \<mapsto> p, snd c \<mapsto> l)\<rparr>\<rparr>) r"
  using assms window_upd [OF assms(1,2)] by (auto simp: clear_def split: if_splits)

lemma clear_bump:
  fixes p l sz :: "'w::len word"
  assumes inv: "world_inv hdr s" and c: "(pp, lp) \<in> set (ctxs s)"
    and w: "window (mem s) (pp, lp) = Some (p, l)" and fits: "unat p + unat sz \<le> unat l"
    and cl: "clear hdr s r"
  shows "clear hdr
    (s\<lparr>mem := (mem s)\<lparr>cells := (cells (mem s))(pp \<mapsto> p + sz)\<rparr>, objs := (p, unat sz) # objs s\<rparr>) r"
proof -
  note W = world_inv_window [OF inv c w]
  have "unat l < 2 ^ LENGTH('w)" by simp
  with fits have u: "unat (p + sz) = unat p + unat sz" by (intro unat_add_small) linarith
  have "inside (win_span hdr (p + sz, l)) (win_span hdr (p, l))"
    "inside (obj_span hdr (p, unat sz)) (win_span hdr (p, l))"
    using W(1) u fits by (auto simp: window_ok_def win_span_def obj_span_def inside_def)
  moreover have "apart r (win_span hdr (p, l))" using cl c w by (auto simp: clear_def)
  ultimately have a: "apart r (win_span hdr (p + sz, l))" "apart r (obj_span hdr (p, unat sz))"
    by (blast intro: apart_inside2)+
  have cs: "ctxs_ok (mem s) (ctxs s)" using inv by (simp add: world_inv_def)
  have "(cells (mem s))(pp \<mapsto> p + sz) = (cells (mem s))(pp \<mapsto> p + sz, lp \<mapsto> l)"
    using w cs c by (force simp: window_Some_iff fun_eq_iff ctxs_ok_def)
  with clear_set_window [OF cs c cl a(1)]
  have "clear hdr (s\<lparr>mem := (mem s)\<lparr>cells := (cells (mem s))(pp \<mapsto> p + sz)\<rparr>\<rparr>) r" by simp
  from clear_object [OF this a(2)] show ?thesis by simp
qed

lemma clear_env:
  assumes step: "env_step hdr s s'" and inv: "world_inv hdr s" and cl: "clear hdr s r"
  shows "clear hdr s' r"
  using step
proof cases
  case (inline pp lp p l sz)
  then show ?thesis using clear_bump [OF inv inline(2-4) cl] by simp
next
  case (mutate ob x v)
  with cl show ?thesis by (simp add: clear_def)
next
  case (attach pp lp)
  let ?m = "(mem s)\<lparr>cells := (cells (mem s))(pp \<mapsto> 0, lp \<mapsto> 0)\<rparr>"
  have "window ?m c = window (mem s) c" if "c \<in> set (ctxs s)" for c
    using attach(4) that by (auto simp: window_def)
  moreover have "window ?m (pp, lp) = None" using attach(3) by (simp add: window_def)
  ultimately show ?thesis using cl unfolding attach(1) by (auto simp: clear_def)
qed

context zeroing_allocator
begin

lemma zalloc_apart:
  assumes "zalloc n m = (a, m')" and "a \<noteq> 0" and "in_block m r"
  shows "apart r (span a (unat n))"
  using zalloc_block [OF assms(1,2)] assms(3)
  by (auto simp: calloc_places_def in_block_def intro: apart_sym apart_inside2)

lemma clear_call:
  assumes t: "rv_target TYPE('w)" and inv: "world_inv hdr s"
    and cl: "clear hdr s r" and b: "in_block (mem s) r"
    and c: "pp = 0 \<or> (pp, lp) \<in> set (ctxs s)"
    and run: "ugc_core_alloc zalloc pp lp sz bypass hdr (mem s) = Some (p, m')"
  shows "clear hdr (s\<lparr>mem := m', objs := (if p = 0 then objs s else (p, unat sz) # objs s)\<rparr>) r"
proof -
  have zalloc_clear: "clear hdr (s\<lparr>mem := m\<rparr>) r" if "zalloc n (mem s) = (a, m)" for n a m
    using cl clear_mem zalloc_cells [OF that] by blast
  from t inv c run show ?thesis
  proof (cases rule: core_call_cases)
    case null
    with cl zalloc_clear show ?thesis by auto
  next
    case (direct a)
    note u = direct_result(1) [OF direct(1-3)] not_overflow_unat [OF direct(1)]
    have "inside (obj_span hdr (p, unat sz)) (span a (unat (sz + hdr)))"
      using u direct(4) by (simp add: inside_def obj_span_def)
    with zalloc_apart [OF direct(2,3) b] have "apart r (obj_span hdr (p, unat sz))"
      by (blast intro: apart_inside2)
    from clear_object [OF zalloc_clear [OF direct(2)] this] direct(5) show ?thesis by simp
  next
    case (bump l)
    with clear_bump [OF inv bump(1-3) cl] show ?thesis by simp
  next
    case (refill a m1)
    have h: "unat hdr \<le> 65536" using refill(2) by simp
    note u = fresh_result [OF t refill(3,4) h] unat_quantum [OF t]
    note v = u(4) [OF refill(2)]
    have ap: "apart r (span a 65536)" using zalloc_apart [OF refill(3,4) b] u(7) by simp
    have "inside (win_span hdr (p + sz, a + UGC_ALLOC_QUANTUM)) (span a 65536)"
      "inside (obj_span hdr (p, unat sz)) (span a 65536)"
      using u v refill(2,5) by (simp_all add: inside_def win_span_def obj_span_def)
    with ap have a: "apart r (win_span hdr (p + sz, a + UGC_ALLOC_QUANTUM))"
      "apart r (obj_span hdr (p, unat sz))" by (blast intro: apart_inside2)+
    let ?s = "s\<lparr>mem := m1\<rparr>"
    have cs: "ctxs_ok (mem ?s) (ctxs ?s)"
      using inv zalloc_cells [OF refill(3)] by (simp add: world_inv_def ctxs_ok_def)
    from clear_object [OF clear_set_window [OF cs _ zalloc_clear [OF refill(3)] a(1), of "(pp, lp)"] a(2)]
      refill(1,5,6,7)
    show ?thesis by simp
  qed
qed

lemma clear_step:
  assumes t: "rv_target TYPE('w)" and inv: "world_inv hdr s" and step: "alloc_step zalloc hdr s s'"
    and cl: "clear hdr s r" and b: "in_block (mem s) r"
  shows "clear hdr s' r \<and> in_block (mem s') r"
proof -
  have "set (blocks (mem s)) \<subseteq> set (blocks (mem s'))"
    using alloc_step_grows [OF step] by auto
  then have "in_block (mem s') r" using b by (rule in_block_mono)
  moreover from step have "clear hdr s' r"
  proof cases
    case (call pp lp sz bypass p m')
    then show ?thesis using clear_call [OF t inv cl b call(2,3)] by simp
  next
    case env
    then show ?thesis using clear_env inv cl by blast
  qed
  ultimately show ?thesis by blast
qed

end

section \<open>What the allocator costs\<close>

definition block_bytes :: "('w::len word, 'm) cmem_scheme \<Rightarrow> nat" where
  "block_bytes m = sum_list (map (\<lambda>b. unat (snd b)) (blocks m))"

definition object_bytes :: "('w::len, 'm) mworld \<Rightarrow> nat" where
  "object_bytes s = sum_list (map snd (objs s))"

definition window_rest :: "('w::len word, 'm) cmem_scheme \<Rightarrow> 'w word \<times> 'w word \<Rightarrow> nat" where
  "window_rest m c = (case window m c of None \<Rightarrow> 0 | Some (p, l) \<Rightarrow> unat l - unat p)"

definition window_bytes :: "('w::len, 'm) mworld \<Rightarrow> nat" where
  "window_bytes s = (\<Sum>c \<in> set (ctxs s). window_rest (mem s) c)"

text \<open>Every object is paid for, and the waste is at most one object and one header per block.\<close>

definition cost_ok :: "'w::len word \<Rightarrow> nat \<Rightarrow> ('w, 'm) mworld \<Rightarrow> bool" where
  "cost_ok hdr b0 s \<longleftrightarrow>
     b0 + object_bytes s + window_bytes s \<le> block_bytes (mem s) \<and>
     block_bytes (mem s) \<le>
       b0 + 2 * object_bytes s + unat hdr * length (objs s) + window_bytes s"

lemma window_bytes_cells: "cells m' = cells (mem s) \<Longrightarrow> window_bytes (s\<lparr>mem := m'\<rparr>) = window_bytes s"
  by (simp add: window_bytes_def window_rest_def window_def)

lemma window_bytes_objs [simp]: "window_bytes (s\<lparr>objs := os\<rparr>) = window_bytes s"
  by (simp add: window_bytes_def)

text \<open>Opening a window closes the old one of the same context.\<close>

lemma window_bytes_set:
  assumes cs: "ctxs_ok (mem s) (ctxs s)" and c: "c \<in> set (ctxs s)" and p: "p \<noteq> 0"
  shows "window_bytes
      (s\<lparr>mem := (mem s)\<lparr>cells := (cells (mem s))(fst c \<mapsto> p, snd c \<mapsto> l)\<rparr>\<rparr>) + window_rest (mem s) c =
    window_bytes s + (unat l - unat p)"
proof -
  let ?m = "(mem s)\<lparr>cells := (cells (mem s))(fst c \<mapsto> p, snd c \<mapsto> l)\<rparr>"
  have new: "window_rest ?m c = unat l - unat p"
    using window_upd [OF cs c c, of p l] p by (simp add: window_rest_def)
  have old: "window_rest ?m d = window_rest (mem s) d" if "d \<in> set (ctxs s) - {c}" for d
    using that window_upd [OF cs c, of d p l] by (simp add: window_rest_def)
  have "(\<Sum>d \<in> set (ctxs s). window_rest ?m d) =
      window_rest ?m c + (\<Sum>d \<in> set (ctxs s) - {c}. window_rest ?m d)"
    using c by (intro sum.remove) simp_all
  moreover have "window_bytes s =
      window_rest (mem s) c + (\<Sum>d \<in> set (ctxs s) - {c}. window_rest (mem s) d)"
    unfolding window_bytes_def using c by (intro sum.remove) simp_all
  moreover have "(\<Sum>d \<in> set (ctxs s) - {c}. window_rest ?m d) =
      (\<Sum>d \<in> set (ctxs s) - {c}. window_rest (mem s) d)"
    by (rule sum.cong) (use old in simp_all)
  ultimately show ?thesis unfolding new by (simp add: window_bytes_def)
qed

lemma cost_bump:
  fixes p l sz :: "'w::len word"
  assumes inv: "world_inv hdr s" and c: "(pp, lp) \<in> set (ctxs s)"
    and w: "window (mem s) (pp, lp) = Some (p, l)" and fits: "unat p + unat sz \<le> unat l"
    and ok: "cost_ok hdr b0 s"
  shows "cost_ok hdr b0
    (s\<lparr>mem := (mem s)\<lparr>cells := (cells (mem s))(pp \<mapsto> p + sz)\<rparr>, objs := (p, unat sz) # objs s\<rparr>)"
proof -
  have cs: "ctxs_ok (mem s) (ctxs s)" using inv by (simp add: world_inv_def)
  have "unat l < 2 ^ LENGTH('w)" by simp
  with fits have u: "unat (p + sz) = unat p + unat sz" by (intro unat_add_small) linarith
  have p0: "p \<noteq> 0" using w by (simp add: window_Some_iff)
  then have "p + sz \<noteq> 0" using u by (metis add_eq_0_iff_both_eq_0 unat_0 unat_eq_0)
  moreover have "(cells (mem s))(pp \<mapsto> p + sz) = (cells (mem s))(pp \<mapsto> p + sz, lp \<mapsto> l)"
    using w cs c by (force simp: window_Some_iff fun_eq_iff ctxs_ok_def)
  ultimately have "window_bytes (s\<lparr>mem := (mem s)\<lparr>cells := (cells (mem s))(pp \<mapsto> p + sz)\<rparr>\<rparr>) +
      window_rest (mem s) (pp, lp) = window_bytes s + (unat l - unat (p + sz))"
    using window_bytes_set [OF cs c, of "p + sz" l] by simp
  moreover have "window_rest (mem s) (pp, lp) = unat l - unat p"
    using w by (simp add: window_rest_def)
  ultimately have
    "window_bytes (s\<lparr>mem := (mem s)\<lparr>cells := (cells (mem s))(pp \<mapsto> p + sz)\<rparr>\<rparr>) + unat sz =
      window_bytes s"
    using u fits by linarith
  moreover have "window_bytes (s\<lparr>mem := (mem s)\<lparr>cells := (cells (mem s))(pp \<mapsto> p + sz)\<rparr>,
      objs := (p, unat sz) # objs s\<rparr>) =
      window_bytes (s\<lparr>mem := (mem s)\<lparr>cells := (cells (mem s))(pp \<mapsto> p + sz)\<rparr>\<rparr>)"
    by (simp add: window_bytes_def)
  ultimately show ?thesis
    using ok by (simp add: cost_ok_def object_bytes_def block_bytes_def)
qed

lemma cost_env:
  assumes step: "env_step hdr s s'" and inv: "world_inv hdr s" and ok: "cost_ok hdr b0 s"
  shows "cost_ok hdr b0 s'"
  using step
proof cases
  case (inline pp lp p l sz)
  with cost_bump [OF inv inline(2-4) ok] show ?thesis by simp
next
  case (mutate ob x v)
  have "window_bytes s' = window_bytes s"
    unfolding mutate(1) by (rule window_bytes_cells) simp
  with ok show ?thesis unfolding mutate(1) cost_ok_def
    by (simp add: object_bytes_def block_bytes_def)
next
  case (attach pp lp)
  let ?m = "(mem s)\<lparr>cells := (cells (mem s))(pp \<mapsto> 0, lp \<mapsto> 0)\<rparr>"
  have "window ?m c = window (mem s) c" if "c \<in> set (ctxs s)" for c
    using attach(4) that by (auto simp: window_def)
  then have "(\<Sum>c \<in> set (ctxs s). window_rest ?m c) = window_bytes s"
    unfolding window_bytes_def by (intro sum.cong) (simp_all add: window_rest_def)
  moreover have "window ?m (pp, lp) = None" using attach(3) by (simp add: window_def)
  moreover have "(pp, lp) \<notin> set (ctxs s)" using attach(4) by force
  ultimately have "window_bytes s' = window_bytes s"
    unfolding attach(1) by (simp add: window_bytes_def window_rest_def)
  with ok show ?thesis unfolding attach(1) cost_ok_def
    by (simp add: object_bytes_def block_bytes_def)
qed

context zeroing_allocator
begin

lemma zalloc_block_bytes:
  "zalloc n m = (a, m') \<Longrightarrow> block_bytes m' = block_bytes m + (if a = 0 then 0 else unat n)"
  by (cases "a = 0") (auto simp: block_bytes_def dest: zalloc_null zalloc_block)

lemma cost_zalloc:
  assumes "zalloc n (mem s) = (0, m')" and "cost_ok hdr b0 s"
  shows "cost_ok hdr b0 (s\<lparr>mem := m'\<rparr>)"
proof -
  have "window_bytes (s\<lparr>mem := m'\<rparr>) = window_bytes s"
    using zalloc_cells [OF assms(1)] by (intro window_bytes_cells) simp
  with assms(2) zalloc_block_bytes [OF assms(1)] show ?thesis
    by (simp add: cost_ok_def object_bytes_def)
qed

lemma cost_direct:
  assumes no: "\<not> sz > - 1 - hdr" and z: "zalloc (sz + hdr) (mem s) = (a, m')" and a: "a \<noteq> 0"
    and ok: "cost_ok hdr b0 s"
  shows "cost_ok hdr b0 (s\<lparr>mem := m', objs := (p, unat sz) # objs s\<rparr>)"
proof -
  have "window_bytes (s\<lparr>mem := m', objs := (p, unat sz) # objs s\<rparr>) = window_bytes (s\<lparr>mem := m'\<rparr>)"
    by (simp add: window_bytes_def)
  also have "\<dots> = window_bytes s" using zalloc_cells [OF z] by (intro window_bytes_cells) simp
  finally show ?thesis
    using ok zalloc_block_bytes [OF z] a not_overflow_unat(1) [OF no]
    by (simp add: cost_ok_def object_bytes_def)
qed

lemma cost_refill:
  fixes sz hdr :: "'w word"
  assumes t: "rv_target TYPE('w)" and inv: "world_inv hdr s" and c: "(pp, lp) \<in> set (ctxs s)"
    and fits: "unat sz + unat hdr \<le> 65536"
    and full: "window_rest (mem s) (pp, lp) \<le> unat sz"
    and z: "zalloc UGC_ALLOC_QUANTUM (mem s) = (a, m1)" and a: "a \<noteq> 0"
    and ok: "cost_ok hdr b0 s"
  shows "cost_ok hdr b0
    (s\<lparr>mem := m1\<lparr>cells := (cells m1)(pp \<mapsto> a + hdr + sz, lp \<mapsto> a + UGC_ALLOC_QUANTUM)\<rparr>,
       objs := (a + hdr, unat sz) # objs s\<rparr>)"
proof -
  have h: "unat hdr \<le> 65536" using fits by simp
  note u = fresh_result [OF t z a h]
  note v = u(4) [OF fits]
  let ?s = "s\<lparr>mem := m1\<rparr>"
  let ?m = "m1\<lparr>cells := (cells m1)(pp \<mapsto> a + hdr + sz, lp \<mapsto> a + UGC_ALLOC_QUANTUM)\<rparr>"
  have cells: "cells m1 = cells (mem s)" using zalloc_cells [OF z] by simp
  have cs: "ctxs_ok (mem ?s) (ctxs ?s)" using inv cells by (simp add: world_inv_def ctxs_ok_def)
  have "a + hdr + sz \<noteq> 0" using v u(1,2) by (metis add_eq_0_iff_both_eq_0 unat_0 unat_eq_0)
  with window_bytes_set [OF cs, of "(pp, lp)" "a + hdr + sz" "a + UGC_ALLOC_QUANTUM"] c
  have "window_bytes (s\<lparr>mem := ?m\<rparr>) + window_rest m1 (pp, lp) =
      window_bytes ?s + (unat (a + UGC_ALLOC_QUANTUM) - unat (a + hdr + sz))" by simp
  moreover have "window_rest m1 (pp, lp) = window_rest (mem s) (pp, lp)"
    using cells by (simp add: window_rest_def window_def)
  moreover have "window_bytes ?s = window_bytes s" using cells by (rule window_bytes_cells)
  moreover have "window_rest (mem s) (pp, lp) \<le> window_bytes s"
    unfolding window_bytes_def using c by (intro member_le_sum) simp_all
  moreover have "window_bytes (s\<lparr>mem := ?m, objs := (a + hdr, unat sz) # objs s\<rparr>) =
      window_bytes (s\<lparr>mem := ?m\<rparr>)" by (simp add: window_bytes_def)
  moreover have "block_bytes m1 = block_bytes (mem s) + 65536"
    using zalloc_block_bytes [OF z] a unat_quantum [OF t] by simp
  then have "block_bytes ?m = block_bytes (mem s) + 65536" by (simp add: block_bytes_def)
  ultimately show ?thesis
    using ok full fits u(3) v unfolding cost_ok_def object_bytes_def by (simp; linarith)
qed

lemma cost_call:
  assumes t: "rv_target TYPE('w)" and inv: "world_inv hdr s" and ok: "cost_ok hdr b0 s"
    and c: "pp = 0 \<or> (pp, lp) \<in> set (ctxs s)"
    and run: "ugc_core_alloc zalloc pp lp sz bypass hdr (mem s) = Some (p, m')"
  shows "cost_ok hdr b0 (s\<lparr>mem := m', objs := (if p = 0 then objs s else (p, unat sz) # objs s)\<rparr>)"
  using t inv c run
proof (cases rule: core_call_cases)
  case null
  with cost_zalloc [OF _ ok] ok show ?thesis by auto
next
  case (direct a)
  with cost_direct [OF direct(1-3) ok] show ?thesis by simp
next
  case (bump l)
  with cost_bump [OF inv bump(1-3) ok] show ?thesis by simp
next
  case (refill a m1)
  have "window_rest (mem s) (pp, lp) \<le> unat sz"
    using refill(8) by (auto simp: window_rest_def split: option.splits)
  from cost_refill [OF t inv refill(1,2) this refill(3,4) ok] refill(5,6,7) show ?thesis by simp
qed

lemma cost_steps:
  assumes t: "rv_target TYPE('w)" and h: "1 \<le> unat hdr" and start: "world_start s0"
    and run: "(alloc_step zalloc hdr)\<^sup>*\<^sup>* s0 s"
  shows "world_inv hdr s \<and> cost_ok hdr (block_bytes (mem s0)) s"
  using run
proof induction
  case base
  have "world_inv hdr s0" using alloc_reach_inv [OF t h alloc_reach.start [OF start]] .
  with start show ?case
    by (simp add: cost_ok_def world_start_def object_bytes_def window_bytes_def)
next
  case (step y z)
  have inv: "world_inv hdr y" and ok: "cost_ok hdr (block_bytes (mem s0)) y"
    using step.IH by auto
  have "world_inv hdr z" by (rule alloc_step_inv [OF t h step.hyps(2) inv])
  moreover from step.hyps(2) have "cost_ok hdr (block_bytes (mem s0)) z"
  proof cases
    case (call pp lp sz bypass p m')
    with cost_call [OF t inv ok call(2,3)] show ?thesis by simp
  next
    case env
    with cost_env inv ok show ?thesis by blast
  qed
  ultimately show ?case by blast
qed

text \<open>An open window is never more than a quantum less its header.\<close>

lemma window_bytes_le:
  assumes inv: "world_inv hdr s"
  shows "window_bytes s \<le> (65536 - unat hdr) * length (ctxs s)"
proof -
  have "window_rest (mem s) c \<le> 65536 - unat hdr" if "c \<in> set (ctxs s)" for c
    using world_inv_window(1) [OF inv that]
    by (auto simp: window_rest_def window_ok_def split: option.split)
  then have "window_bytes s \<le> (\<Sum>c \<in> set (ctxs s). 65536 - unat hdr)"
    unfolding window_bytes_def by (rule sum_mono)
  also have "\<dots> \<le> (65536 - unat hdr) * length (ctxs s)"
    using card_length [of "ctxs s"] by (simp add: mult.commute)
  finally show ?thesis .
qed

end

section \<open>What one quantum serves\<close>

text \<open>Requests of a thread one after the other, and the addresses of consecutive objects.\<close>

fun serve ::
  "('w::len word \<Rightarrow> ('w word, 'm) cmem_scheme \<Rightarrow> 'w word \<times> ('w word, 'm) cmem_scheme) \<Rightarrow>
   'w word \<Rightarrow> 'w word \<Rightarrow> 'w word \<Rightarrow> 'w word list \<Rightarrow> ('w word, 'm) cmem_scheme \<Rightarrow>
   ('w word list \<times> ('w word, 'm) cmem_scheme) option" where
  "serve zalloc pp lp hdr [] m = Some ([], m)"
| "serve zalloc pp lp hdr (sz # szs) m =
     do {
       (r, m) \<leftarrow> ugc_core_alloc zalloc pp lp sz False hdr m;
       (rs, m) \<leftarrow> serve zalloc pp lp hdr szs m;
       Some (r # rs, m)
     }"

fun consecutive :: "'w::len word \<Rightarrow> 'w word list \<Rightarrow> 'w word list" where
  "consecutive p [] = []"
| "consecutive p (sz # szs) = p # consecutive (p + sz) szs"

definition total_size :: "'w::len word list \<Rightarrow> nat" where
  "total_size szs = sum_list (map unat szs)"

lemma total_size_simps [simp]: "total_size [] = 0" "total_size (sz # szs) = unat sz + total_size szs"
  by (simp_all add: total_size_def)

lemma core_alloc_fits:
  fixes sz hdr :: "'w::len word"
  assumes t: "rv_target TYPE('w)" and pp: "pp \<noteq> 0"
    and c: "cells m pp = Some p" "cells m lp = Some l" "p \<noteq> 0"
    and fits: "unat p + unat sz \<le> unat l" and q: "unat sz + unat hdr \<le> 65536"
  shows "ugc_core_alloc zalloc pp lp sz False hdr m =
    Some (p, m\<lparr>cells := (cells m)(pp \<mapsto> p + sz)\<rparr>)"
proof -
  have "unat sz + unat hdr < 2 ^ LENGTH('w)" using q target_pow_le [OF t] by simp
  then have no: "\<not> sz > - 1 - hdr" by (simp add: gt_max_minus_iff)
  then have "\<not> sz + hdr > UGC_ALLOC_QUANTUM" using q by (simp add: over_quantum_iff [OF t])
  moreover have "l - p \<ge> sz" using fits by (simp add: fits_iff)
  moreover have "pp \<in> dom (cells m)" using c by blast
  ultimately show ?thesis using no pp c by (simp add: ugc_core_alloc_def)
qed

lemma serve_window:
  fixes szs :: "'w::len word list"
  assumes t: "rv_target TYPE('w)" and pp: "pp \<noteq> 0" and ne: "pp \<noteq> lp"
    and c: "cells m pp = Some p" "cells m lp = Some l" "p \<noteq> 0"
    and fits: "unat p + total_size szs \<le> unat l" and q: "total_size szs + unat hdr \<le> 65536"
  shows "serve zalloc pp lp hdr szs m =
    Some (consecutive p szs, m\<lparr>cells := (cells m)(pp \<mapsto> p + of_nat (total_size szs))\<rparr>)"
  using c fits q
proof (induction szs arbitrary: p m)
  case Nil
  then have "(cells m)(pp \<mapsto> p) = cells m" by auto
  then show ?case by simp
next
  case (Cons sz szs)
  let ?m = "m\<lparr>cells := (cells m)(pp \<mapsto> p + sz)\<rparr>"
  have fits: "unat p + unat sz \<le> unat l" using Cons.prems(4) by simp
  moreover have "unat l < 2 ^ LENGTH('w)" by simp
  ultimately have u: "unat (p + sz) = unat p + unat sz"
    by (intro unat_add_small) linarith
  then have "p + sz \<noteq> 0" using Cons.prems(3) by (metis add_eq_0_iff_both_eq_0 unat_0 unat_eq_0)
  then have "serve zalloc pp lp hdr szs ?m =
      Some (consecutive (p + sz) szs, ?m\<lparr>cells := (cells ?m)(pp \<mapsto> p + sz + of_nat (total_size szs))\<rparr>)"
    using Cons.prems ne u by (intro Cons.IH) auto
  moreover have "ugc_core_alloc zalloc pp lp sz False hdr m = Some (p, ?m)"
    using Cons.prems(5) by (intro core_alloc_fits [OF t pp Cons.prems(1-3) fits]) simp
  ultimately show ?case by (simp add: add.assoc) (simp only: fun_upd_def)
qed

context zeroing_allocator
begin

lemma serve_quantum:
  fixes szs :: "'w word list"
  assumes t: "rv_target TYPE('w)" and pp: "pp \<noteq> 0" and ne: "pp \<noteq> lp"
    and c: "cells m pp = Some 0" "lp \<in> dom (cells m)"
    and q: "total_size szs + unat hdr \<le> 65536" and some: "szs \<noteq> []"
    and z: "zalloc UGC_ALLOC_QUANTUM m = (a, m1)" and a: "a \<noteq> 0"
  shows "serve zalloc pp lp hdr szs m =
    Some (consecutive (a + hdr) szs,
      m1\<lparr>cells := (cells m1)(pp \<mapsto> a + hdr + of_nat (total_size szs), lp \<mapsto> a + UGC_ALLOC_QUANTUM)\<rparr>)"
proof -
  obtain sz rest where szs: "szs = sz # rest" using some by (cases szs) auto
  have fits: "unat sz + unat hdr \<le> 65536" and h: "unat hdr \<le> 65536" using q szs by simp_all
  have "unat sz + unat hdr < 2 ^ LENGTH('w)" using fits target_pow_le [OF t] by simp
  then have no: "\<not> sz > - 1 - hdr" by (simp add: gt_max_minus_iff)
  then have over: "\<not> sz + hdr > UGC_ALLOC_QUANTUM" using fits by (simp add: over_quantum_iff [OF t])
  note u = fresh_result [OF t z a h]
  note v = u(4) [OF fits]
  let ?l = "a + UGC_ALLOC_QUANTUM" and ?p = "a + hdr + sz"
  let ?m = "m1\<lparr>cells := (cells m1)(pp \<mapsto> ?p, lp \<mapsto> ?l)\<rparr>"
  have "cells m1 = cells m" using zalloc_cells [OF z] by simp
  then have "pp \<in> dom (cells m1)" "lp \<in> dom (cells m1)" using c by auto
  then have "ugc_core_alloc zalloc pp lp sz False hdr m = Some (a + hdr, ?m)"
    using no over pp c(1) z a by (simp add: ugc_core_alloc_def ugc_ctx_refill_def)
  moreover have "?p \<noteq> 0" using v u(1,2) by (metis add_eq_0_iff_both_eq_0 unat_0 unat_eq_0)
  then have "serve zalloc pp lp hdr rest ?m = Some (consecutive ?p rest,
      ?m\<lparr>cells := (cells ?m)(pp \<mapsto> ?p + of_nat (total_size rest))\<rparr>)"
    using q szs u(3) v ne by (intro serve_window [OF t pp ne, of _ _ ?l]) simp_all
  moreover have "(cells ?m)(pp \<mapsto> ?p + of_nat (total_size rest)) =
      (cells m1)(pp \<mapsto> ?p + of_nat (total_size rest), lp \<mapsto> ?l)"
    using ne by (auto simp: fun_eq_iff)
  ultimately show ?thesis by (simp add: szs add.assoc)
qed

text \<open>When a call fails: the size overflows, or the call needs a block and the allocator has
  none.\<close>

lemma core_alloc_null_iff:
  fixes sz hdr :: "'w word"
  assumes t: "rv_target TYPE('w)" and req: "core_alloc_requires m pp lp hdr"
    and run: "ugc_core_alloc zalloc pp lp sz bypass hdr m = Some (r, m')"
  shows "r = 0 \<longleftrightarrow>
    (case core_alloc_behavior m pp lp sz bypass hdr of
       Overflow \<Rightarrow> True
     | Direct \<Rightarrow> fst (zalloc (sz + hdr) m) = 0
     | Bump \<Rightarrow> False
     | Refill \<Rightarrow> fst (zalloc UGC_ALLOC_QUANTUM m) = 0)"
  using run
proof (cases rule: core_alloc_cases)
  case overflow
  then show ?thesis by (simp add: behavior_overflow)
next
  case (direct a)
  then show ?thesis
    using direct_result(2) [OF direct(1,3)] by (simp add: behavior_direct [OF t])
next
  case (bump l)
  have "context_window m r l" using req bump by (auto simp: core_alloc_requires_def)
  with bump have "unat r + unat sz \<le> unat l" by (simp add: context_window_def fits_iff)
  with bump show ?thesis by (simp add: behavior_context [OF t])
next
  case (refill p)
  then obtain l where l: "cells m lp = Some l" and w: "p \<noteq> 0 \<Longrightarrow> context_window m p l"
    using req by (auto simp: core_alloc_requires_def split: option.splits)
  have b: "core_alloc_behavior m pp lp sz bypass hdr = Refill"
    using refill l w by (auto simp: behavior_context [OF t] context_window_def fits_iff)
  from refill(7) show ?thesis
  proof (cases rule: ctx_refill_cases)
    case null
    with b show ?thesis by simp
  next
    case (fresh a m1)
    have "unat hdr \<le> 65536" using req by (simp add: core_alloc_requires_def)
    with fresh_result(2) [OF t fresh(2,1)] fresh b show ?thesis by simp
  qed
qed

end

end
