(* ===== verification/System_Run.thy ===== *)
theory System_Run
  imports Handle_API GC_Init Alloc_Bounds
begin

text \<open>
  The whole collector: \<open>uGCHeap\<close> and \<open>uGCHandleManager\<close>, as \<open>GC_Initialize\<close> creates them, over
  one memory that holds the allocation contexts, the blocks and the globals of the handle
  store. The runtime calls the methods of both objects in any order, allocates inline, writes
  into its objects and brings new threads. It puts into handles only null and objects it was
  given: then no handle ever dangles.
\<close>

section \<open>The two halves of the memory\<close>

text \<open>The handle store is an extension of the C memory: allocation leaves the extension alone,
  and a handle call leaves the C memory alone.\<close>

lemma more_eq_store:
  fixes s s' :: "'w::len word gstate"
  assumes "cmem.more s' = cmem.more s"
  shows "store_inv s' = store_inv s" and "abs_store s' = abs_store s"
    and "handle_lookup lay s' = handle_lookup lay s" and "store_ok lay s' = store_ok lay s"
proof -
  have "s' = cmem.extend (cmem.truncate s') (cmem.more s)"
    unfolding assms [symmetric] cmem.defs by (simp only: cmem.surjective [symmetric] cmem.simps)
  then obtain m where s': "s' = cmem.extend m (cmem.more s)" by blast
  have e: "ugc_handle_count s' = ugc_handle_count s"
    "ugc_handle_free_count s' = ugc_handle_free_count s" "ugc_handles s' = ugc_handles s"
    "ugc_handle_types s' = ugc_handle_types s" "ugc_handle_extra s' = ugc_handle_extra s"
    "ugc_handle_dependent s' = ugc_handle_dependent s"
    "ugc_handle_free_stack s' = ugc_handle_free_stack s"
    unfolding s' by (cases s; simp add: cmem.defs)+
  then have same: "same_slots s s'" by (simp add: same_slots_def)
  show inv: "store_inv s' = store_inv s" by (rule same_slots_inv(1) [OF same])
  have "slot_value s' i = slot_value s i" for i by (simp add: slot_value_def e)
  then show abs: "abs_store s' = abs_store s"
    using same_slots_inv [OF same] by (simp add: abs_store_def fun_eq_iff)
  show "handle_lookup lay s' = handle_lookup lay s"
    by (rule ext) (simp only: handle_lookup_def abs)
  show "store_ok lay s' = store_ok lay s" by (simp add: store_ok_def inv)
qed

lemma zalloc_more: "ugc_zalloc n m = (p, m') \<Longrightarrow> cmem.more m' = cmem.more m"
  by (auto simp: ugc_zalloc_def calloc_def split: list.splits if_splits)

lemma core_alloc_more:
  assumes "ugc_core_alloc ugc_zalloc pp lp sz bypass hdr m = Some (r, m')"
  shows "cmem.more m' = cmem.more m"
  using assms
proof (cases rule: core_alloc_cases)
  case (direct a)
  then show ?thesis using zalloc_more by blast
next
  case (refill p)
  from refill(7) show ?thesis by (cases rule: ctx_refill_cases) (auto dest: zalloc_more)
qed simp_all

lemma Alloc_more:
  assumes "Alloc clr acontext sz flags h m = Some (r, h', m')"
  shows "cmem.more m' = cmem.more m"
  using assms
proof (cases rule: Alloc_cases)
  case failed
  then show ?thesis using core_alloc_more by blast
next
  case (served m1)
  then show ?thesis
    using core_alloc_more [OF served(1)] by (auto simp: add_i64_Some_iff split: if_splits)
qed

lemma env_step_more: "env_step hdr w w' \<Longrightarrow> cmem.more (mem w') = cmem.more (mem w)"
  by (erule env_stepE) auto

lemma truncate_sets:
  "set_handle i v s = Some s' \<Longrightarrow> cmem.truncate s' = cmem.truncate s"
  "set_htype i t s = Some s' \<Longrightarrow> cmem.truncate s' = cmem.truncate s"
  "set_hextra i v s = Some s' \<Longrightarrow> cmem.truncate s' = cmem.truncate s"
  "set_hdependent i v s = Some s' \<Longrightarrow> cmem.truncate s' = cmem.truncate s"
  "set_free_stack i t s = Some s' \<Longrightarrow> cmem.truncate s' = cmem.truncate s"
  by (auto simp: set_handle_def set_htype_def set_hextra_def set_hdependent_def set_free_stack_def
      bind_eq_Some_conv cmem.defs)

lemma truncate_acquire:
  "ugc_handle_slot_acquire s = Some (i, s') \<Longrightarrow> cmem.truncate s' = cmem.truncate s"
  by (auto simp: ugc_handle_slot_acquire_def bind_eq_Some_conv cmem.defs split: if_splits)

lemma truncate_create:
  "create_slot lay ob t e d s = Some (r, s') \<Longrightarrow> cmem.truncate s' = cmem.truncate s"
  by (auto simp: create_slot_def bind_eq_Some_conv dest!: truncate_acquire truncate_sets
      split: if_splits)

lemma truncate_destroy_at:
  "ugc_handle_destroy_at idx s = Some s' \<Longrightarrow> cmem.truncate s' = cmem.truncate s"
  by (auto simp: ugc_handle_destroy_at_def bind_eq_Some_conv cmem.defs dest!: truncate_sets
      split: if_splits)

lemma truncate_destroy:
  "uDestroyHandle lay h s = Some s' \<Longrightarrow> cmem.truncate s' = cmem.truncate s"
  by (auto simp: uDestroyHandle_def dest: truncate_destroy_at split: if_splits)

lemma store_call_truncate:
  assumes "store_call clr lay c s = Some (r, s')"
  shows "cmem.truncate s' = cmem.truncate s"
  using assms
  by (cases c) (auto simp: bind_eq_Some_conv Uproot_def handle_simps uSetDependentHandle_def
      uSetHandleType_def uSetHandleExtraInfo_def ugc_handle_set_dependent_at_def
      ugc_handle_set_type_at_def ugc_handle_set_extra_at_def
      dest: truncate_create truncate_destroy truncate_sets)

text \<open>The manager's slot operations reach C memory through a foreign pointer only.\<close>

lemma save_held_truncate:
  assumes ok: "store_ok lay s" and l: "is_held (handle_abs lay (hm, s)) h"
    and run: "save_slot lay h ob s = Some s'"
  shows "cmem.truncate s' = cmem.truncate s"
proof -
  have lay: "layout_ok lay" using ok by (simp add: store_ok_def)
  from l obtain v where "handle_lookup lay s h = Some v" by (auto simp: is_held_def)
  then obtain i where i: "h = elem_addr (addr_handles lay) i" "i < UGC_HANDLE_COUNT"
    by (rule handle_lookup_Some)
  with save_handle [OF lay i(2), of ob s] run show ?thesis by (auto simp: cmem.defs)
qed

lemma truncate_duplicate:
  "CreateDuplicateHandle lay hm h s = Some (r, s') \<Longrightarrow> cmem.truncate s' = cmem.truncate s"
  by (auto simp: CreateDuplicateHandle_def bind_eq_Some_conv handle_simps
      dest: truncate_create split: if_splits)

lemma manager_call_truncate:
  assumes ok: "store_ok lay s" and pre: "manager_pre c (handle_abs lay (hm, s))"
    and run: "manager_call lay c hm s = Some (r, hm', s')"
  shows "cmem.truncate s' = cmem.truncate s"
  using run pre
  by (cases c)
    (auto simp: bind_eq_Some_conv hm_Initialize_def CreateGlobalHandleOfType_def
      DestroyHandleOfType_def DestroyHandleOfUnknownType_def SetExtraInfoForHandle_def
      uSetHandleType_def uSetHandleExtraInfo_def SetDependentHandleSecondary_def
      uSetDependentHandle_def ugc_handle_set_dependent_at_def ugc_handle_set_type_at_def
      ugc_handle_set_extra_at_def StoreObjectInHandle_def ugc_handle_slot_store_def
      StoreObjectInHandleIfNull_def ugc_handle_slot_store_if_null_def
      InterlockedCompareExchangeObjectInHandle_def ugc_handle_slot_cas_def
      TraceRefCountedHandles_def handle_simps
      dest: truncate_create truncate_destroy truncate_duplicate save_held_truncate [OF ok]
      dest!: truncate_sets split: if_splits)

lemma handle_api_truncate:
  assumes inv: "handle_api_inv clr lay st" and pre: "handle_pre (handle_abs lay st) c"
    and run: "handle_api clr lay c st = Some (r, st')"
  shows "cmem.truncate (snd st') = cmem.truncate (snd st)"
proof (cases c)
  case (On_Manager m)
  with assms manager_call_truncate [of lay "snd st" m "fst st" r "fst st'" "snd st'"] show ?thesis
    by (simp add: handle_api_inv_def)
next
  case (On_Store p m)
  with run show ?thesis
    by (auto simp: bind_eq_Some_conv dest: store_call_truncate split: if_splits)
qed

section \<open>Runs of the collector\<close>

record 'p system =
  sys_heap :: "'p gc_heap"
  sys_mgr :: "'p handle_manager"
  sys_world :: "('p gstate, 'p) world"

text \<open>The calls of \<open>uGCHeap\<close> that are no allocation.\<close>

definition heap_method ::
  "'w::len word clr_interface \<Rightarrow> 'w word gc_heap \<Rightarrow> 'w word gc_heap \<Rightarrow> bool" where
  "heap_method clr h h' \<longleftrightarrow>
     (\<exists>p sg. RegisterFrozenSegment p h = Some (sg, h')) \<or>
     (\<exists>q. snd (hosting_call clr q h) = h') \<or> (\<exists>q. snd (bcl_call clr q h) = h') \<or>
     (\<exists>q. snd (state_call clr q h) = h') \<or> (\<exists>q. snd (diag_call clr q h) = h') \<or>
     (\<exists>q. snd (segment_call clr q h) = h')"

text \<open>The object arguments of a handle call.\<close>

primrec store_objects :: "'p store_method \<Rightarrow> 'p list" where
  "store_objects S_Uproot = []"
| "store_objects (S_ContainsHandle h) = []"
| "store_objects (S_CreateHandleOfType object type) = [object]"
| "store_objects (S_CreateHandleOfType_heap object type heapToAffinitizeTo) = [object]"
| "store_objects (S_CreateHandleWithExtraInfo object type extra) = [object]"
| "store_objects (S_CreateDependentHandle primary secondary) = [primary, secondary]"
| "store_objects (S_uDestroyHandle h) = []"
| "store_objects (S_uGetDependentHandle h) = []"
| "store_objects (S_uSetDependentHandle h secondary) = [secondary]"
| "store_objects (S_uGetHandleType h) = []"
| "store_objects (S_uSetHandleType h type) = []"
| "store_objects (S_uGetHandleExtraInfo h) = []"
| "store_objects (S_uSetHandleExtraInfo h extra) = []"

primrec manager_objects :: "'p manager_method \<Rightarrow> 'p list" where
  "manager_objects (HM_Initialize new_store) = []"
| "manager_objects HM_Shutdown = []"
| "manager_objects HM_GetGlobalHandleStore = []"
| "manager_objects HM_CreateHandleStore = []"
| "manager_objects (HM_DestroyHandleStore store) = []"
| "manager_objects (HM_CreateGlobalHandleOfType object type) = [object]"
| "manager_objects (HM_CreateDuplicateHandle h) = []"
| "manager_objects (HM_DestroyHandleOfType h type) = []"
| "manager_objects (HM_DestroyHandleOfUnknownType h) = []"
| "manager_objects (HM_SetExtraInfoForHandle h type extra) = []"
| "manager_objects (HM_GetExtraInfoFromHandle h) = []"
| "manager_objects (HM_StoreObjectInHandle h object) = [object]"
| "manager_objects (HM_StoreObjectInHandleIfNull h object) = [object]"
| "manager_objects (HM_SetDependentHandleSecondary h object) = [object]"
| "manager_objects (HM_GetDependentHandleSecondary h) = []"
| "manager_objects (HM_InterlockedCompareExchangeObjectInHandle h object comparand) = [object]"
| "manager_objects (HM_HandleFetchType h) = []"
| "manager_objects (HM_TraceRefCountedHandles callback param1 param2) = []"

definition call_objects :: "'p handle_call \<Rightarrow> 'p list" where
  "call_objects c =
     (case c of On_Manager m \<Rightarrow> manager_objects m | On_Store p m \<Rightarrow> store_objects m)"

text \<open>Null, or an object that was handed out.\<close>

definition given :: "('m, 'p::zero) world \<Rightarrow> 'p \<Rightarrow> bool" where
  "given w p \<longleftrightarrow> p = 0 \<or> p \<in> fst ` set (objs w)"

text \<open>Contexts are variables of the runtime: they lie outside the core's two arrays.\<close>

definition contexts_outside :: "'w::len word layout \<Rightarrow> ('w, 'm) mworld \<Rightarrow> bool" where
  "contexts_outside lay w \<longleftrightarrow>
     (\<forall>c \<in> set (ctxs w). \<forall>p \<in> {fst c, snd c}.
        slot_of (addr_handles lay) p = None \<and> slot_of (addr_dependent lay) p = None)"

inductive sys_step ::
  "'w::len word clr_interface \<Rightarrow> 'w word layout \<Rightarrow> 'w word system \<Rightarrow> 'w word system \<Rightarrow> bool"
  for clr lay where
  alloc: "acontext = 0 \<or> ctx_ptrs clr acontext \<in> set (ctxs (sys_world g)) \<Longrightarrow>
    Alloc clr acontext sz flags (sys_heap g) (mem (sys_world g)) = Some (r, h', m') \<Longrightarrow>
    sys_step clr lay g
      (g\<lparr>sys_heap := h',
         sys_world := (sys_world g)\<lparr>mem := m',
           objs := (if r = 0 then objs (sys_world g) else (r, unat sz) # objs (sys_world g))\<rparr>\<rparr>)"
| heap: "heap_method clr (sys_heap g) h' \<Longrightarrow> sys_step clr lay g (g\<lparr>sys_heap := h'\<rparr>)"
| handle: "handle_pre (handle_abs lay (sys_mgr g, mem (sys_world g))) c \<Longrightarrow>
    \<forall>p \<in> set (call_objects c). given (sys_world g) p \<Longrightarrow>
    handle_api clr lay c (sys_mgr g, mem (sys_world g)) = Some (r, hm', m') \<Longrightarrow>
    sys_step clr lay g (g\<lparr>sys_mgr := hm', sys_world := (sys_world g)\<lparr>mem := m'\<rparr>\<rparr>)"
| runtime: "env_step ObjectGap (sys_world g) w' \<Longrightarrow> contexts_outside lay w' \<Longrightarrow>
    sys_step clr lay g (g\<lparr>sys_world := w'\<rparr>)"

text \<open>The start: what \<open>GC_Initialize\<close> returns, the static initialisers, a well-formed C memory,
  and the two arrays among the memory \<open>calloc\<close> has to leave alone.\<close>

definition sys_start ::
  "'w::len word clr_interface \<Rightarrow> 'w word layout \<Rightarrow> 'w word system \<Rightarrow> bool" where
  "sys_start clr lay g \<longleftrightarrow>
     (\<exists>c hr. GC_Initialize clr c = (hr, sys_heap g, sys_mgr g)) \<and>
     (\<exists>m. mem (sys_world g) = globals_init m \<and> mem_ok m \<and>
        (addr_handles lay, of_nat (array_bytes TYPE('w))) \<in> set (blocks m) \<and>
        (addr_dependent lay, of_nat (array_bytes TYPE('w))) \<in> set (blocks m)) \<and>
     ctxs (sys_world g) = [] \<and> objs (sys_world g) = []"

inductive sys_reach ::
  "'w::len word clr_interface \<Rightarrow> 'w word layout \<Rightarrow> 'w word system \<Rightarrow> bool" for clr lay where
  start: "sys_start clr lay g \<Longrightarrow> sys_reach clr lay g"
| step: "sys_reach clr lay g \<Longrightarrow> sys_step clr lay g g' \<Longrightarrow> sys_reach clr lay g'"

section \<open>The invariant\<close>

definition values_given :: "('m, 'p::zero) world \<Rightarrow> ('p \<rightharpoonup> 'p aslot) \<Rightarrow> bool" where
  "values_given w hs \<longleftrightarrow>
     (\<forall>h v. hs h = Some v \<longrightarrow> given w (a_object v) \<and> given w (a_secondary v))"

definition sys_inv ::
  "'w::len word clr_interface \<Rightarrow> 'w word layout \<Rightarrow> 'w word system \<Rightarrow> bool" where
  "sys_inv clr lay g \<longleftrightarrow>
     world_inv ObjectGap (sys_world g) \<and>
     handle_api_inv clr lay (sys_mgr g, mem (sys_world g)) \<and>
     values_given (sys_world g) (handle_lookup lay (mem (sys_world g)))"

lemma given_mono: "given w p \<Longrightarrow> set (objs w) \<subseteq> set (objs w') \<Longrightarrow> given w' p"
  by (auto simp: given_def)

lemma values_given_mono:
  "values_given w hs \<Longrightarrow> set (objs w) \<subseteq> set (objs w') \<Longrightarrow> values_given w' hs"
  using given_mono unfolding values_given_def by blast

text \<open>A call the specification allows puts only its object arguments into handles, or what a
  handle already held.\<close>

lemma values_given_creates:
  "creates v a r a' \<Longrightarrow> values_given w (held_values a) \<Longrightarrow> given w (a_object v) \<Longrightarrow>
   given w (a_secondary v) \<Longrightarrow> values_given w (held_values a')"
  by (auto simp: creates_def values_given_def split: if_splits)

lemma values_given_updates:
  assumes "updates h f a a'" and "values_given w (held_values a)"
    and "\<And>v. given w (a_object v) \<Longrightarrow> given w (a_secondary v) \<Longrightarrow>
      given w (a_object (f v)) \<and> given w (a_secondary (f v))"
  shows "values_given w (held_values a')"
  using assms by (auto simp: updates_def values_given_def split: if_splits)

lemma values_given_forgets:
  "forgets h a a' \<Longrightarrow> values_given w (held_values a) \<Longrightarrow> values_given w (held_values a')"
  by (auto simp: forgets_def values_given_def)

lemma values_given_reads:
  "reads h f a r a' \<Longrightarrow> values_given w (held_values a) \<Longrightarrow> values_given w (held_values a')"
  by (simp add: reads_def)

lemma given_null [simp]: "given w 0"
  by (simp add: given_def)

lemmas values_given_rules = values_given_creates values_given_updates values_given_forgets
  values_given_reads

lemma store_spec_given:
  assumes "store_spec clr c a r a'" and "values_given w (held_values a)"
    and "\<forall>p \<in> set (store_objects c). given w p"
  shows "values_given w (held_values a')"
  using assms
  by (cases c) (auto simp: plain_value_def elim!: values_given_rules)

lemma manager_spec_given:
  assumes "manager_spec c a r a'" and "values_given w (held_values a)"
    and "\<forall>p \<in> set (manager_objects c). given w p"
  shows "values_given w (held_values a')"
proof -
  have dup: "given w (a_object v)" if "held_values a h = Some v" for h v
    using assms(2) that by (auto simp: values_given_def)
  show ?thesis
    using assms
    by (cases c) (auto simp: plain_value_def dup elim!: values_given_rules split: if_splits)
qed

text \<open>A memory with the same C half.\<close>

lemma truncate_fields:
  assumes "cmem.truncate m' = cmem.truncate m"
  shows "blocks m' = blocks m" "bytes m' = bytes m" "cells m' = cells m" "i64s m' = i64s m"
    "placements m' = placements m"
  using assms by (simp_all add: cmem.defs)

lemma world_inv_truncate:
  assumes inv: "world_inv hdr w" and eq: "cmem.truncate m' = cmem.truncate (mem w)"
  shows "world_inv hdr (w\<lparr>mem := m'\<rparr>)"
proof -
  note f = truncate_fields [OF eq]
  have "mem_ok m'" using inv by (simp add: world_inv_def mem_ok_def f)
  then show ?thesis by (intro world_inv_mem [OF inv]) (simp_all add: f)
qed

lemma env_step_objs: "env_step hdr w w' \<Longrightarrow> set (objs w) \<subseteq> set (objs w')"
  by (erule env_stepE) auto

text \<open>The part of a state a handle reads: the store and what was handed out.\<close>

lemma handle_part_mono:
  assumes "handle_api_inv clr lay (hm, mem w)" and "values_given w (handle_lookup lay (mem w))"
    and "cmem.more m' = cmem.more (mem w)" and "set (objs w) \<subseteq> set (objs w')"
  shows "handle_api_inv clr lay (hm, m') \<and> values_given w' (handle_lookup lay m')"
  using assms more_eq_store(3,4) [OF assms(3), of lay] values_given_mono
  by (simp add: handle_api_inv_def)

lemma sys_step_inv:
  fixes clr :: "'w::len word clr_interface"
  assumes t: "rv_target TYPE('w)" and step: "sys_step clr lay g g'" and inv: "sys_inv clr lay g"
  shows "sys_inv clr lay g'"
proof -
  let ?w = "sys_world g"
  have w: "world_inv ObjectGap ?w" and h: "handle_api_inv clr lay (sys_mgr g, mem ?w)"
    and v: "values_given ?w (handle_lookup lay (mem ?w))"
    using inv by (simp_all add: sys_inv_def)
  from step show ?thesis
  proof cases
    case (alloc acontext sz flags r h' m')
    let ?w' = "?w\<lparr>mem := m', objs := (if r = 0 then objs ?w else (r, unat sz) # objs ?w)\<rparr>"
    have "set (objs ?w) \<subseteq> set (objs ?w')" by auto
    from handle_part_mono [OF h v Alloc_more [OF alloc(3)] this]
      Alloc_world_inv [OF t w alloc(2,3)]
    show ?thesis unfolding alloc(1) sys_inv_def by simp
  next
    case (heap h')
    with w h v show ?thesis by (simp add: sys_inv_def)
  next
    case (handle c r hm' m')
    let ?st = "(sys_mgr g, mem ?w)"
    from handle_api_simulates [OF h handle(2)] handle(4) have
      sim: "handle_api_inv clr lay (hm', m')"
        "handle_api_spec clr (handle_abs lay ?st) c r (handle_abs lay (hm', m'))" by auto
    have "values_given ?w (handle_lookup lay m')"
      using sim(2) handle(3) v store_spec_given [of clr _ "handle_abs lay ?st" r _ ?w]
        manager_spec_given [of _ "handle_abs lay ?st" r _ ?w]
      by (cases c) (force simp: handle_api_spec_def call_objects_def)+
    moreover have "cmem.truncate m' = cmem.truncate (mem ?w)"
      using handle_api_truncate [OF h handle(2,4)] by simp
    ultimately show ?thesis
      using sim(1) world_inv_truncate [OF w] unfolding handle(1) sys_inv_def
      by (simp add: values_given_def given_def)
  next
    case (runtime w')
    from handle_part_mono [OF h v env_step_more [OF runtime(2)] env_step_objs [OF runtime(2)]]
      env_step_inv [OF runtime(2) w]
    show ?thesis unfolding runtime(1) sys_inv_def by simp
  qed
qed

lemma sys_start_inv:
  fixes clr :: "'w::len word clr_interface"
  assumes lay: "layout_ok lay" and dep: "live_type (hndtype_dependent clr)"
    and start: "sys_start clr lay g"
  shows "sys_inv clr lay g"
proof -
  from start obtain m where m: "mem (sys_world g) = globals_init m" "mem_ok m"
    and e: "ctxs (sys_world g) = []" "objs (sys_world g) = []"
    by (auto simp: sys_start_def)
  have "world_inv ObjectGap (sys_world g)"
    using m e by (simp add: world_inv_def ctxs_ok_def mem_ok_def globals_init_def cmem.defs)
  moreover have "live_slots (globals_init m) = {}"
    by (simp add: live_slots_def globals_init_def cmem.defs)
  then have "handle_lookup lay (globals_init m) = Map.empty"
    by (simp add: handle_lookup_def fun_eq_iff split: option.split)
  ultimately show ?thesis
    using lay dep store_inv_init [of m]
    by (simp add: sys_inv_def handle_api_inv_def store_ok_def m(1) values_given_def)
qed

lemma sys_reach_inv:
  fixes clr :: "'w::len word clr_interface"
  assumes lay: "layout_ok lay" and dep: "live_type (hndtype_dependent clr)"
    and reach: "sys_reach clr lay g"
  shows "sys_inv clr lay g"
  using reach
  by induction
    (auto intro: sys_start_inv [OF lay dep] sys_step_inv [OF layout_target [OF lay]])

section \<open>The heap keeps off the handle store\<close>

text \<open>The arrays of the handle store, as ranges of addresses.\<close>

definition array_spans :: "'w::len word layout \<Rightarrow> (nat \<times> nat) set" where
  "array_spans lay =
     {span (addr_handles lay) (array_bytes TYPE('w)), span (addr_dependent lay) (array_bytes TYPE('w))}"

definition off_limits :: "'w::len word layout \<Rightarrow> ('w, 'm) mworld \<Rightarrow> bool" where
  "off_limits lay w \<longleftrightarrow> (\<forall>r \<in> array_spans lay. clear ObjectGap w r \<and> in_block (mem w) r)"

lemma Alloc_clear:
  fixes w :: "('w::len, 'm) mworld"
  assumes t: "rv_target TYPE('w)" and inv: "world_inv ObjectGap w"
    and c: "acontext = 0 \<or> ctx_ptrs clr acontext \<in> set (ctxs w)"
    and run: "Alloc clr acontext sz flags h (mem w) = Some (p, h', m')"
    and cl: "clear ObjectGap w r" and b: "in_block (mem w) r"
  shows "clear ObjectGap (w\<lparr>mem := m', objs := (if p = 0 then objs w else (p, unat sz) # objs w)\<rparr>) r"
    and "in_block m' r"
proof -
  have c': "fst (ctx_ptrs clr acontext) = 0 \<or>
      (fst (ctx_ptrs clr acontext), snd (ctx_ptrs clr acontext)) \<in> set (ctxs w)"
    using c by (auto simp: ctx_ptrs_def)
  note call = ugc_zalloc.clear_call [OF t inv cl b c']
  have grow: "in_block m1 r"
    if "ugc_core_alloc ugc_zalloc pp lp sz bp hdr (mem w) = Some (q, m1)" for pp lp bp hdr q m1
    using ugc_zalloc.core_alloc_blocks [OF that] b by (auto simp: in_block_def)
  from run have "clear ObjectGap
      (w\<lparr>mem := m', objs := (if p = 0 then objs w else (p, unat sz) # objs w)\<rparr>) r \<and> in_block m' r"
  proof (cases rule: Alloc_cases)
    case failed
    with call grow show ?thesis by fastforce
  next
    case (served m1)
    then have "clear ObjectGap (w\<lparr>mem := m1, objs := (p, unat sz) # objs w\<rparr>) r \<and> in_block m1 r"
      using call grow by fastforce
    with served(2,4) show ?thesis
      by (auto simp: add_i64_Some_iff clear_def in_block_def split: if_splits)
  qed
  then show "clear ObjectGap (w\<lparr>mem := m', objs := (if p = 0 then objs w else (p, unat sz) # objs w)\<rparr>) r"
    and "in_block m' r" by auto
qed

lemma sys_step_off_limits:
  fixes clr :: "'w::len word clr_interface"
  assumes t: "rv_target TYPE('w)" and step: "sys_step clr lay g g'" and inv: "sys_inv clr lay g"
    and off: "off_limits lay (sys_world g)"
  shows "off_limits lay (sys_world g')"
proof -
  let ?w = "sys_world g"
  have w: "world_inv ObjectGap ?w" and h: "handle_api_inv clr lay (sys_mgr g, mem ?w)"
    using inv by (simp_all add: sys_inv_def)
  from step show ?thesis
  proof cases
    case (alloc acontext sz flags r h' m')
    from Alloc_clear [OF t w alloc(2,3)] off show ?thesis
      unfolding alloc(1) off_limits_def by simp
  next
    case (heap h')
    with off show ?thesis by simp
  next
    case (handle c r hm' m')
    from truncate_fields [OF handle_api_truncate [OF h handle(2,4)]] off show ?thesis
      unfolding handle(1) off_limits_def by (simp add: clear_def window_def in_block_def)
  next
    case (runtime w')
    with clear_env [OF runtime(2) w] env_step_blocks [OF runtime(2)] off show ?thesis
      unfolding runtime(1) off_limits_def by (simp add: in_block_def)
  qed
qed

lemma sys_start_off_limits:
  fixes clr :: "'w::len word clr_interface"
  assumes lay: "layout_ok lay" and start: "sys_start clr lay g"
  shows "off_limits lay (sys_world g)"
proof -
  from start obtain m where m: "mem (sys_world g) = globals_init m"
    "(addr_handles lay, of_nat (array_bytes TYPE('w))) \<in> set (blocks m)"
    "(addr_dependent lay, of_nat (array_bytes TYPE('w))) \<in> set (blocks m)"
    and e: "ctxs (sys_world g) = []" "objs (sys_world g) = []"
    by (auto simp: sys_start_def)
  have "unat (of_nat (array_bytes TYPE('w)) :: 'w word) = array_bytes TYPE('w)"
    by (rule unat_array_bytes [OF layout_target [OF lay]])
  with m(2,3) have "in_block (mem (sys_world g)) r" if "r \<in> array_spans lay" for r
    using that unfolding in_block_def m(1)
    by (auto simp: array_spans_def globals_init_def cmem.defs inside_refl
        intro: bexI [of _ "(addr_handles lay, of_nat (array_bytes TYPE('w)))"]
        bexI [of _ "(addr_dependent lay, of_nat (array_bytes TYPE('w)))"])
  with e show ?thesis by (simp add: off_limits_def clear_def)
qed

lemma sys_reach_off_limits:
  fixes clr :: "'w::len word clr_interface"
  assumes lay: "layout_ok lay" and dep: "live_type (hndtype_dependent clr)"
    and reach: "sys_reach clr lay g"
  shows "off_limits lay (sys_world g)"
  using reach
proof induction
  case (start g)
  then show ?case by (rule sys_start_off_limits [OF lay])
next
  case (step g g')
  with sys_step_off_limits [OF layout_target [OF lay] step(2) sys_reach_inv [OF lay dep step(1)]]
  show ?case by blast
qed

text \<open>The handles depend on the handle store only.\<close>

lemma handle_abs_more:
  "cmem.more m' = cmem.more m \<Longrightarrow> handle_abs lay (hm, m') = handle_abs lay (hm, m)"
  using more_eq_store(3) [of m' m lay] by (simp add: handle_abs_def)

text \<open>A new object of a good world is apart from the others.\<close>

lemma world_inv_head:
  assumes "world_inv hdr (w\<lparr>mem := m', objs := (p, n) # objs w\<rparr>)"
  shows "\<forall>ob \<in> set (objs w). apart (obj_span hdr (p, n)) (obj_span hdr ob)"
  using assms by (simp add: world_inv_def)

end
