(* ===== verification/Ideal_Heap.thy ===== *)
theory Ideal_Heap
  imports System_Run Simulation
begin

unbundle bit_operations_syntax

text \<open>
  What a managed program sees. The runtime's calls of the collector, its inline allocation,
  and the program's reads and writes of its objects are one interface; its specification is
  an ideal heap: a partial map from addresses to bytes that a new object extends by zeros
  where nothing was, that a write changes at one address, and that nothing else touches, with
  the handles, the byte counters of every context, the total and the segments beside it.
  A client that keeps to the specification never meets undefined behaviour and never sees an
  answer the ideal heap does not give.
\<close>

section \<open>The interface\<close>

datatype 'p gc_call =
    Gc_Attach 'p
  | Gc_Alloc 'p 'p "32 word"
  | Gc_Inline 'p 'p
  | Gc_Write 'p "8 word"
  | Gc_Read 'p
  | Gc_Handle "'p handle_call"
  | Gc_Counters 'p
  | Gc_Method "'p heap_call"
  | Gc_Memory_Info "('p, 'p, 'p) memory_info" int "'p out_vars"
  | Gc_Register 'p

datatype 'p gc_answer =
    Done
  | Pointer 'p
  | Byte "8 word"
  | Handle_Value "'p handle_value"
  | Counters int int
  | Method_Value "'p heap_value"
  | Info_Vars "'p out_vars"

text \<open>The two pointer fields and the two counters of a context.\<close>

definition ctx_cells :: "'w::len word clr_interface \<Rightarrow> 'w word \<Rightarrow> 'w word set" where
  "ctx_cells clr c = {ctx_field_addr clr c Alloc_Ptr, ctx_field_addr clr c Alloc_Limit}"

definition ctx_counters :: "'w::len word clr_interface \<Rightarrow> 'w word \<Rightarrow> 'w word set" where
  "ctx_counters clr c = {ctx_field_addr clr c Alloc_Bytes, ctx_field_addr clr c Alloc_Bytes_UOH}"

text \<open>A new thread: a context with zero fields, as the runtime makes it.\<close>

definition attach_context ::
  "'w::len word clr_interface \<Rightarrow> 'w word \<Rightarrow> ('w, 'm) mworld \<Rightarrow> ('w, 'm) mworld" where
  "attach_context clr c w =
     w\<lparr>mem := (mem w)\<lparr>
         cells := (cells (mem w))(fst (ctx_ptrs clr c) \<mapsto> 0, snd (ctx_ptrs clr c) \<mapsto> 0),
         i64s := (i64s (mem w))(ctx_field_addr clr c Alloc_Bytes \<mapsto> 0,
                                ctx_field_addr clr c Alloc_Bytes_UOH \<mapsto> 0)\<rparr>,
       ctxs := ctx_ptrs clr c # ctxs w\<rparr>"

text \<open>The runtime's fast path: it bumps the window when the object fits, and returns null when
  \<open>Alloc\<close> has to be called.\<close>

definition inline_alloc ::
  "'w::len word clr_interface \<Rightarrow> 'w word \<Rightarrow> 'w word \<Rightarrow> ('w, 'm) mworld \<Rightarrow>
   'w word \<times> ('w, 'm) mworld" where
  "inline_alloc clr c sz w =
     (case window (mem w) (ctx_ptrs clr c) of
        None \<Rightarrow> (0, w)
      | Some (p, l) \<Rightarrow>
          if unat p + unat sz \<le> unat l
          then (p, w\<lparr>mem := (mem w)\<lparr>cells := (cells (mem w))(fst (ctx_ptrs clr c) \<mapsto> p + sz)\<rparr>,
                     objs := (p, unat sz) # objs w\<rparr>)
          else (0, w))"

text \<open>The program's accesses: undefined outside the blocks.\<close>

definition write_byte ::
  "'w::len word \<Rightarrow> 8 word \<Rightarrow> ('w, 'm) mworld \<Rightarrow> ('w, 'm) mworld option" where
  "write_byte x v w =
     (if valid_bytes (mem w) x 1 then Some (w\<lparr>mem := (mem w)\<lparr>bytes := (bytes (mem w))(x := v)\<rparr>\<rparr>)
      else None)"

definition read_byte :: "'w::len word \<Rightarrow> ('w, 'm) mworld \<Rightarrow> 8 word option" where
  "read_byte x w = (if valid_bytes (mem w) x 1 then Some (bytes (mem w) x) else None)"

primrec gc_exec ::
  "'w::len word clr_interface \<Rightarrow> 'w word layout \<Rightarrow> 'w word gc_call \<Rightarrow> 'w word system \<Rightarrow>
   ('w word gc_answer \<times> 'w word system) option" where
  "gc_exec clr lay (Gc_Attach c) g =
     Some (Done, g\<lparr>sys_world := attach_context clr c (sys_world g)\<rparr>)"
| "gc_exec clr lay (Gc_Alloc c sz flags) g =
     do {
       (p, h, m) \<leftarrow> Alloc clr c sz flags (sys_heap g) (mem (sys_world g));
       Some (Pointer p, g\<lparr>sys_heap := h, sys_world := (sys_world g)\<lparr>mem := m,
         objs := (if p = 0 then objs (sys_world g) else (p, unat sz) # objs (sys_world g))\<rparr>\<rparr>)
     }"
| "gc_exec clr lay (Gc_Inline c sz) g =
     (case inline_alloc clr c sz (sys_world g) of (p, w) \<Rightarrow> Some (Pointer p, g\<lparr>sys_world := w\<rparr>))"
| "gc_exec clr lay (Gc_Write x v) g =
     do { w \<leftarrow> write_byte x v (sys_world g); Some (Done, g\<lparr>sys_world := w\<rparr>) }"
| "gc_exec clr lay (Gc_Read x) g =
     do { b \<leftarrow> read_byte x (sys_world g); Some (Byte b, g) }"
| "gc_exec clr lay (Gc_Handle c) g =
     do {
       (r, hm, m) \<leftarrow> handle_api clr lay c (sys_mgr g, mem (sys_world g));
       Some (Handle_Value r, g\<lparr>sys_mgr := hm, sys_world := (sys_world g)\<lparr>mem := m\<rparr>\<rparr>)
     }"
| "gc_exec clr lay (Gc_Counters c) g =
     do {
       b \<leftarrow> i64s (mem (sys_world g)) (ctx_field_addr clr c Alloc_Bytes);
       u \<leftarrow> i64s (mem (sys_world g)) (ctx_field_addr clr c Alloc_Bytes_UOH);
       Some (Counters b u, g)
     }"
| "gc_exec clr lay (Gc_Method c) g =
     (case heap_call_exec clr c (sys_heap g) of (v, h) \<Rightarrow> Some (Method_Value v, g\<lparr>sys_heap := h\<rparr>))"
| "gc_exec clr lay (Gc_Memory_Info out kind s) g =
     do { s \<leftarrow> GetMemoryInfo out kind (sys_heap g) s; Some (Info_Vars s, g) }"
| "gc_exec clr lay (Gc_Register info) g =
     do {
       (p, h) \<leftarrow> RegisterFrozenSegment info (sys_heap g);
       Some (Pointer p, g\<lparr>sys_heap := h\<rparr>)
     }"

section \<open>The ideal heap\<close>

record 'p ideal =
  ideal_objects :: "('p \<times> nat) list"
  ideal_memory :: "'p \<rightharpoonup> 8 word"
  ideal_contexts :: "'p \<rightharpoonup> int \<times> int"
  ideal_handles :: "'p handle_spec"
  ideal_total :: "64 word"
  ideal_segments :: int

definition within :: "'w::len word \<Rightarrow> nat \<times> nat \<Rightarrow> bool" where
  "within x r \<longleftrightarrow> fst r \<le> unat x \<and> unat x < snd r"

text \<open>The bytes of a new object with its header: all zero.\<close>

definition zeros :: "'w::len word \<Rightarrow> nat \<Rightarrow> 'w word \<rightharpoonup> 8 word" where
  "zeros p n = (\<lambda>x. if within x (obj_span ObjectGap (p, n)) then Some 0 else None)"

text \<open>An object may be returned where the heap has no byte.\<close>

definition new_object ::
  "'w::len word \<Rightarrow> nat \<Rightarrow> 'w word ideal \<Rightarrow> 'w word ideal \<Rightarrow> bool" where
  "new_object p n a a' \<longleftrightarrow> p \<noteq> 0 \<and> dom (zeros p n) \<inter> dom (ideal_memory a) = {} \<and>
     a' = a\<lparr>ideal_objects := (p, n) # ideal_objects a,
            ideal_memory := ideal_memory a ++ zeros p n\<rparr>"

text \<open>The accounting of a served request: the counter of the context that the flags select.\<close>

definition charged :: "bool \<Rightarrow> int \<Rightarrow> int \<times> int \<Rightarrow> int \<times> int" where
  "charged old_heap n c = (if old_heap then (fst c, snd c + n) else (fst c + n, snd c))"

definition charge ::
  "'w::len word \<Rightarrow> bool \<Rightarrow> 'w word \<Rightarrow> 'w word ideal \<Rightarrow> 'w word ideal" where
  "charge c old_heap sz a =
     a\<lparr>ideal_contexts := (ideal_contexts a)
         (c := map_option (charged old_heap (int64_of_size sz)) (ideal_contexts a c)),
       ideal_total := ideal_total a + ucast sz\<rparr>"

definition old_heap_flag :: "'p clr_interface \<Rightarrow> 32 word \<Rightarrow> bool" where
  "old_heap_flag clr flags \<longleftrightarrow> flags AND gc_alloc_user_old_heap clr \<noteq> 0"

text \<open>What the client has to keep to.\<close>

primrec gc_pre ::
  "'w::len word clr_interface \<Rightarrow> 'w word layout \<Rightarrow> 'w word ideal \<Rightarrow> 'w word gc_call \<Rightarrow> bool" where
  "gc_pre clr lay a (Gc_Attach c) \<longleftrightarrow>
     c \<noteq> 0 \<and> ctx_field_addr clr c Alloc_Ptr \<noteq> 0 \<and>
     ctx_field_addr clr c Alloc_Ptr \<noteq> ctx_field_addr clr c Alloc_Limit \<and>
     ctx_field_addr clr c Alloc_Bytes \<noteq> ctx_field_addr clr c Alloc_Bytes_UOH \<and>
     (\<forall>x \<in> ctx_cells clr c. slot_of (addr_handles lay) x = None \<and> slot_of (addr_dependent lay) x = None) \<and>
     (\<forall>d \<in> dom (ideal_contexts a). ctx_cells clr c \<inter> ctx_cells clr d = {} \<and>
        ctx_counters clr c \<inter> ctx_counters clr d = {})"
| "gc_pre clr lay a (Gc_Alloc c sz flags) \<longleftrightarrow>
     c = 0 \<or> (case ideal_contexts a c of
       None \<Rightarrow> False
     | Some (b, u) \<Rightarrow>
         c_int64 ((if old_heap_flag clr flags then u else b) + int64_of_size sz) \<noteq> None)"
| "gc_pre clr lay a (Gc_Inline c sz) \<longleftrightarrow> c \<in> dom (ideal_contexts a)"
| "gc_pre clr lay a (Gc_Write x v) \<longleftrightarrow> x \<in> dom (ideal_memory a)"
| "gc_pre clr lay a (Gc_Read x) \<longleftrightarrow> x \<in> dom (ideal_memory a)"
| "gc_pre clr lay a (Gc_Handle c) \<longleftrightarrow> handle_pre (ideal_handles a) c \<and>
     (\<forall>p \<in> set (call_objects c). p = 0 \<or> p \<in> fst ` set (ideal_objects a))"
| "gc_pre clr lay a (Gc_Counters c) \<longleftrightarrow> c \<in> dom (ideal_contexts a)"
| "gc_pre clr lay a (Gc_Method c) \<longleftrightarrow> True"
| "gc_pre clr lay a (Gc_Memory_Info out kind s) \<longleftrightarrow> info_valid out s \<and> info_distinct out"
| "gc_pre clr lay a (Gc_Register info) \<longleftrightarrow> c_int (ideal_segments a + 1) \<noteq> None"

text \<open>What it is answered, and what becomes of the heap.\<close>

primrec gc_ideal ::
  "'w::len word clr_interface \<Rightarrow> 'w word ideal \<Rightarrow> 'w word gc_call \<Rightarrow> 'w word gc_answer \<Rightarrow>
   'w word ideal \<Rightarrow> bool" where
  "gc_ideal clr a (Gc_Attach c) r a' \<longleftrightarrow>
     r = Done \<and> a' = a\<lparr>ideal_contexts := (ideal_contexts a)(c \<mapsto> (0, 0))\<rparr>"
| "gc_ideal clr a (Gc_Alloc c sz flags) r a' \<longleftrightarrow>
     r = Pointer 0 \<and> a' = a \<or>
     (\<exists>p a1. r = Pointer p \<and> new_object p (unat sz) a a1 \<and>
        a' = charge c (old_heap_flag clr flags) sz a1)"
| "gc_ideal clr a (Gc_Inline c sz) r a' \<longleftrightarrow>
     r = Pointer 0 \<and> a' = a \<or> (\<exists>p. r = Pointer p \<and> new_object p (unat sz) a a')"
| "gc_ideal clr a (Gc_Write x v) r a' \<longleftrightarrow>
     r = Done \<and> a' = a\<lparr>ideal_memory := (ideal_memory a)(x \<mapsto> v)\<rparr>"
| "gc_ideal clr a (Gc_Read x) r a' \<longleftrightarrow> (\<exists>b. ideal_memory a x = Some b \<and> r = Byte b) \<and> a' = a"
| "gc_ideal clr a (Gc_Handle c) r a' \<longleftrightarrow>
     (\<exists>q hs. r = Handle_Value q \<and> handle_api_spec clr (ideal_handles a) c q hs \<and>
        a' = a\<lparr>ideal_handles := hs\<rparr>)"
| "gc_ideal clr a (Gc_Counters c) r a' \<longleftrightarrow>
     (\<exists>b u. ideal_contexts a c = Some (b, u) \<and> r = Counters b u) \<and> a' = a"
| "gc_ideal clr a (Gc_Method c) r a' \<longleftrightarrow> r = Method_Value (heap_answer clr (ideal_total a) c) \<and> a' = a"
| "gc_ideal clr a (Gc_Memory_Info out kind s) r a' \<longleftrightarrow>
     (\<exists>s'. r = Info_Vars s' \<and> info_holds out (memory_report (ideal_total a)) s') \<and> a' = a"
| "gc_ideal clr a (Gc_Register info) r a' \<longleftrightarrow>
     r = Pointer (word_of_int (ideal_segments a + 1)) \<and>
     a' = a\<lparr>ideal_segments := ideal_segments a + 1\<rparr>"

section \<open>What a state of the collector means\<close>

definition ideal_memory_of :: "('w::len, 'm) mworld \<Rightarrow> 'w word \<rightharpoonup> 8 word" where
  "ideal_memory_of w =
     (\<lambda>x. if \<exists>ob \<in> set (objs w). within x (obj_span ObjectGap ob) then Some (bytes (mem w) x) else None)"

definition ideal_contexts_of ::
  "'w::len word clr_interface \<Rightarrow> ('w, 'm) mworld \<Rightarrow> 'w word \<rightharpoonup> int \<times> int" where
  "ideal_contexts_of clr w =
     (\<lambda>c. if c \<noteq> 0 \<and> ctx_ptrs clr c \<in> set (ctxs w)
          then (case (i64s (mem w) (ctx_field_addr clr c Alloc_Bytes),
                      i64s (mem w) (ctx_field_addr clr c Alloc_Bytes_UOH)) of
                  (Some b, Some u) \<Rightarrow> Some (b, u) | _ \<Rightarrow> None)
          else None)"

definition ideal_abs ::
  "'w::len word clr_interface \<Rightarrow> 'w word layout \<Rightarrow> 'w word system \<Rightarrow> 'w word ideal" where
  "ideal_abs clr lay g =
     \<lparr>ideal_objects = objs (sys_world g),
      ideal_memory = ideal_memory_of (sys_world g),
      ideal_contexts = ideal_contexts_of clr (sys_world g),
      ideal_handles = handle_abs lay (sys_mgr g, mem (sys_world g)),
      ideal_total = allocatedBytes (sys_heap g),
      ideal_segments = registeredSegments (sys_heap g)\<rparr>"

text \<open>Every context the collector knows is one of the runtime's, with counters of its own.\<close>

definition contexts_ok ::
  "'w::len word clr_interface \<Rightarrow> 'w word layout \<Rightarrow> ('w, 'm) mworld \<Rightarrow> bool" where
  "contexts_ok clr lay w \<longleftrightarrow>
     contexts_outside lay w \<and>
     (\<forall>p \<in> set (ctxs w). \<exists>c. c \<noteq> 0 \<and> p = ctx_ptrs clr c) \<and>
     (\<forall>c. c \<noteq> 0 \<and> ctx_ptrs clr c \<in> set (ctxs w) \<longrightarrow>
        ctx_field_addr clr c Alloc_Bytes \<noteq> ctx_field_addr clr c Alloc_Bytes_UOH \<and>
        ctx_counters clr c \<subseteq> dom (i64s (mem w)) \<and>
        (\<forall>d. d \<noteq> 0 \<and> ctx_ptrs clr d \<in> set (ctxs w) \<and> d \<noteq> c \<longrightarrow>
           ctx_counters clr c \<inter> ctx_counters clr d = {}))"

definition ideal_inv ::
  "'w::len word clr_interface \<Rightarrow> 'w word layout \<Rightarrow> 'w word system \<Rightarrow> bool" where
  "ideal_inv clr lay g \<longleftrightarrow> sys_inv clr lay g \<and> contexts_ok clr lay (sys_world g)"

section \<open>Memory\<close>

lemma within_apart: "within x r \<Longrightarrow> apart r s \<Longrightarrow> \<not> within x s"
  by (auto simp: within_def apart_def)

lemma ideal_memory_same:
  assumes "objs w' = objs w"
    and "\<And>x ob. ob \<in> set (objs w) \<Longrightarrow> within x (obj_span ObjectGap ob) \<Longrightarrow>
      bytes (mem w') x = bytes (mem w) x"
  shows "ideal_memory_of w' = ideal_memory_of w"
proof (rule ext)
  fix x
  show "ideal_memory_of w' x = ideal_memory_of w x"
  proof (cases "\<exists>ob \<in> set (objs w). within x (obj_span ObjectGap ob)")
    case True
    then have "bytes (mem w') x = bytes (mem w) x" using assms(2) by blast
    then show ?thesis by (simp add: ideal_memory_of_def assms(1))
  next
    case False
    then show ?thesis by (simp add: ideal_memory_of_def assms(1))
  qed
qed

lemma ideal_memory_frame:
  "objs w' = objs w \<Longrightarrow> bytes (mem w') = bytes (mem w) \<Longrightarrow> ideal_memory_of w' = ideal_memory_of w"
  by (simp only: ideal_memory_of_def)

lemma ideal_memory_new:
  assumes "objs w' = (p, n) # objs w"
    and "\<And>x ob. ob \<in> set (objs w) \<Longrightarrow> within x (obj_span ObjectGap ob) \<Longrightarrow>
      bytes (mem w') x = bytes (mem w) x"
    and z: "\<And>x. within x (obj_span ObjectGap (p, n)) \<Longrightarrow> bytes (mem w') x = 0"
    and ap: "\<forall>ob \<in> set (objs w). apart (obj_span ObjectGap (p, n)) (obj_span ObjectGap ob)"
  shows "dom (zeros p n) \<inter> dom (ideal_memory_of w) = {}"
    and "ideal_memory_of w' = ideal_memory_of w ++ zeros p n"
proof -
  have ex: "\<not> within x (obj_span ObjectGap ob)"
    if "within x (obj_span ObjectGap (p, n))" "ob \<in> set (objs w)" for x ob
    using within_apart [OF that(1)] ap that(2) by blast
  then show "dom (zeros p n) \<inter> dom (ideal_memory_of w) = {}"
    by (fastforce simp: zeros_def ideal_memory_of_def split: if_splits)
  show "ideal_memory_of w' = ideal_memory_of w ++ zeros p n"
  proof (rule ext)
    fix x
    show "ideal_memory_of w' x = (ideal_memory_of w ++ zeros p n) x"
    proof (cases "within x (obj_span ObjectGap (p, n))")
      case True
      with z [OF True] show ?thesis by (simp add: assms(1) ideal_memory_of_def zeros_def map_add_def)
    next
      case False
      with assms(2) show ?thesis
        by (auto simp: assms(1) ideal_memory_of_def zeros_def map_add_def)
    qed
  qed
qed

text \<open>A byte of an object can be read and written.\<close>

lemma ideal_memory_valid:
  assumes inv: "world_inv ObjectGap w" and x: "x \<in> dom (ideal_memory_of w)"
  shows "valid_bytes (mem w) x 1"
    and "\<exists>ob \<in> set (objs w). within x (obj_span ObjectGap ob)"
    and "ideal_memory_of w x = Some (bytes (mem w) x)"
proof -
  from x obtain ob where ob: "ob \<in> set (objs w)" "within x (obj_span ObjectGap ob)"
    by (auto simp: ideal_memory_of_def split: if_splits)
  then show "\<exists>ob \<in> set (objs w). within x (obj_span ObjectGap ob)" by blast
  from ob show "ideal_memory_of w x = Some (bytes (mem w) x)" by (auto simp: ideal_memory_of_def)
  have "object_ok ObjectGap (mem w) ob" using inv ob(1) by (simp add: world_inv_def)
  from object_in_block [OF this] obtain b where
    b: "b \<in> set (blocks (mem w))" "inside (obj_span ObjectGap ob) (block_span b)"
    by (auto simp: in_block_def)
  with ob(2) have "inside (span x 1) (block_span b)" by (simp add: inside_def within_def)
  with b(1) show "valid_bytes (mem w) x 1" by (auto simp: valid_bytes_def)
qed

section \<open>Contexts\<close>

lemma ctx_ptrs_inj: "c \<noteq> 0 \<Longrightarrow> d \<noteq> 0 \<Longrightarrow> ctx_ptrs clr c = ctx_ptrs clr d \<Longrightarrow> c = d"
  by (simp add: ctx_ptrs_def ctx_field_addr_def)

lemma contexts_frame:
  assumes "ctxs w' = ctxs w" and "i64s (mem w') = i64s (mem w)"
  shows "contexts_ok clr lay w' = contexts_ok clr lay w"
    and "ideal_contexts_of clr w' = ideal_contexts_of clr w"
  unfolding contexts_ok_def contexts_outside_def ideal_contexts_of_def assms by (rule refl)+

lemma known_context:
  assumes "contexts_ok clr lay w"
  shows "c \<in> dom (ideal_contexts_of clr w) \<longleftrightarrow> c \<noteq> 0 \<and> ctx_ptrs clr c \<in> set (ctxs w)"
  using assms
  by (fastforce simp: ideal_contexts_of_def contexts_ok_def ctx_counters_def split: option.splits)

lemma known_counters:
  "ideal_contexts_of clr w c = Some (b, u) \<longleftrightarrow> c \<noteq> 0 \<and> ctx_ptrs clr c \<in> set (ctxs w) \<and>
     i64s (mem w) (ctx_field_addr clr c Alloc_Bytes) = Some b \<and>
     i64s (mem w) (ctx_field_addr clr c Alloc_Bytes_UOH) = Some u"
  by (auto simp: ideal_contexts_of_def split: option.splits)

text \<open>A counter of one context goes up, those of the others stay.\<close>

lemma contexts_charge:
  assumes ok: "contexts_ok clr lay w" and c: "c \<noteq> 0" "ctx_ptrs clr c \<in> set (ctxs w)"
    and x: "i64s (mem w) (alloc_counter clr c flags) = Some x"
    and w': "ctxs w' = ctxs w" "i64s (mem w') = (i64s (mem w))(alloc_counter clr c flags \<mapsto> x + n)"
  shows "contexts_ok clr lay w'"
    and "ideal_contexts_of clr w' = (ideal_contexts_of clr w)
      (c := map_option (charged (old_heap_flag clr flags) n) (ideal_contexts_of clr w c))"
proof -
  have k: "alloc_counter clr c flags \<in> ctx_counters clr c"
    by (simp add: alloc_counter_def ctx_counters_def)
  show "contexts_ok clr lay w'"
    using ok unfolding contexts_ok_def contexts_outside_def w' by fastforce
  show "ideal_contexts_of clr w' = (ideal_contexts_of clr w)
      (c := map_option (charged (old_heap_flag clr flags) n) (ideal_contexts_of clr w c))"
  proof (rule ext)
    fix d
    show "ideal_contexts_of clr w' d = ((ideal_contexts_of clr w)
      (c := map_option (charged (old_heap_flag clr flags) n) (ideal_contexts_of clr w c))) d"
    proof (cases "d = c")
      case True
      have ne: "ctx_field_addr clr c Alloc_Bytes \<noteq> ctx_field_addr clr c Alloc_Bytes_UOH"
        using ok c by (simp add: contexts_ok_def)
      have "c \<in> dom (ideal_contexts_of clr w)" using known_context [OF ok] c by blast
      then obtain b u where bu: "ideal_contexts_of clr w c = Some (b, u)" by auto
      have "ideal_contexts_of clr w' c = Some (charged (old_heap_flag clr flags) n (b, u))"
        using bu x ne unfolding known_counters w'
        by (cases "old_heap_flag clr flags")
          (simp_all add: known_counters w' charged_def old_heap_flag_def alloc_counter_def)
      with True bu show ?thesis by simp
    next
      case False
      have "alloc_counter clr c flags \<notin> ctx_counters clr d" if "d \<noteq> 0" "ctx_ptrs clr d \<in> set (ctxs w)"
        using ok c False that k unfolding contexts_ok_def by blast
      then show ?thesis using False w' by (auto simp: ideal_contexts_of_def ctx_counters_def)
    qed
  qed
qed

section \<open>The collector is an ideal heap\<close>

text \<open>What a call of \<open>Alloc\<close> does to bytes and counters.\<close>

lemma Alloc_bytes:
  fixes w :: "('w::len, 'm) mworld"
  assumes t: "rv_target TYPE('w)" and inv: "world_inv ObjectGap w"
    and c: "c = 0 \<or> ctx_ptrs clr c \<in> set (ctxs w)"
    and run: "Alloc clr c sz flags h (mem w) = Some (p, h', m')"
  shows "ob \<in> set (objs w) \<Longrightarrow> within x (obj_span ObjectGap ob) \<Longrightarrow> bytes m' x = bytes (mem w) x"
    and "p \<noteq> 0 \<Longrightarrow> within x (obj_span ObjectGap (p, unat sz)) \<Longrightarrow> bytes m' x = 0"
proof -
  from run obtain m1 where core:
    "ugc_core_alloc ugc_zalloc (fst (ctx_ptrs clr c)) (snd (ctx_ptrs clr c)) sz
       (flags AND gc_alloc_user_old_heap clr \<noteq> 0) ObjectGap (mem w) = Some (p, m1)"
    and b: "bytes m' = bytes m1"
  proof (cases rule: Alloc_cases)
    case (served m1)
    then have "bytes m' = bytes m1" by (auto simp: add_i64_Some_iff split: if_splits)
    with served that show ?thesis by blast
  qed auto
  have c': "fst (ctx_ptrs clr c) = 0 \<or>
      (fst (ctx_ptrs clr c), snd (ctx_ptrs clr c)) \<in> set (ctxs w)"
    using c by (auto simp: ctx_ptrs_def)
  show "ob \<in> set (objs w) \<Longrightarrow> within x (obj_span ObjectGap ob) \<Longrightarrow> bytes m' x = bytes (mem w) x"
    using ugc_zalloc.call_keeps_objects [OF inv _ core] by (simp add: b within_def)
  show "p \<noteq> 0 \<Longrightarrow> within x (obj_span ObjectGap (p, unat sz)) \<Longrightarrow> bytes m' x = 0"
    using ugc_zalloc.call_result_zero [OF t inv c' core]
    by (auto simp: b within_def zero_span_def obj_span_def)
qed

lemma Alloc_contexts:
  assumes ok: "contexts_ok clr lay w" and c: "c = 0 \<or> ctx_ptrs clr c \<in> set (ctxs w)"
    and run: "Alloc clr c sz flags h (mem w) = Some (p, h', m')"
    and w': "mem w' = m'" "ctxs w' = ctxs w"
  shows "contexts_ok clr lay w'"
    and "ideal_contexts_of clr w' = (if p = 0 then ideal_contexts_of clr w
      else (ideal_contexts_of clr w)(c := map_option
        (charged (old_heap_flag clr flags) (int64_of_size sz)) (ideal_contexts_of clr w c)))"
proof -
  from run have "contexts_ok clr lay w' \<and>
    ideal_contexts_of clr w' = (if p = 0 then ideal_contexts_of clr w
      else (ideal_contexts_of clr w)(c := map_option
        (charged (old_heap_flag clr flags) (int64_of_size sz)) (ideal_contexts_of clr w c)))"
  proof (cases rule: Alloc_cases)
    case failed
    then have "i64s (mem w') = i64s (mem w)" using core_alloc_i64s w' by blast
    with contexts_frame [OF w'(2)] ok failed(2) show ?thesis by simp
  next
    case (served m1)
    note i = core_alloc_i64s [OF served(1)]
    show ?thesis
    proof (cases "c = 0")
      case True
      with served i have "i64s (mem w') = i64s (mem w)" by (simp add: w')
      moreover have "ideal_contexts_of clr w 0 = None" by (simp add: ideal_contexts_of_def)
      ultimately show ?thesis using contexts_frame [OF w'(2)] ok True by (simp add: fun_upd_idem)
    next
      case False
      with served(4) i obtain x where x: "i64s (mem w) (alloc_counter clr c flags) = Some x"
        "i64s (mem w') = (i64s (mem w))(alloc_counter clr c flags \<mapsto> x + int64_of_size sz)"
        by (auto simp: add_i64_Some_iff w')
      have "ctx_ptrs clr c \<in> set (ctxs w)" using c False by simp
      from contexts_charge [OF ok False this x(1) w'(2) x(2)] served(2) show ?thesis by simp
    qed
  qed
  then show "contexts_ok clr lay w'"
    and "ideal_contexts_of clr w' = (if p = 0 then ideal_contexts_of clr w
      else (ideal_contexts_of clr w)(c := map_option
        (charged (old_heap_flag clr flags) (int64_of_size sz)) (ideal_contexts_of clr w c)))"
    by blast+
qed

text \<open>The obligation of the simulation, as a predicate on a call.\<close>

definition simulated ::
  "'w::len word clr_interface \<Rightarrow> 'w word layout \<Rightarrow> 'w word gc_call \<Rightarrow> 'w word system \<Rightarrow> bool" where
  "simulated clr lay c g \<longleftrightarrow>
     (\<exists>r g'. gc_exec clr lay c g = Some (r, g') \<and> ideal_inv clr lay g' \<and>
        gc_ideal clr (ideal_abs clr lay g) c r (ideal_abs clr lay g'))"

lemma simulatedI:
  "\<lbrakk>gc_exec clr lay c g = Some (r, g'); sys_inv clr lay g'; contexts_ok clr lay (sys_world g');
    gc_ideal clr (ideal_abs clr lay g) c r (ideal_abs clr lay g')\<rbrakk> \<Longrightarrow> simulated clr lay c g"
  by (auto simp: simulated_def ideal_inv_def)

text \<open>An allocation of either kind returns an object the ideal heap may return.\<close>

lemma new_object_abs:
  assumes inv: "world_inv ObjectGap w'"
    and w': "w' = (sys_world g)\<lparr>mem := m', objs := (p, n) # objs (sys_world g)\<rparr>"
    and p: "p \<noteq> 0"
    and old: "\<And>x ob. ob \<in> set (objs (sys_world g)) \<Longrightarrow> within x (obj_span ObjectGap ob) \<Longrightarrow>
      bytes m' x = bytes (mem (sys_world g)) x"
    and new: "\<And>x. within x (obj_span ObjectGap (p, n)) \<Longrightarrow> bytes m' x = 0"
  shows "new_object p n (ideal_abs clr lay g) ((ideal_abs clr lay g)
    \<lparr>ideal_objects := objs w', ideal_memory := ideal_memory_of w'\<rparr>)"
proof -
  have ap: "\<forall>ob \<in> set (objs (sys_world g)). apart (obj_span ObjectGap (p, n)) (obj_span ObjectGap ob)"
    using inv world_inv_head [where hdr = ObjectGap and w = "sys_world g" and p = p and n = n] by (simp add: w')
  have o: "objs w' = (p, n) # objs (sys_world g)" and m: "bytes (mem w') = bytes m'"
    by (simp_all add: w')
  note N = ideal_memory_new [OF o, unfolded m, OF old new ap]
  show ?thesis using N p by (simp add: new_object_def ideal_abs_def w')
qed

lemma simulate_alloc:
  fixes clr :: "'w::len word clr_interface"
  assumes inv: "ideal_inv clr lay g" and t: "rv_target TYPE('w)"
    and pre: "gc_pre clr lay (ideal_abs clr lay g) (Gc_Alloc c sz flags)"
  shows "simulated clr lay (Gc_Alloc c sz flags) g"
proof -
  let ?w = "sys_world g"
  have s: "sys_inv clr lay g" and ok: "contexts_ok clr lay ?w" and w: "world_inv ObjectGap ?w"
    using inv by (simp_all add: ideal_inv_def sys_inv_def)
  obtain x where c: "c = 0 \<or> ctx_ptrs clr c \<in> set (ctxs ?w) \<and>
      i64s (mem ?w) (alloc_counter clr c flags) = Some x \<and> c_int64 (x + int64_of_size sz) \<noteq> None"
    using pre
    by (cases "flags AND gc_alloc_user_old_heap clr = 0")
      (auto simp: ideal_abs_def known_counters alloc_counter_def old_heap_flag_def split: option.splits)
  then have args: "alloc_args_ok clr c sz flags (mem ?w)" by (rule world_inv_Alloc_args [OF t w])
  from Alloc_returns [OF this] obtain p h m where
    run: "Alloc clr c sz flags (sys_heap g) (mem ?w) = Some (p, h, m)" by blast
  have c': "c = 0 \<or> ctx_ptrs clr c \<in> set (ctxs ?w)" using c by blast
  let ?w' = "?w\<lparr>mem := m, objs := (if p = 0 then objs ?w else (p, unat sz) # objs ?w)\<rparr>"
  let ?g' = "g\<lparr>sys_heap := h, sys_world := ?w'\<rparr>" and ?a = "ideal_abs clr lay g"
  have s': "sys_inv clr lay ?g'"
    by (rule sys_step_inv [OF t sys_step.alloc [OF c' run] s])
  have w': "world_inv ObjectGap ?w'" using s' by (simp add: sys_inv_def)
  note C = Alloc_contexts [OF ok c' run, of ?w']
  note H = handle_abs_more [OF Alloc_more [OF run]]
  note T = Alloc_allocatedBytes [OF run]
  have ideal: "gc_ideal clr ?a (Gc_Alloc c sz flags) (Pointer p) (ideal_abs clr lay ?g')"
  proof (cases "p = 0")
    case True
    have "ideal_memory_of ?w' = ideal_memory_of ?w"
      using Alloc_bytes(1) [OF t w c' run] True by (intro ideal_memory_same) simp_all
    with True C(2) H T have "ideal_abs clr lay ?g' = ?a" by (simp add: ideal_abs_def)
    with True show ?thesis by simp
  next
    case False
    have "new_object p (unat sz) ?a (?a\<lparr>ideal_objects := objs ?w', ideal_memory := ideal_memory_of ?w'\<rparr>)"
      using Alloc_bytes [OF t w c' run] False
      by (intro new_object_abs [OF w', where m' = m]) simp_all
    moreover have "ideal_abs clr lay ?g' = charge c (old_heap_flag clr flags) sz
        (?a\<lparr>ideal_objects := objs ?w', ideal_memory := ideal_memory_of ?w'\<rparr>)"
      using False C(2) H T by (simp add: ideal_abs_def charge_def)
    ultimately show ?thesis by auto
  qed
  have exec: "gc_exec clr lay (Gc_Alloc c sz flags) g = Some (Pointer p, ?g')"
    unfolding gc_exec.simps run by simp
  have "sys_world ?g' = ?w'" by simp
  then show ?thesis using C(1) by (intro simulatedI [OF exec s' _ ideal]) (simp only:, simp)
qed

text \<open>A context the runtime may attach: its fields are variables no other context has, outside the
  arrays of the handle store.\<close>

definition new_context ::
  "'w::len word clr_interface \<Rightarrow> 'w word layout \<Rightarrow> 'w word \<Rightarrow> ('w, 'm) mworld \<Rightarrow> bool" where
  "new_context clr lay c w \<longleftrightarrow>
     c \<noteq> 0 \<and> ctx_field_addr clr c Alloc_Ptr \<noteq> 0 \<and>
     ctx_field_addr clr c Alloc_Ptr \<noteq> ctx_field_addr clr c Alloc_Limit \<and>
     ctx_field_addr clr c Alloc_Bytes \<noteq> ctx_field_addr clr c Alloc_Bytes_UOH \<and>
     (\<forall>x \<in> ctx_cells clr c. slot_of (addr_handles lay) x = None \<and> slot_of (addr_dependent lay) x = None) \<and>
     (\<forall>d. d \<noteq> 0 \<and> ctx_ptrs clr d \<in> set (ctxs w) \<longrightarrow>
        ctx_cells clr c \<inter> ctx_cells clr d = {} \<and> ctx_counters clr c \<inter> ctx_counters clr d = {})"

lemma attach_pre_new:
  assumes "contexts_ok clr lay (sys_world g)" and "gc_pre clr lay (ideal_abs clr lay g) (Gc_Attach c)"
  shows "new_context clr lay c (sys_world g)"
  using assms(2) known_context [OF assms(1)] by (simp add: new_context_def ideal_abs_def)

lemma attach_fields:
  "objs (attach_context clr c w) = objs w"
  "bytes (mem (attach_context clr c w)) = bytes (mem w)"
  "cmem.more (mem (attach_context clr c w)) = cmem.more (mem w)"
  "ctxs (attach_context clr c w) = ctx_ptrs clr c # ctxs w"
  "i64s (mem (attach_context clr c w)) = (i64s (mem w))(ctx_field_addr clr c Alloc_Bytes \<mapsto> 0,
     ctx_field_addr clr c Alloc_Bytes_UOH \<mapsto> 0)"
  by (simp_all add: attach_context_def)

lemma attach_known:
  assumes "new_context clr lay c w"
  shows "d \<noteq> 0 \<and> ctx_ptrs clr d \<in> set (ctxs (attach_context clr c w)) \<longleftrightarrow>
    d = c \<or> d \<noteq> 0 \<and> ctx_ptrs clr d \<in> set (ctxs w)"
  using assms ctx_ptrs_inj [of d c clr] by (auto simp: attach_fields(4) new_context_def)

lemma attach_world_inv:
  assumes n: "new_context clr lay c w" and ok: "contexts_ok clr lay w" and w: "world_inv ObjectGap w"
  shows "world_inv ObjectGap (attach_context clr c w)"
proof -
  let ?pp = "ctx_field_addr clr c Alloc_Ptr" and ?lp = "ctx_field_addr clr c Alloc_Limit"
  have c: "c \<noteq> 0" "?pp \<noteq> 0" "?pp \<noteq> ?lp" using n by (simp_all add: new_context_def)
  have ptrs: "ctx_ptrs clr c = (?pp, ?lp)" using c by (simp add: ctx_ptrs_def)
  have fresh: "\<forall>p \<in> set (ctxs w). {?pp, ?lp} \<inter> {fst p, snd p} = {}"
  proof
    fix p assume p: "p \<in> set (ctxs w)"
    then obtain d where d: "d \<noteq> 0" "p = ctx_ptrs clr d" using ok by (auto simp: contexts_ok_def)
    with p n have "ctx_cells clr c \<inter> ctx_cells clr d = {}" by (simp add: new_context_def)
    with d show "{?pp, ?lp} \<inter> {fst p, snd p} = {}" by (simp add: ctx_cells_def ctx_ptrs_def)
  qed
  from env_step_inv [OF env_step.attach [OF c(2,3) fresh] w] show ?thesis
    unfolding attach_context_def ptrs fst_conv snd_conv
    by (simp add: world_inv_def ctxs_ok_def window_def window_ok_def object_ok_def in_block_def
        zero_span_def mem_ok_def)
qed

lemma attach_contexts_ok:
  assumes n: "new_context clr lay c w" and ok: "contexts_ok clr lay w"
  shows "contexts_ok clr lay (attach_context clr c w)"
  unfolding contexts_ok_def
proof (intro conjI allI impI)
  let ?w' = "attach_context clr c w"
  note known = attach_known [OF n]
  have c: "c \<noteq> 0" using n by (simp add: new_context_def)
  show "contexts_outside lay ?w'"
    using ok n c by (simp add: contexts_ok_def contexts_outside_def attach_fields(4) new_context_def
        ctx_cells_def ctx_ptrs_def)
  show "\<forall>p \<in> set (ctxs ?w'). \<exists>d. d \<noteq> 0 \<and> p = ctx_ptrs clr d"
    using ok c by (auto simp: contexts_ok_def attach_fields(4))
  fix d assume d: "d \<noteq> 0 \<and> ctx_ptrs clr d \<in> set (ctxs ?w')"
  show "ctx_field_addr clr d Alloc_Bytes \<noteq> ctx_field_addr clr d Alloc_Bytes_UOH"
    using d ok n unfolding known contexts_ok_def new_context_def by auto
  show "ctx_counters clr d \<subseteq> dom (i64s (mem ?w'))"
    using d ok unfolding known contexts_ok_def attach_fields(5) by (fastforce simp: ctx_counters_def)
  fix e assume e: "e \<noteq> 0 \<and> ctx_ptrs clr e \<in> set (ctxs ?w') \<and> e \<noteq> d"
  then have "e = c \<or> e \<noteq> 0 \<and> ctx_ptrs clr e \<in> set (ctxs w)" using known by blast
  with d e n ok show "ctx_counters clr d \<inter> ctx_counters clr e = {}"
    unfolding known contexts_ok_def new_context_def by blast
qed

lemma attach_contexts_of:
  assumes n: "new_context clr lay c w"
  shows "ideal_contexts_of clr (attach_context clr c w) = (ideal_contexts_of clr w)(c \<mapsto> (0, 0))"
proof (rule ext)
  fix d
  let ?w' = "attach_context clr c w"
  show "ideal_contexts_of clr ?w' d = ((ideal_contexts_of clr w)(c \<mapsto> (0, 0))) d"
  proof (cases "d = c")
    case True
    have "ideal_contexts_of clr ?w' c = Some (0, 0)"
      using n unfolding known_counters by (simp add: attach_fields(4,5) new_context_def)
    with True show ?thesis by simp
  next
    case False
    have "i64s (mem ?w') x = i64s (mem w) x"
      if "x \<in> ctx_counters clr d" "d \<noteq> 0" "ctx_ptrs clr d \<in> set (ctxs w)" for x
    proof -
      have "ctx_counters clr c \<inter> ctx_counters clr d = {}" using n that(2,3) by (simp add: new_context_def)
      with that(1) show ?thesis by (auto simp: attach_fields(5) ctx_counters_def)
    qed
    then show ?thesis using False attach_known [OF n, of d]
      by (auto simp: ideal_contexts_of_def ctx_counters_def)
  qed
qed

lemma simulate_attach:
  fixes clr :: "'w::len word clr_interface"
  assumes inv: "ideal_inv clr lay g" and pre: "gc_pre clr lay (ideal_abs clr lay g) (Gc_Attach c)"
  shows "simulated clr lay (Gc_Attach c) g"
proof -
  let ?w = "sys_world g" and ?w' = "attach_context clr c (sys_world g)"
  let ?g' = "g\<lparr>sys_world := ?w'\<rparr>"
  have ok: "contexts_ok clr lay ?w" and w: "world_inv ObjectGap ?w"
    and h: "handle_api_inv clr lay (sys_mgr g, mem ?w)"
    and v: "values_given ?w (handle_lookup lay (mem ?w))"
    using inv by (simp_all add: ideal_inv_def sys_inv_def)
  note n = attach_pre_new [OF ok pre]
  have s': "sys_inv clr lay ?g'"
    using handle_part_mono [OF h v attach_fields(3) [of clr c ?w], of ?w'] attach_world_inv [OF n ok w]
      attach_fields(1) [of clr c ?w]
    by (simp add: sys_inv_def)
  have "ideal_abs clr lay ?g' = (ideal_abs clr lay g)\<lparr>ideal_contexts :=
      (ideal_contexts (ideal_abs clr lay g))(c \<mapsto> (0, 0))\<rparr>"
    using ideal_memory_frame [OF attach_fields(1,2) [of clr c ?w]]
      handle_abs_more [OF attach_fields(3) [of clr c ?w], of lay "sys_mgr g"] attach_contexts_of [OF n] attach_fields(1) [of clr c ?w]
    by (simp add: ideal_abs_def)
  then show ?thesis using s' attach_contexts_ok [OF n ok] by (intro simulatedI) simp_all
qed

text \<open>A step of the runtime that brings no context.\<close>

lemma runtime_step:
  fixes clr :: "'w::len word clr_interface"
  assumes inv: "ideal_inv clr lay g" and t: "rv_target TYPE('w)"
    and env: "env_step ObjectGap (sys_world g) w'"
    and f: "ctxs w' = ctxs (sys_world g)" "i64s (mem w') = i64s (mem (sys_world g))"
  shows "sys_inv clr lay (g\<lparr>sys_world := w'\<rparr>)" and "contexts_ok clr lay w'"
    and "ideal_contexts_of clr w' = ideal_contexts_of clr (sys_world g)"
    and "handle_abs lay (sys_mgr g, mem w') = handle_abs lay (sys_mgr g, mem (sys_world g))"
proof -
  have s: "sys_inv clr lay g" and ok: "contexts_ok clr lay (sys_world g)"
    using inv by (simp_all add: ideal_inv_def)
  show ok': "contexts_ok clr lay w'"
    and "ideal_contexts_of clr w' = ideal_contexts_of clr (sys_world g)"
    using contexts_frame [OF f] ok by simp_all
  then have "contexts_outside lay w'" by (simp add: contexts_ok_def)
  from sys_step_inv [OF t sys_step.runtime [OF env this] s]
  show "sys_inv clr lay (g\<lparr>sys_world := w'\<rparr>)" .
  show "handle_abs lay (sys_mgr g, mem w') = handle_abs lay (sys_mgr g, mem (sys_world g))"
    by (rule handle_abs_more [OF env_step_more [OF env]])
qed

lemma simulate_unchanged:
  assumes "ideal_inv clr lay g" and "gc_exec clr lay c g = Some (r, g)"
    and "gc_ideal clr (ideal_abs clr lay g) c r (ideal_abs clr lay g)"
  shows "simulated clr lay c g"
  using assms by (auto simp: simulated_def)

lemma simulate_inline:
  fixes clr :: "'w::len word clr_interface"
  assumes inv: "ideal_inv clr lay g" and t: "rv_target TYPE('w)"
    and pre: "gc_pre clr lay (ideal_abs clr lay g) (Gc_Inline c sz)"
  shows "simulated clr lay (Gc_Inline c sz) g"
proof (cases "\<exists>p l. window (mem (sys_world g)) (ctx_ptrs clr c) = Some (p, l) \<and>
    unat p + unat sz \<le> unat l")
  case True
  let ?w = "sys_world g" and ?a = "ideal_abs clr lay g"
  from True obtain p l where win: "window (mem ?w) (ctx_ptrs clr c) = Some (p, l)"
    "unat p + unat sz \<le> unat l" by blast
  let ?m = "(mem ?w)\<lparr>cells := (cells (mem ?w))(fst (ctx_ptrs clr c) \<mapsto> p + sz)\<rparr>"
  let ?w' = "?w\<lparr>mem := ?m, objs := (p, unat sz) # objs ?w\<rparr>"
  have ok: "contexts_ok clr lay ?w" and w: "world_inv ObjectGap ?w"
    using inv by (simp_all add: ideal_inv_def sys_inv_def)
  have c: "c \<noteq> 0" "ctx_ptrs clr c \<in> set (ctxs ?w)"
    using pre known_context [OF ok, of c] by (auto simp: ideal_abs_def)
  have env: "env_step ObjectGap ?w ?w'"
    using env_step.inline [of "fst (ctx_ptrs clr c)" "snd (ctx_ptrs clr c)" ?w p l sz ObjectGap] c win
    by simp
  have "ctxs ?w' = ctxs ?w" "i64s (mem ?w') = i64s (mem ?w)" by simp_all
  note R = runtime_step [OF inv t env this]
  have w': "world_inv ObjectGap ?w'" using R(1) by (simp add: sys_inv_def)
  have p: "p \<noteq> 0" using win(1) by (cases "ctx_ptrs clr c") (simp add: window_Some_iff)
  have z: "bytes (mem ?w) x = 0" if "within x (obj_span ObjectGap (p, unat sz))" for x
  proof -
    have "zero_span (mem ?w) (win_span ObjectGap (p, l))"
      using world_inv_window(1) [OF w c(2) win(1)] by (simp add: window_ok_def)
    with that win(2) show ?thesis
      by (auto simp: zero_span_def win_span_def obj_span_def within_def)
  qed
  have "new_object p (unat sz) ?a (?a\<lparr>ideal_objects := objs ?w', ideal_memory := ideal_memory_of ?w'\<rparr>)"
    using z p by (intro new_object_abs [OF w', where m' = ?m]) simp_all
  moreover have "ideal_abs clr lay (g\<lparr>sys_world := ?w'\<rparr>) =
      ?a\<lparr>ideal_objects := objs ?w', ideal_memory := ideal_memory_of ?w'\<rparr>"
    using R(3,4) by (simp add: ideal_abs_def)
  moreover have "gc_exec clr lay (Gc_Inline c sz) g = Some (Pointer p, g\<lparr>sys_world := ?w'\<rparr>)"
    using win by (simp add: inline_alloc_def)
  ultimately show ?thesis using R(1,2) by (intro simulatedI) auto
next
  case False
  then have "inline_alloc clr c sz (sys_world g) = (0, sys_world g)"
    by (auto simp: inline_alloc_def split: option.splits)
  then show ?thesis by (intro simulate_unchanged [OF inv, where r = "Pointer 0"]) simp_all
qed

lemma simulate_write:
  fixes clr :: "'w::len word clr_interface"
  assumes inv: "ideal_inv clr lay g" and t: "rv_target TYPE('w)"
    and pre: "gc_pre clr lay (ideal_abs clr lay g) (Gc_Write x v)"
  shows "simulated clr lay (Gc_Write x v) g"
proof -
  let ?w = "sys_world g" and ?w' = "(sys_world g)\<lparr>mem := (mem (sys_world g))
    \<lparr>bytes := (bytes (mem (sys_world g)))(x := v)\<rparr>\<rparr>"
  have w: "world_inv ObjectGap ?w" using inv by (simp add: ideal_inv_def sys_inv_def)
  have x: "x \<in> dom (ideal_memory_of ?w)" using pre by (simp add: ideal_abs_def)
  note V = ideal_memory_valid [OF w x]
  from V(2) obtain ob where ob: "ob \<in> set (objs ?w)" "within x (obj_span ObjectGap ob)" by blast
  have env: "env_step ObjectGap ?w ?w'"
    by (rule env_step.mutate [OF ob(1) ob(2) [unfolded within_def, THEN conjunct1]
        ob(2) [unfolded within_def, THEN conjunct2]])
  have "ctxs ?w' = ctxs ?w" "i64s (mem ?w') = i64s (mem ?w)" by simp_all
  note R = runtime_step [OF inv t env this]
  have "ideal_memory_of ?w' = (ideal_memory_of ?w)(x \<mapsto> v)"
    using ob by (auto simp: ideal_memory_of_def fun_eq_iff)
  then have "ideal_abs clr lay (g\<lparr>sys_world := ?w'\<rparr>) = (ideal_abs clr lay g)
      \<lparr>ideal_memory := (ideal_memory (ideal_abs clr lay g))(x \<mapsto> v)\<rparr>"
    using R(3,4) by (simp add: ideal_abs_def)
  moreover have "gc_exec clr lay (Gc_Write x v) g = Some (Done, g\<lparr>sys_world := ?w'\<rparr>)"
    using V(1) by (simp add: write_byte_def)
  ultimately show ?thesis using R(1,2) by (intro simulatedI) simp_all
qed

lemma simulate_handle:
  fixes clr :: "'w::len word clr_interface"
  assumes inv: "ideal_inv clr lay g" and t: "rv_target TYPE('w)"
    and pre: "gc_pre clr lay (ideal_abs clr lay g) (Gc_Handle c)"
  shows "simulated clr lay (Gc_Handle c) g"
proof -
  let ?w = "sys_world g" and ?st = "(sys_mgr g, mem (sys_world g))"
  have s: "sys_inv clr lay g" and ok: "contexts_ok clr lay ?w"
    and h: "handle_api_inv clr lay ?st" using inv by (simp_all add: ideal_inv_def sys_inv_def)
  have hp: "handle_pre (handle_abs lay ?st) c"
    and given: "\<forall>p \<in> set (call_objects c). given ?w p"
    using pre by (simp_all add: ideal_abs_def given_def)
  from handle_api_simulates [OF h hp] obtain r hm m where
    run: "handle_api clr lay c ?st = Some (r, hm, m)"
    and spec: "handle_api_spec clr (handle_abs lay ?st) c r (handle_abs lay (hm, m))" by auto
  let ?g' = "g\<lparr>sys_mgr := hm, sys_world := ?w\<lparr>mem := m\<rparr>\<rparr>"
  have s': "sys_inv clr lay ?g'" by (rule sys_step_inv [OF t sys_step.handle [OF hp given run] s])
  have "cmem.truncate m = cmem.truncate (mem ?w)"
    using handle_api_truncate [OF h hp run] by simp
  note f = truncate_fields [OF this]
  have cx: "contexts_ok clr lay (?w\<lparr>mem := m\<rparr>)"
    "ideal_contexts_of clr (?w\<lparr>mem := m\<rparr>) = ideal_contexts_of clr ?w"
    using contexts_frame [of "?w\<lparr>mem := m\<rparr>" ?w] ok f(4) by simp_all
  have "ideal_memory_of (?w\<lparr>mem := m\<rparr>) = ideal_memory_of ?w"
    using f(2) by (intro ideal_memory_frame) simp_all
  with cx(2) have "ideal_abs clr lay ?g' = (ideal_abs clr lay g)
      \<lparr>ideal_handles := handle_abs lay (hm, m)\<rparr>" by (simp add: ideal_abs_def)
  then show ?thesis using s' cx(1) run spec
    by (intro simulatedI [where r = "Handle_Value r"]) (auto simp: ideal_abs_def)
qed

lemma simulate_register:
  fixes clr :: "'w::len word clr_interface"
  assumes inv: "ideal_inv clr lay g" and t: "rv_target TYPE('w)"
    and pre: "gc_pre clr lay (ideal_abs clr lay g) (Gc_Register info)"
  shows "simulated clr lay (Gc_Register info) g"
proof -
  let ?n = "registeredSegments (sys_heap g) + 1"
  let ?h = "(sys_heap g)\<lparr>registeredSegments := ?n\<rparr>"
  have run: "RegisterFrozenSegment info (sys_heap g) = Some (word_of_int ?n, ?h)"
    using pre by (auto simp: RegisterFrozenSegment_def ideal_abs_def c_simps)
  then have "heap_method clr (sys_heap g) ?h" by (auto simp: heap_method_def)
  from sys_step_inv [OF t sys_step.heap [OF this]] inv have "sys_inv clr lay (g\<lparr>sys_heap := ?h\<rparr>)"
    by (simp add: ideal_inv_def)
  with run inv show ?thesis
    by (intro simulatedI [where r = "Pointer (word_of_int ?n)"]) (auto simp: ideal_inv_def ideal_abs_def)
qed

lemma gc_simulates:
  fixes clr :: "'w::len word clr_interface"
  assumes inv: "ideal_inv clr lay g" and t: "rv_target TYPE('w)"
    and pre: "gc_pre clr lay (ideal_abs clr lay g) c"
  shows "\<exists>r g'. gc_exec clr lay c g = Some (r, g') \<and> ideal_inv clr lay g' \<and>
    gc_ideal clr (ideal_abs clr lay g) c r (ideal_abs clr lay g')"
proof -
  have w: "world_inv ObjectGap (sys_world g)" and ok: "contexts_ok clr lay (sys_world g)"
    using inv by (simp_all add: ideal_inv_def sys_inv_def)
  have "simulated clr lay c g"
  proof (cases c)
    case (Gc_Read x)
    with pre ideal_memory_valid [OF w, of x] show ?thesis
      by (intro simulate_unchanged [OF inv, where r = "Byte (bytes (mem (sys_world g)) x)"])
        (simp_all add: ideal_abs_def read_byte_def)
  next
    case (Gc_Counters x)
    with pre obtain b u where "ideal_contexts_of clr (sys_world g) x = Some (b, u)"
      by (auto simp: ideal_abs_def)
    with Gc_Counters show ?thesis
      by (intro simulate_unchanged [OF inv, where r = "Counters b u"])
        (auto simp: ideal_abs_def known_counters)
  next
    case (Gc_Method q)
    then show ?thesis
      by (intro simulate_unchanged [OF inv,
          where r = "Method_Value (heap_answer clr (allocatedBytes (sys_heap g)) q)"])
        (simp_all add: ideal_abs_def heap_call_answer)
  next
    case (Gc_Memory_Info out kind s)
    with pre GetMemoryInfo_reports [of out s kind "sys_heap g"] obtain s' where
      "GetMemoryInfo out kind (sys_heap g) s = Some s'"
      "info_holds out (memory_report (allocatedBytes (sys_heap g))) s'" by auto
    with Gc_Memory_Info show ?thesis
      by (intro simulate_unchanged [OF inv, where r = "Info_Vars s'"]) (auto simp: ideal_abs_def)
  qed (use pre simulate_attach [OF inv] simulate_alloc [OF inv t] simulate_inline [OF inv t]
      simulate_write [OF inv t] simulate_handle [OF inv t] simulate_register [OF inv t] in blast)+
  then show ?thesis by (simp add: simulated_def)
qed

text \<open>The start: no object, no byte, no context, no handle.\<close>

definition ideal_start :: "'w::len word ideal" where
  "ideal_start =
     \<lparr>ideal_objects = [], ideal_memory = Map.empty, ideal_contexts = Map.empty,
      ideal_handles = \<lparr>spec_store = 0, held_values = Map.empty\<rparr>, ideal_total = 0, ideal_segments = 0\<rparr>"

lemma sys_start_ideal:
  fixes clr :: "'w::len word clr_interface"
  assumes lay: "layout_ok lay" and dep: "live_type (hndtype_dependent clr)" and st: "sys_start clr lay g"
  shows "ideal_inv clr lay g" and "ideal_abs clr lay g = ideal_start"
proof -
  have e: "ctxs (sys_world g) = []" "objs (sys_world g) = []" using st by (auto simp: sys_start_def)
  then have "contexts_ok clr lay (sys_world g)" by (simp add: contexts_ok_def contexts_outside_def)
  with sys_start_inv [OF lay dep st] show "ideal_inv clr lay g" by (simp add: ideal_inv_def)
  from st obtain m c hr where m: "mem (sys_world g) = globals_init m"
    and c: "GC_Initialize clr c = (hr, sys_heap g, sys_mgr g)"
    by (auto simp: sys_start_def)
  from c have i: "sys_heap g = new_uGCHeap c" "sys_mgr g = new_uGCHandleManager"
    by (simp_all add: GC_Initialize_def Let_def)
  have "live_slots (globals_init m) = {}" by (simp add: live_slots_def globals_init_def cmem.defs)
  then have "handle_lookup lay (globals_init m) = Map.empty"
    by (simp add: handle_lookup_def fun_eq_iff split: option.split)
  with e m i show "ideal_abs clr lay g = ideal_start"
    by (simp add: ideal_abs_def ideal_start_def handle_abs_def new_uGCHeap_def
        new_uGCHandleManager_def ideal_memory_of_def ideal_contexts_of_def)
qed

interpretation gc_client: forward_simulation
  "gc_exec clr lay" "gc_pre clr lay" "gc_ideal clr" "ideal_abs clr lay"
  "\<lambda>g. rv_target TYPE('w) \<and> ideal_inv clr lay g"
  for clr :: "'w::len word clr_interface" and lay :: "'w word layout"
  by unfold_locales (use gc_simulates in blast)

end
