(* ===== verification/Ideal_Client.thy ===== *)
theory Ideal_Client
  imports Ideal_Heap
begin

text \<open>
  What a client of the whole collector sees of the ideal heap without looking at it: in the
  history of its calls and their answers, every byte read is the one last written at that
  address, and zero before that; the total is the sum of what was served.
\<close>

section \<open>Reads and writes\<close>

text \<open>The byte a history leaves at an address: the one last written, zero if there is none.\<close>

definition byte_after :: "'p \<Rightarrow> 'p gc_call \<times> 'r \<Rightarrow> 8 word \<Rightarrow> 8 word" where
  "byte_after x e b = (case fst e of Gc_Write y v \<Rightarrow> if y = x then v else b | _ \<Rightarrow> b)"

definition last_written :: "'p \<Rightarrow> ('p gc_call \<times> 'r) list \<Rightarrow> 8 word" where
  "last_written x tr = fold (byte_after x) tr 0"

lemma last_written_simps [simp]:
  "last_written x [] = 0"
  "last_written x (tr @ [e]) = byte_after x e (last_written x tr)"
  by (simp_all add: last_written_def)

text \<open>The memory of the ideal heap is what the history leaves there.\<close>

definition memory_is :: "('p gc_call \<times> 'r) list \<Rightarrow> 'p ideal \<Rightarrow> bool" where
  "memory_is tr a \<longleftrightarrow> (\<forall>x. ideal_memory a x = Some (last_written x tr) \<or>
     ideal_memory a x = None \<and> last_written x tr = 0)"

lemma memory_is_cong:
  assumes "memory_is tr a" and "ideal_memory a' = ideal_memory a" and "\<And>x b. byte_after x e b = b"
  shows "memory_is (tr @ [e]) a'"
  using assms by (simp add: memory_is_def)

lemma memory_is_new:
  assumes m: "memory_is tr a" and n: "new_object p n a a'" and e: "\<And>x b. byte_after x e b = b"
  shows "memory_is (tr @ [e]) a'"
proof -
  have "ideal_memory a' x = Some (last_written x tr) \<or>
      ideal_memory a' x = None \<and> last_written x tr = 0" for x
  proof (cases "within x (obj_span ObjectGap (p, n))")
    case True
    then have z: "zeros p n x = Some 0" by (simp add: zeros_def)
    then have "ideal_memory a x = None" using n by (auto simp: new_object_def)
    with m z n show ?thesis by (auto simp: memory_is_def new_object_def)
  next
    case False
    then have "zeros p n x = None" by (simp add: zeros_def)
    with m n show ?thesis by (simp add: memory_is_def new_object_def map_add_def)
  qed
  then show ?thesis using e by (simp add: memory_is_def)
qed

lemma memory_is_step:
  assumes m: "memory_is tr a" and pre: "gc_pre clr lay a c" and spec: "gc_ideal clr a c r a'"
  shows "memory_is (tr @ [(c, r)]) a'"
proof (cases c)
  case (Gc_Alloc x1 x2 x3)
  then have e: "byte_after x (c, r) b = b" for x b by (simp add: byte_after_def)
  from spec Gc_Alloc consider "a' = a" |
    p a1 where "new_object p (unat x2) a a1" "a' = charge x1 (old_heap_flag clr x3) x2 a1" by auto
  then show ?thesis
  proof cases
    case 1
    then show ?thesis by (intro memory_is_cong [OF m] e) simp
  next
    case 2
    from memory_is_new [OF m 2(1), of "(c, r)"] e have "memory_is (tr @ [(c, r)]) a1" by simp
    with 2(2) show ?thesis by (simp add: memory_is_def charge_def)
  qed
next
  case (Gc_Inline x1 x2)
  then have e: "byte_after x (c, r) b = b" for x b by (simp add: byte_after_def)
  with spec Gc_Inline show ?thesis
    using memory_is_cong [OF m, of a "(c, r)"] memory_is_new [OF m, where e = "(c, r)"] by auto
next
  case (Gc_Write x v)
  with spec pre m show ?thesis by (auto simp: memory_is_def byte_after_def)
qed (use spec in \<open>auto intro!: memory_is_cong [OF m] simp: byte_after_def\<close>)

lemma history_reads:
  assumes "spec_history (gc_pre clr lay) (gc_ideal clr) client ideal_start tr a"
  shows "memory_is tr a \<and> (\<forall>i < length tr. \<forall>x r. tr ! i = (Gc_Read x, r) \<longrightarrow>
    r = Byte (last_written x (take i tr)))"
  using assms
proof induction
  case empty
  show ?case by (simp add: memory_is_def ideal_start_def)
next
  case (extend tr a r a')
  have "r = Byte (last_written x tr)" if c: "client tr = Gc_Read x" for x
  proof -
    have "ideal_memory a x = Some (last_written x tr) \<or> ideal_memory a x = None"
      using extend.IH by (auto simp: memory_is_def)
    with extend.hyps(3) c show ?thesis by auto
  qed
  with extend.IH memory_is_step [OF _ extend.hyps(2,3)] show ?case
    by (auto simp: nth_append less_Suc_eq)
qed

section \<open>Totals\<close>

text \<open>What a history says was served through \<open>Alloc\<close>: the sizes of the requests that were not
  answered with null.\<close>

definition served_by :: "'w::len word gc_call \<times> 'w word gc_answer \<Rightarrow> nat" where
  "served_by e = (case e of (Gc_Alloc c sz flags, Pointer p) \<Rightarrow> if p = 0 then 0 else unat sz | _ \<Rightarrow> 0)"

definition served :: "('w::len word gc_call \<times> 'w word gc_answer) list \<Rightarrow> nat" where
  "served tr = sum_list (map served_by tr)"

lemma served_simps [simp]: "served [] = 0" "served (tr @ [e]) = served tr + served_by e"
  by (simp_all add: served_def)

lemma total_step:
  fixes clr :: "'w::len word clr_interface"
  assumes "gc_ideal clr a c r a'"
  shows "ideal_total a' = ideal_total a + of_nat (served_by (c, r))"
proof -
  have "ucast sz = (of_nat (unat sz) :: 64 word)" for sz :: "'w word"
    by simp
  then show ?thesis
    using assms by (cases c) (auto simp: served_by_def new_object_def charge_def)
qed

lemma history_totals:
  assumes "spec_history (gc_pre clr lay) (gc_ideal clr) client ideal_start tr a"
  shows "ideal_total a = of_nat (served tr) \<and> (\<forall>i < length tr. \<forall>r. tr ! i = (Gc_Method (Bcl M_GetTotalAllocatedBytes), r) \<longrightarrow>
    r = Method_Value (VU64 (of_nat (served (take i tr)))))"
  using assms
proof induction
  case empty
  show ?case by (simp add: ideal_start_def)
next
  case (extend tr a r a')
  have "r = Method_Value (VU64 (of_nat (served tr)))"
    if "client tr = Gc_Method (Bcl M_GetTotalAllocatedBytes)"
    using extend.IH extend.hyps(3) that by (simp add: bcl_answer_def)
  with extend.IH total_step [OF extend.hyps(3)] show ?case
    by (auto simp: nth_append less_Suc_eq)
qed

section \<open>Against the collector\<close>

text \<open>A client that obeys runs for any number of calls, and its history is one of the ideal heap.\<close>

lemma collector_history:
  fixes clr :: "'w::len word clr_interface"
  assumes "layout_ok lay" and "live_type (hndtype_dependent clr)" and "sys_start clr lay g"
    and "client_obeys (gc_pre clr lay) (gc_ideal clr) ideal_start client"
  shows "\<exists>tr g'. play (gc_exec clr lay) client g n = Some (tr, g') \<and> length tr = n \<and>
    ideal_inv clr lay g' \<and>
    spec_history (gc_pre clr lay) (gc_ideal clr) client ideal_start tr (ideal_abs clr lay g')"
proof -
  note S = sys_start_ideal [OF assms(1-3)]
  have i: "rv_target TYPE('w) \<and> ideal_inv clr lay g" using layout_target [OF assms(1)] S(1) by simp
  have "client_obeys (gc_pre clr lay) (gc_ideal clr) (ideal_abs clr lay g) client"
    using assms(4) S(2) by simp
  from gc_client.play_refines [OF i this, of n] show ?thesis unfolding S(2) by blast
qed

lemma collector_history_of:
  fixes clr :: "'w::len word clr_interface"
  assumes "layout_ok lay" and "live_type (hndtype_dependent clr)" and "sys_start clr lay g"
    and "client_obeys (gc_pre clr lay) (gc_ideal clr) ideal_start client"
    and "play (gc_exec clr lay) client g n = Some (tr, g')"
  shows "length tr = n" and "ideal_inv clr lay g'"
    and "spec_history (gc_pre clr lay) (gc_ideal clr) client ideal_start tr (ideal_abs clr lay g')"
  using collector_history [OF assms(1-4), of n] assms(5) by auto

end
