(* ===== verification/Handle_History.thy ===== *)
theory Handle_History
  imports Ideal_Client
begin

text \<open>
  What the handles of a program hold, told from the history of the calls alone: the calls and
  their answers are replayed on a map from handles to values, and whatever history a client of
  the collector makes, that map is what the collector's store holds.
\<close>

section \<open>Replaying a history\<close>

text \<open>A create that did not fail gives its handle the value asked for; a write changes one
  field of the handle it names.\<close>

definition made :: "'p::zero aslot \<Rightarrow> 'p handle_value \<Rightarrow> ('p \<rightharpoonup> 'p aslot) \<Rightarrow> 'p \<rightharpoonup> 'p aslot" where
  "made v r M = (case r of HHandle h \<Rightarrow> if h = 0 then M else M(h \<mapsto> v) | _ \<Rightarrow> M)"

definition changed :: "'p \<Rightarrow> ('p aslot \<Rightarrow> 'p aslot) \<Rightarrow> ('p \<rightharpoonup> 'p aslot) \<Rightarrow> 'p \<rightharpoonup> 'p aslot" where
  "changed h f M = M(h := map_option f (M h))"

primrec store_replay ::
  "'p::zero clr_interface \<Rightarrow> 'p store_method \<Rightarrow> 'p handle_value \<Rightarrow> ('p \<rightharpoonup> 'p aslot) \<Rightarrow>
   'p \<rightharpoonup> 'p aslot" where
  "store_replay clr S_Uproot r M = M"
| "store_replay clr (S_ContainsHandle h) r M = M"
| "store_replay clr (S_CreateHandleOfType object type) r M = made (plain_value object type) r M"
| "store_replay clr (S_CreateHandleOfType_heap object type affinity) r M =
     made (plain_value object type) r M"
| "store_replay clr (S_CreateHandleWithExtraInfo object type extra) r M =
     made ((plain_value object type)\<lparr>a_extra := extra\<rparr>) r M"
| "store_replay clr (S_CreateDependentHandle primary secondary) r M =
     made ((plain_value primary (hndtype_dependent clr))\<lparr>a_secondary := secondary\<rparr>) r M"
| "store_replay clr (S_uDestroyHandle h) r M = M(h := None)"
| "store_replay clr (S_uGetDependentHandle h) r M = M"
| "store_replay clr (S_uSetDependentHandle h secondary) r M =
     changed h (a_secondary_update (\<lambda>_. secondary)) M"
| "store_replay clr (S_uGetHandleType h) r M = M"
| "store_replay clr (S_uSetHandleType h type) r M = changed h (a_type_update (\<lambda>_. type)) M"
| "store_replay clr (S_uGetHandleExtraInfo h) r M = M"
| "store_replay clr (S_uSetHandleExtraInfo h extra) r M = changed h (a_extra_update (\<lambda>_. extra)) M"

primrec manager_replay ::
  "'p::zero manager_method \<Rightarrow> 'p handle_value \<Rightarrow> ('p \<rightharpoonup> 'p aslot) \<Rightarrow> 'p \<rightharpoonup> 'p aslot" where
  "manager_replay (HM_Initialize new_store) r M = M"
| "manager_replay HM_Shutdown r M = M"
| "manager_replay HM_GetGlobalHandleStore r M = M"
| "manager_replay HM_CreateHandleStore r M = M"
| "manager_replay (HM_DestroyHandleStore store) r M = M"
| "manager_replay (HM_CreateGlobalHandleOfType object type) r M =
     made (plain_value object type) r M"
| "manager_replay (HM_CreateDuplicateHandle h) r M =
     (case M h of None \<Rightarrow> M | Some v \<Rightarrow> made (plain_value (a_object v) (a_type v)) r M)"
| "manager_replay (HM_DestroyHandleOfType h type) r M = M(h := None)"
| "manager_replay (HM_DestroyHandleOfUnknownType h) r M = M(h := None)"
| "manager_replay (HM_SetExtraInfoForHandle h type extra) r M =
     changed h (\<lambda>v. v\<lparr>a_type := type, a_extra := extra\<rparr>) M"
| "manager_replay (HM_GetExtraInfoFromHandle h) r M = M"
| "manager_replay (HM_StoreObjectInHandle h object) r M =
     changed h (a_object_update (\<lambda>_. object)) M"
| "manager_replay (HM_StoreObjectInHandleIfNull h object) r M =
     (if r = HBool True then changed h (a_object_update (\<lambda>_. object)) M else M)"
| "manager_replay (HM_SetDependentHandleSecondary h object) r M =
     changed h (a_secondary_update (\<lambda>_. object)) M"
| "manager_replay (HM_GetDependentHandleSecondary h) r M = M"
| "manager_replay (HM_InterlockedCompareExchangeObjectInHandle h object comparand) r M =
     changed h (\<lambda>v. if a_object v = comparand then v\<lparr>a_object := object\<rparr> else v) M"
| "manager_replay (HM_HandleFetchType h) r M = M"
| "manager_replay (HM_TraceRefCountedHandles callback param1 param2) r M = M"

definition replay_step ::
  "'p::zero clr_interface \<Rightarrow> 'p gc_call \<times> 'p gc_answer \<Rightarrow> ('p \<rightharpoonup> 'p aslot) \<Rightarrow> 'p \<rightharpoonup> 'p aslot" where
  "replay_step clr e M =
     (case e of
        (Gc_Handle (On_Manager m), Handle_Value r) \<Rightarrow> manager_replay m r M
      | (Gc_Handle (On_Store p m), Handle_Value r) \<Rightarrow> store_replay clr m r M
      | _ \<Rightarrow> M)"

definition replay ::
  "'p::zero clr_interface \<Rightarrow> ('p gc_call \<times> 'p gc_answer) list \<Rightarrow> 'p \<rightharpoonup> 'p aslot" where
  "replay clr tr = fold (replay_step clr) tr Map.empty"

lemma replay_simps [simp]:
  "replay clr [] = Map.empty"
  "replay clr (tr @ [e]) = replay_step clr e (replay clr tr)"
  by (simp_all add: replay_def)

section \<open>The replay is what the handles hold\<close>

lemma made_creates:
  assumes "creates v a r a'"
  shows "held_values a' = made v r (held_values a)"
  using assms by (auto simp: creates_def made_def)

lemma changed_updates:
  assumes "updates h f a a'"
  shows "held_values a' = changed h f (held_values a)"
  using assms by (auto simp: updates_def changed_def)

lemmas replay_defs = forgets_def reads_def
lemmas replay_laws = made_creates changed_updates

lemma store_spec_replay:
  assumes "store_spec clr m a r a'"
  shows "held_values a' = store_replay clr m r (held_values a)"
  using assms by (cases m) (auto simp: replay_defs dest: replay_laws)

lemma manager_spec_replay:
  assumes "manager_spec m a r a'" and "manager_pre m a"
  shows "held_values a' = manager_replay m r (held_values a)"
proof (cases m)
  case (HM_CreateDuplicateHandle h)
  show ?thesis
  proof (cases "h = 0")
    case True
    with assms HM_CreateDuplicateHandle show ?thesis by (auto simp: made_def split: option.split)
  next
    case False
    with assms HM_CreateDuplicateHandle show ?thesis by (auto dest: made_creates)
  qed
next
  case (HM_StoreObjectInHandleIfNull h object)
  with assms obtain v where v: "held_values a h = Some v" "r = HBool (a_object v = 0)"
    and s: "if a_object v = 0 then updates h (a_object_update (\<lambda>_. object)) a a' else a' = a" by auto
  show ?thesis
  proof (cases "a_object v = 0")
    case True
    with s have "updates h (a_object_update (\<lambda>_. object)) a a'" by simp
    with True v HM_StoreObjectInHandleIfNull show ?thesis by (simp add: changed_updates)
  qed (use s v HM_StoreObjectInHandleIfNull in simp)
next
  case (HM_InterlockedCompareExchangeObjectInHandle h object comparand)
  with assms obtain v where v: "held_values a h = Some v"
    and s: "if a_object v = comparand then updates h (a_object_update (\<lambda>_. object)) a a' else a' = a"
    by auto
  then show ?thesis using HM_InterlockedCompareExchangeObjectInHandle
    by (cases "a_object v = comparand") (simp_all add: updates_def changed_def fun_upd_idem)
qed (use assms in \<open>auto simp: replay_defs dest: replay_laws\<close>)

lemma handle_step_replay:
  assumes "gc_ideal clr a c r a'" and "gc_pre clr lay a c"
  shows "held_values (ideal_handles a') = replay_step clr (c, r) (held_values (ideal_handles a))"
proof (cases c)
  case (Gc_Handle hc)
  with assms obtain q hs where q: "r = Handle_Value q" "a' = a\<lparr>ideal_handles := hs\<rparr>"
    and sp: "handle_api_spec clr (ideal_handles a) hc q hs" and pre: "handle_pre (ideal_handles a) hc"
    by auto
  from sp pre q Gc_Handle show ?thesis
    by (cases hc) (auto simp: handle_api_spec_def replay_step_def
        store_spec_replay [of clr] manager_spec_replay)
qed (use assms in \<open>auto simp: replay_step_def new_object_def charge_def\<close>)

lemma history_handles:
  assumes "spec_history (gc_pre clr lay) (gc_ideal clr) client ideal_start tr a"
  shows "held_values (ideal_handles a) = replay clr tr"
  using assms
proof induction
  case empty
  show ?case by (simp add: ideal_start_def)
next
  case (extend tr a r a')
  with handle_step_replay [OF extend.hyps(3,2)] show ?case by simp
qed

end
