(* ===== verification/System_Examples.thy ===== *)
theory System_Examples
  imports Examples Handle_History
begin

text \<open>
  A run of the whole collector on the concrete 64-bit states of \<open>Examples\<close>: the runtime brings
  a thread, allocates an object, initialises the handle manager and creates a handle for the
  object. And three clients that obey their specifications: one of the handle API, and two of
  the whole collector, of which the second keeps its object in a handle.
\<close>

section \<open>A run of the collector\<close>

text \<open>The memory of \<open>Examples\<close>, with the two arrays of the handle store as static memory.\<close>

definition ex_smem0 :: "64 word gstate" where
  "ex_smem0 = globals_init (ex_mem0\<lparr>blocks := [(0x200000, 0x7FFF8), (0x100000, 0x7FFF8)]\<rparr>)"

definition ex_smem1 :: "64 word gstate" where
  "ex_smem1 = ex_smem0\<lparr>cells := [16 \<mapsto> 0, 24 \<mapsto> 0]\<rparr>"

definition ex_smem2 :: "64 word gstate" where
  "ex_smem2 = ex_smem1
     \<lparr>blocks := (0x10000, 0x10000) # blocks ex_smem1,
      bytes := zero_fill 0x10000 0x10000 (\<lambda>_. 0xAA),
      cells := [16 \<mapsto> 0x10070, 24 \<mapsto> 0x20000], i64s := [32 \<mapsto> 104, 40 \<mapsto> 0],
      placements := [0x30000]\<rparr>"

definition ex_smem3 :: "64 word gstate" where
  "ex_smem3 = filled 0 0x10008 1 0 0 (ex_smem2\<lparr>ugc_handle_count := 1\<rparr>)"

definition ex_sys :: "64 word gc_heap \<Rightarrow> 64 word \<Rightarrow> 64 word gstate \<Rightarrow> (64 word \<times> 64 word) list \<Rightarrow>
    (64 word \<times> nat) list \<Rightarrow> 64 word system" where
  "ex_sys h st m cs os =
     \<lparr>sys_heap = h, sys_mgr = \<lparr>handle_store = st\<rparr>, sys_world = \<lparr>mem = m, ctxs = cs, objs = os\<rparr>\<rparr>"

definition ex_heap2 :: "64 word gc_heap" where
  "ex_heap2 = (new_uGCHeap 0x50)\<lparr>allocatedBytes := 104\<rparr>"

definition ex_sys0 :: "64 word system" where
  "ex_sys0 = ex_sys (new_uGCHeap 0x50) 0 ex_smem0 [] []"

definition ex_sys1 :: "64 word system" where
  "ex_sys1 = ex_sys (new_uGCHeap 0x50) 0 ex_smem1 [(16, 24)] []"

definition ex_sys2 :: "64 word system" where
  "ex_sys2 = ex_sys ex_heap2 0 ex_smem2 [(16, 24)] [(0x10008, 104)]"

definition ex_sys3 :: "64 word system" where
  "ex_sys3 = ex_sys ex_heap2 0x60 ex_smem2 [(16, 24)] [(0x10008, 104)]"

definition ex_sys4 :: "64 word system" where
  "ex_sys4 = ex_sys ex_heap2 0x60 ex_smem3 [(16, 24)] [(0x10008, 104)]"

lemmas ex_smem_defs = ex_smem0_def ex_smem1_def ex_smem2_def globals_init_def cmem.defs
  ex_mem0_def ex_mem_def
lemmas ex_sys_defs = ex_sys_def ex_sys0_def ex_sys1_def ex_sys2_def ex_sys3_def ex_sys4_def

lemma ex_dependent: "live_type (hndtype_dependent ex_clr)"
  by (simp add: live_type_def ex_clr_def)

lemma ex_sys_start: "sys_start ex_clr ex_layout ex_sys0"
proof -
  let ?m = "ex_mem0\<lparr>blocks := [(0x200000, 0x7FFF8), (0x100000, 0x7FFF8)]\<rparr>"
  have "mem_ok ?m" by (simp add: mem_ok_def calloc_places_def apart_def span_def)
  moreover have "GC_Initialize ex_clr 0x50 = (s_ok ex_clr, new_uGCHeap 0x50, \<lparr>handle_store = 0\<rparr>)"
    by (simp add: GC_Initialize_def new_uGCHandleManager_def Let_def)
  ultimately show ?thesis
    by (auto simp: sys_start_def ex_sys0_def ex_sys_def ex_smem0_def array_bytes_def ptr_bytes_def
        UGC_HANDLE_COUNT_def ex_layout_def intro!: exI [of _ ?m])
qed

lemma ex_sys_attach: "sys_step ex_clr ex_layout ex_sys0 ex_sys1"
proof -
  have "env_step ObjectGap (sys_world ex_sys0) (sys_world ex_sys1)"
    using env_step.attach [of 16 24 "sys_world ex_sys0" ObjectGap]
    by (simp add: ex_sys_defs ex_smem_defs)
  moreover have "contexts_outside ex_layout (sys_world ex_sys1)"
    by (simp add: contexts_outside_def ex_sys_defs slot_of_def ptr_bytes_def ex_layout_def
        UGC_HANDLE_COUNT_def Let_def)
  ultimately show ?thesis
    using sys_step.runtime [of ex_sys0 "sys_world ex_sys1" ex_layout ex_clr] by (simp add: ex_sys_defs)
qed

lemma ex_sys_Alloc:
  "Alloc ex_clr 16 104 0 (new_uGCHeap 0x50) ex_smem1 = Some (0x10008, ex_heap2, ex_smem2)"
proof -
  let ?m = "ex_smem2\<lparr>i64s := i64s ex_smem1\<rparr>"
  have "ugc_core_alloc ugc_zalloc 16 24 104 False 8 ex_smem1 = Some (0x10008, ?m)"
    by (simp add: ugc_core_alloc_def ugc_ctx_refill_def ugc_zalloc_def calloc_def calloc_places_def
        load_cell_def store_cell_def UGC_ALLOC_QUANTUM_def ex_smem_defs Let_def apart_def span_def)
  moreover have "add_i64 (32 :: 64 word) 104 ?m = Some ex_smem2"
    by (simp add: add_i64_def c_int64_def ex_smem_defs fun_eq_iff)
  ultimately show ?thesis
    by (simp add: Alloc_def ctx_field_addr_def ObjectGap_eq ex_clr_def ex_offset_def
        ex_size new_uGCHeap_def ex_heap2_def)
qed

lemma ex_sys_alloc: "sys_step ex_clr ex_layout ex_sys1 ex_sys2"
  using sys_step.alloc [of 16 ex_clr ex_sys1 104 0 "0x10008" ex_heap2 ex_smem2 ex_layout]
    ex_sys_Alloc ex_ctx_ptrs
  by (simp add: ex_sys_defs)

lemma ex_sys_reach2: "sys_reach ex_clr ex_layout ex_sys2"
  using ex_sys_start ex_sys_attach ex_sys_alloc by (blast intro: sys_reach.start sys_reach.step)

lemma ex_sys_initialize: "sys_step ex_clr ex_layout ex_sys2 ex_sys3"
  using sys_step.handle [of ex_layout ex_sys2 "On_Manager (HM_Initialize 0x60)" ex_clr "HBool True"
      "\<lparr>handle_store = 0x60\<rparr>" ex_smem2]
  by (simp add: ex_sys_defs hm_Initialize_def call_objects_def)

lemma ex_sys_create:
  "CreateGlobalHandleOfType ex_layout \<lparr>handle_store = 0x60\<rparr> 0x10008 1 ex_smem2 = Some (0x100000, ex_smem3)"
proof -
  have "sys_inv ex_clr ex_layout ex_sys2"
    by (rule sys_reach_inv [OF ex_layout_ok ex_dependent ex_sys_reach2])
  then have c: "ugc_store_consistent ex_smem2"
    by (simp add: sys_inv_def handle_api_inv_def store_ok_def ex_sys_defs store_inv_consistent)
  have "ugc_handle_count ex_smem2 = 0" "ugc_handle_free_count ex_smem2 = 0"
    by (simp_all add: ex_smem_defs)
  with create_fresh [OF c, of ex_layout "0x10008" 1 0 0] show ?thesis
    by (simp add: CreateGlobalHandleOfType_def store_object_def handle_simps ex_elem ex_smem3_def
        UGC_HANDLE_COUNT_def)
qed

lemma ex_sys_handle: "sys_step ex_clr ex_layout ex_sys3 ex_sys4"
  using sys_step.handle [of ex_layout ex_sys3 "On_Manager (HM_CreateGlobalHandleOfType 0x10008 1)"
      ex_clr "HHandle 0x100000" "\<lparr>handle_store = 0x60\<rparr>" ex_smem3] ex_sys_create
  by (simp add: ex_sys_defs call_objects_def given_def live_type_def)

lemma ex_sys_reach4: "sys_reach ex_clr ex_layout ex_sys4"
  using ex_sys_reach2 ex_sys_initialize ex_sys_handle by (blast intro: sys_reach.step)

definition ex_svalue :: "64 word aslot" where
  "ex_svalue = \<lparr>a_object = 0x10008, a_type = 1, a_extra = 0, a_secondary = 0\<rparr>"

lemma ex_sys_lookup: "handle_lookup ex_layout ex_smem3 0x100000 = Some ex_svalue"
proof -
  have "0 \<in> live_slots ex_smem3" by (simp add: live_slots_def ex_smem3_def)
  with lookup_elem [OF ex_layout_ok, of 0 ex_smem3] show ?thesis
    by (simp add: ex_elem UGC_HANDLE_COUNT_def slot_value_def ex_smem3_def ex_svalue_def)
qed

section \<open>A client of the handle API\<close>

text \<open>Initialises the manager, then creates handles and destroys each as soon as it has it.\<close>

definition ex_client :: "(64 word handle_call \<times> 64 word handle_value) list \<Rightarrow> 64 word handle_call" where
  "ex_client tr =
     (if tr = [] then On_Manager (HM_Initialize 0x60)
      else case snd (last tr) of
        HHandle h \<Rightarrow> if h = 0 then On_Manager (HM_CreateGlobalHandleOfType 0x1000 1)
                     else On_Manager (HM_DestroyHandleOfUnknownType h)
      | _ \<Rightarrow> On_Manager (HM_CreateGlobalHandleOfType 0x1000 1))"

lemma ex_client_history:
  assumes "spec_history handle_pre (handle_api_spec clr) ex_client a0 tr a"
  shows "tr \<noteq> [] \<Longrightarrow> spec_store a = 0x60 \<and>
    (\<forall>h. snd (last tr) = HHandle h \<and> h \<noteq> 0 \<longrightarrow> is_held a h)"
  using assms
proof induction
  case empty
  then show ?case by simp
next
  case (extend tr a r a')
  then show ?case
    by (auto simp: ex_client_def handle_api_spec_def creates_def forgets_def is_held_def
        split: if_splits handle_value.splits)
qed

lemma ex_client_obeys: "client_obeys handle_pre (handle_api_spec clr) a0 ex_client"
proof -
  have "handle_pre a (ex_client tr)"
    if "spec_history handle_pre (handle_api_spec clr) ex_client a0 tr a" for tr a
    using ex_client_history [OF that]
    by (auto simp: ex_client_def live_type_def split: handle_value.splits)
  then show ?thesis by (simp add: client_obeys_def)
qed

section \<open>A client of the collector\<close>

text \<open>Brings a thread, has \<open>Alloc\<close> serve an object, writes its first byte and reads it, asks for
  the total, and goes on writing, reading and asking. When the object is refused it only
  asks.\<close>

definition ex_gc_client :: "(64 word gc_call \<times> 64 word gc_answer) list \<Rightarrow> 64 word gc_call" where
  "ex_gc_client tr =
     (if tr = [] then Gc_Attach 16
      else if length tr = 1 then Gc_Alloc 16 104 0
      else case snd (tr ! 1) of
        Pointer p \<Rightarrow>
          if p = 0 \<or> length tr mod 3 = 1 then Gc_Method (Bcl M_GetTotalAllocatedBytes)
          else if length tr mod 3 = 2 then Gc_Write p 7 else Gc_Read p
      | _ \<Rightarrow> Gc_Method (Bcl M_GetTotalAllocatedBytes))"

lemma ex_attach_pre: "gc_pre ex_clr ex_layout ideal_start (Gc_Attach 16)"
  by (simp add: ideal_start_def ctx_cells_def ctx_field_addr_def ex_clr_def ex_offset_def slot_of_def
      ptr_bytes_def ex_layout_def UGC_HANDLE_COUNT_def Let_def)

lemma ex_gc_client_history:
  assumes "spec_history (gc_pre ex_clr ex_layout) (gc_ideal ex_clr) ex_gc_client ideal_start tr a"
  shows "(tr = [] \<longrightarrow> a = ideal_start) \<and> (length tr = 1 \<longrightarrow> ideal_contexts a 16 = Some (0, 0)) \<and>
    (2 \<le> length tr \<longrightarrow> (\<forall>p. snd (tr ! 1) = Pointer p \<and> p \<noteq> 0 \<longrightarrow> p \<in> dom (ideal_memory a)))"
  using assms
proof induction
  case empty
  show ?case by simp
next
  case (extend tr a r a')
  consider "tr = []" | "length tr = 1" | "2 \<le> length tr"
    by (cases tr) (auto simp: Suc_le_eq)
  then show ?case
  proof cases
    case 1
    with extend show ?thesis by (simp add: ex_gc_client_def)
  next
    case 2
    then have "tr \<noteq> []" by auto
    with 2 have "client_call = Gc_Alloc 16 104 0" if "client_call = ex_gc_client tr" for client_call
      using that by (simp add: ex_gc_client_def)
    with extend.hyps(3) have spec: "gc_ideal ex_clr a (Gc_Alloc 16 104 0) r a'" by simp
    have "p \<in> dom (ideal_memory a')" if "r = Pointer p" "p \<noteq> 0" for p
    proof -
      have "within p (obj_span ObjectGap (p, 104))"
        by (simp add: within_def obj_span_def ObjectGap_unat [OF rv_target_64])
      then have "zeros p 104 p = Some 0" by (simp add: zeros_def)
      with spec that show ?thesis by (auto simp: new_object_def charge_def)
    qed
    with 2 \<open>tr \<noteq> []\<close> show ?thesis by (simp add: nth_append)
  next
    case 3
    then have at: "(tr @ [x]) ! 1 = tr ! 1" for x by (simp add: nth_append)
    have call: "ex_gc_client tr = Gc_Method (Bcl M_GetTotalAllocatedBytes) \<or>
        (\<exists>p. ex_gc_client tr = Gc_Write p 7) \<or> (\<exists>p. ex_gc_client tr = Gc_Read p)"
      using 3 by (auto simp: ex_gc_client_def split: gc_answer.splits)
    then have sub: "dom (ideal_memory a) \<subseteq> dom (ideal_memory a')" using extend.hyps(3) by auto
    have "p \<in> dom (ideal_memory a')" if "snd (tr ! 1) = Pointer p" "p \<noteq> 0" for p
      using extend.IH 3 that sub by blast
    moreover have "tr \<noteq> []" using 3 by auto
    ultimately show ?thesis unfolding at using 3 by simp
  qed
qed

lemma ex_gc_client_obeys:
  "client_obeys (gc_pre ex_clr ex_layout) (gc_ideal ex_clr) ideal_start ex_gc_client"
proof -
  have "gc_pre ex_clr ex_layout a (ex_gc_client tr)"
    if "spec_history (gc_pre ex_clr ex_layout) (gc_ideal ex_clr) ex_gc_client ideal_start tr a" for tr a
  proof -
    note H = ex_gc_client_history [OF that]
    consider "tr = []" | "length tr = 1" | "2 \<le> length tr"
      by (cases tr) (auto simp: Suc_le_eq)
    then show ?thesis
    proof cases
      case 1
      with H ex_attach_pre show ?thesis by (simp add: ex_gc_client_def)
    next
      case 2
      then have "tr \<noteq> []" by auto
      with 2 H show ?thesis
        by (simp add: ex_gc_client_def old_heap_flag_def int64_of_size_def c_int64_def)
    next
      case 3
      with H show ?thesis by (auto simp: ex_gc_client_def split: gc_answer.splits)
    qed
  qed
  then show ?thesis by (simp add: client_obeys_def)
qed

text \<open>Its first four calls.\<close>

definition ex_sys_written :: "64 word system" where
  "ex_sys_written = ex_sys ex_heap2 0
     (ex_smem2\<lparr>bytes := (bytes ex_smem2)(0x10008 := 7)\<rparr>) [(16, 24)] [(0x10008, 104)]"

definition ex_history :: "(64 word gc_call \<times> 64 word gc_answer) list" where
  "ex_history =
     [(Gc_Attach 16, Done), (Gc_Alloc 16 104 0, Pointer 0x10008), (Gc_Write 0x10008 7, Done),
      (Gc_Read 0x10008, Byte 7)]"

lemma ex_exec:
  "gc_exec ex_clr ex_layout (Gc_Attach 16) ex_sys0 = Some (Done, ex_sys1)"
  "gc_exec ex_clr ex_layout (Gc_Alloc 16 104 0) ex_sys1 = Some (Pointer 0x10008, ex_sys2)"
  "gc_exec ex_clr ex_layout (Gc_Write 0x10008 7) ex_sys2 = Some (Done, ex_sys_written)"
  "gc_exec ex_clr ex_layout (Gc_Read 0x10008) ex_sys_written = Some (Byte 7, ex_sys_written)"
proof -
  show "gc_exec ex_clr ex_layout (Gc_Attach 16) ex_sys0 = Some (Done, ex_sys1)"
  proof -
    have "ctx_field_addr ex_clr 16 Alloc_Bytes = 32" "ctx_field_addr ex_clr 16 Alloc_Bytes_UOH = 40"
      by (simp_all add: ctx_field_addr_def ex_clr_def ex_offset_def)
    then show ?thesis
      by (simp add: attach_context_def ex_ctx_ptrs ex_sys_defs ex_smem_defs fun_upd_twist)
  qed
  show "gc_exec ex_clr ex_layout (Gc_Alloc 16 104 0) ex_sys1 = Some (Pointer 0x10008, ex_sys2)"
    using ex_sys_Alloc by (simp add: ex_sys_defs)
  have v: "valid_bytes ex_smem2 0x10008 1"
    by (simp add: valid_bytes_def in_block_def inside_def block_span_def span_def ex_smem_defs)
  then show "gc_exec ex_clr ex_layout (Gc_Write 0x10008 7) ex_sys2 = Some (Done, ex_sys_written)"
    by (simp add: write_byte_def ex_sys_defs ex_sys_written_def)
  have "valid_bytes (ex_smem2\<lparr>bytes := f\<rparr>) 0x10008 1" for f
    using v by (simp add: valid_bytes_def in_block_def)
  then show "gc_exec ex_clr ex_layout (Gc_Read 0x10008) ex_sys_written = Some (Byte 7, ex_sys_written)"
    by (simp add: read_byte_def ex_sys_def ex_sys_written_def)
qed

lemma ex_play: "play (gc_exec ex_clr ex_layout) ex_gc_client ex_sys0 4 = Some (ex_history, ex_sys_written)"
proof -
  have 4: "4 = Suc (Suc (Suc (Suc 0)))" by simp
  show ?thesis unfolding 4 by (simp add: ex_gc_client_def ex_exec ex_history_def del: gc_exec.simps)
qed

text \<open>The fifth asks for the total.\<close>

definition ex_history5 :: "(64 word gc_call \<times> 64 word gc_answer) list" where
  "ex_history5 = ex_history @ [(Gc_Method (Bcl M_GetTotalAllocatedBytes), Method_Value (VU64 104))]"

lemma ex_play5:
  "play (gc_exec ex_clr ex_layout) ex_gc_client ex_sys0 5 = Some (ex_history5, ex_sys_written)"
proof -
  have 5: "5 = Suc 4" by simp
  have e: "gc_exec ex_clr ex_layout (Gc_Method (Bcl M_GetTotalAllocatedBytes)) ex_sys_written =
      Some (Method_Value (VU64 104), ex_sys_written)"
    by (simp add: GetTotalAllocatedBytes_def ex_sys_written_def ex_sys_def ex_heap2_def)
  have c: "ex_gc_client ex_history = Gc_Method (Bcl M_GetTotalAllocatedBytes)"
    by (simp add: ex_gc_client_def ex_history_def)
  show ?thesis unfolding 5
    by (simp only: play.simps ex_play Option.bind.bind_lunit case_prod_conv c e ex_history5_def)
qed

section \<open>A client that keeps its object in a handle\<close>

text \<open>Brings a thread, has \<open>Alloc\<close> serve an object, initialises the manager, creates a handle for
  the object and goes on creating handles for it.\<close>

definition ex_keeper :: "(64 word gc_call \<times> 64 word gc_answer) list \<Rightarrow> 64 word gc_call" where
  "ex_keeper tr =
     (if tr = [] then Gc_Attach 16
      else if length tr = 1 then Gc_Alloc 16 104 0
      else if length tr = 2 then Gc_Handle (On_Manager (HM_Initialize 0x60))
      else case snd (tr ! 1) of
        Pointer p \<Rightarrow> Gc_Handle (On_Manager (HM_CreateGlobalHandleOfType p 1))
      | _ \<Rightarrow> Gc_Handle (On_Manager (HM_CreateGlobalHandleOfType 0 1)))"

lemma ex_keeper_history:
  assumes "spec_history (gc_pre ex_clr ex_layout) (gc_ideal ex_clr) ex_keeper ideal_start tr a"
  shows "(tr = [] \<longrightarrow> a = ideal_start) \<and> (length tr = 1 \<longrightarrow> ideal_contexts a 16 = Some (0, 0)) \<and>
    (2 \<le> length tr \<longrightarrow> (\<forall>p. snd (tr ! 1) = Pointer p \<longrightarrow> p = 0 \<or> p \<in> fst ` set (ideal_objects a))) \<and>
    (3 \<le> length tr \<longrightarrow> spec_store (ideal_handles a) = 0x60)"
  using assms
proof induction
  case empty
  show ?case by simp
next
  case (extend tr a r a')
  consider "tr = []" | "length tr = 1" | "length tr = 2" | "3 \<le> length tr"
    by (cases "length tr = 0") (simp, linarith)
  then show ?case
  proof cases
    case 1
    with extend show ?thesis by (simp add: ex_keeper_def)
  next
    case 2
    then have "tr \<noteq> []" by auto
    with 2 extend.hyps(3) have spec: "gc_ideal ex_clr a (Gc_Alloc 16 104 0) r a'"
      by (simp add: ex_keeper_def)
    then have "p = 0 \<or> p \<in> fst ` set (ideal_objects a')" if "r = Pointer p" for p
      using that by (auto simp: new_object_def charge_def)
    with 2 \<open>tr \<noteq> []\<close> show ?thesis by (simp add: nth_append)
  next
    case 3
    then have "tr \<noteq> []" by auto
    with 3 extend show ?thesis
      by (auto simp: ex_keeper_def handle_api_spec_def nth_append)
  next
    case 4
    then have at: "(tr @ [x]) ! 1 = tr ! 1" for x by (simp add: nth_append)
    have "tr \<noteq> []" using 4 by auto
    then have "\<exists>p. ex_keeper tr = Gc_Handle (On_Manager (HM_CreateGlobalHandleOfType p 1))"
      using 4 by (auto simp: ex_keeper_def split: gc_answer.splits)
    with extend.hyps(3) have "ideal_objects a' = ideal_objects a"
      "spec_store (ideal_handles a') = spec_store (ideal_handles a)"
      by (auto simp: handle_api_spec_def creates_def)
    with extend.IH 4 \<open>tr \<noteq> []\<close> show ?thesis unfolding at by simp
  qed
qed

lemma ex_keeper_obeys:
  "client_obeys (gc_pre ex_clr ex_layout) (gc_ideal ex_clr) ideal_start ex_keeper"
proof -
  have "gc_pre ex_clr ex_layout a (ex_keeper tr)"
    if "spec_history (gc_pre ex_clr ex_layout) (gc_ideal ex_clr) ex_keeper ideal_start tr a" for tr a
  proof -
    note H = ex_keeper_history [OF that]
    consider "tr = []" | "length tr = 1" | "length tr = 2" | "3 \<le> length tr"
      by (cases "length tr = 0") (simp, linarith)
    then show ?thesis
    proof cases
      case 1
      with H ex_attach_pre show ?thesis by (simp add: ex_keeper_def)
    next
      case 2
      then have "tr \<noteq> []" by auto
      with 2 H show ?thesis
        by (simp add: ex_keeper_def old_heap_flag_def int64_of_size_def c_int64_def)
    next
      case 3
      then have "tr \<noteq> []" by auto
      with 3 show ?thesis by (simp add: ex_keeper_def call_objects_def)
    next
      case 4
      then have "tr \<noteq> []" by auto
      with 4 H show ?thesis
        by (auto simp: ex_keeper_def call_objects_def live_type_def split: gc_answer.splits)
    qed
  qed
  then show ?thesis by (simp add: client_obeys_def)
qed

definition ex_kept :: "(64 word gc_call \<times> 64 word gc_answer) list" where
  "ex_kept =
     [(Gc_Attach 16, Done), (Gc_Alloc 16 104 0, Pointer 0x10008),
      (Gc_Handle (On_Manager (HM_Initialize 0x60)), Handle_Value (HBool True)),
      (Gc_Handle (On_Manager (HM_CreateGlobalHandleOfType 0x10008 1)),
       Handle_Value (HHandle 0x100000))]"

lemma ex_keeper_exec:
  "gc_exec ex_clr ex_layout (Gc_Handle (On_Manager (HM_Initialize 0x60))) ex_sys2 =
     Some (Handle_Value (HBool True), ex_sys3)"
  "gc_exec ex_clr ex_layout (Gc_Handle (On_Manager (HM_CreateGlobalHandleOfType 0x10008 1))) ex_sys3 =
     Some (Handle_Value (HHandle 0x100000), ex_sys4)"
  using ex_sys_create by (simp_all add: ex_sys_defs hm_Initialize_def)

lemma ex_keeper_play: "play (gc_exec ex_clr ex_layout) ex_keeper ex_sys0 4 = Some (ex_kept, ex_sys4)"
proof -
  have 4: "4 = Suc (Suc (Suc (Suc 0)))" by simp
  show ?thesis unfolding 4
    by (simp add: ex_keeper_def ex_exec ex_keeper_exec ex_kept_def del: gc_exec.simps)
qed

end
