(* ===== verification/Client_Facts.thy ===== *)
theory Client_Facts
  imports System_Examples Handle_Facts Handle_Contracts
begin

text \<open>
  What single calls do, for a reader who looks for one method: consequences of the contracts,
  of the invariants and of the simulations of the other theories, each with a concrete
  instance.
\<close>

unbundle bit_operations_syntax

section \<open>Allocation\<close>

text \<open>Memory is never given back: along every step the blocks and the objects only grow, at
  the front.\<close>

theorem memory_only_grows:
  fixes s :: "('w::len, 'm) mworld"
  assumes "alloc_step ugc_zalloc hdr s s'"
  shows "(\<exists>new. blocks (mem s') = new @ blocks (mem s)) \<and> (\<exists>new. objs s' = new @ objs s)"
  by (rule ugc_zalloc.alloc_step_grows [OF assms])

theorem memory_only_grows_witness:
  "(\<exists>new. blocks (mem ex_w3) = new @ blocks (mem ex_w2)) \<and> (\<exists>new. objs ex_w3 = new @ objs ex_w2)"
  by (rule memory_only_grows [OF alloc_step.env [OF ex_inline]])

text \<open>In every state a run of the heap reaches, with calls of any of its methods in between,
  the objects handed out by Alloc or allocated inline do not overlap, and the window of every
  context is zero and apart from them.\<close>

theorem heap_objects_disjoint:
  fixes g :: "'w::len word gc_run"
  assumes "rv_target TYPE('w)" and "gc_reach clr g"
  shows "sorted_wrt (\<lambda>a b. apart (obj_span 8 a) (obj_span 8 b)) (objs (wld g)) \<and>
    (\<forall>c \<in> set (ctxs (wld g)). \<forall>p l. window (mem (wld g)) c = Some (p, l) \<longrightarrow>
       zero_span (mem (wld g)) (unat p - 8, unat l) \<and>
       (\<forall>ob \<in> set (objs (wld g)). apart (unat p - 8, unat l) (obj_span 8 ob)))"
proof -
  have i: "world_inv 8 (wld g)" using gc_reach_inv [OF assms] by (simp add: gc_inv_def ObjectGap_eq)
  have "unat (8 :: 'w word) = 8" using ObjectGap_unat [OF assms(1)] by (simp add: ObjectGap_eq)
  with i show ?thesis by (auto simp: world_inv_def window_ok_def win_span_def)
qed

theorem heap_objects_disjoint_witness:
  "sorted_wrt (\<lambda>a b. apart (obj_span 8 a) (obj_span 8 b)) (objs (wld ex_run4))"
  using heap_objects_disjoint [OF rv_target_64 ex_gc_reach4] by blast

text \<open>Alloc is never undefined behaviour in a run: in every state a run of the heap reaches, a
  call without a context, or with a known one whose byte counter the size does not overflow,
  returns, for every size and flags.\<close>

theorem Alloc_never_undefined:
  fixes g :: "'w::len word gc_run"
  assumes "rv_target TYPE('w)" and "gc_reach clr g"
    and "acontext = 0 \<or> ctx_ptrs clr acontext \<in> set (ctxs (wld g)) \<and>
      i64s (mem (wld g)) (alloc_counter clr acontext flags) = Some x \<and>
      c_int64 (x + int64_of_size sz) \<noteq> None"
  shows "Alloc clr acontext sz flags (heap g) (mem (wld g)) \<noteq> None"
  using Alloc_returns [OF gc_reach_Alloc_args [OF assms]] by blast

theorem Alloc_never_undefined_witness:
  "Alloc ex_clr 16 104 0 (heap ex_run4) (mem (wld ex_run4)) \<noteq> None"
  by (rule Alloc_never_undefined [OF rv_target_64 ex_gc_reach4, where x = 104])
    (simp_all add: ex_ctx_ptrs ex_counter ex_size ex_run4_def ex_run2_def ex_mem1c_def c_int64_def)

section \<open>Handles\<close>

text \<open>No step of such a client is undefined behaviour: a create of a good value returns, and so
  does the destruction of a held handle.\<close>

theorem session_never_undefined:
  assumes "session (create_value lay) (uDestroyHandle lay) good_value 0 s0 s held"
    and "store_ok lay s0" and "handle_lookup lay s0 = Map.empty"
    and "good_value v" and "h \<in> fst ` set held"
  shows "create_value lay v s \<noteq> None \<and> uDestroyHandle lay h s \<noteq> None"
  using store_provider.session_progress [OF assms(1-3)] assms(4,5) by blast

theorem session_never_undefined_witness:
  "create_value ex_layout ex_value1 ex_store2 \<noteq> None \<and> uDestroyHandle ex_layout 0x100008 ex_store2 \<noteq> None"
  by (rule session_never_undefined [OF ex_session ex_store_ok ex_lookup0])
    (simp_all add: good_value_def live_type_def ex_value1_def)

text \<open>A second destroy of the same index right after the first does nothing, from any state.\<close>

theorem double_destroy_harmless:
  assumes "ugc_handle_destroy_at idx s = Some s'"
  shows "ugc_handle_destroy_at idx s' = Some s'"
  by (rule destroy_at_twice [OF assms])

theorem double_destroy_harmless_witness: "ugc_handle_destroy_at 0 ex_store3 = Some ex_store3"
  by (rule double_destroy_harmless [OF ex_destroy])

text \<open>An address is the handle of a slot exactly when ContainsHandle says so and it is aligned to
  a pointer; the null handle is never contained.\<close>

theorem contains_slot_iff:
  fixes lay :: "'w::len word layout"
  assumes "layout_ok lay"
  shows "(ugc_valid_slot lay h \<longleftrightarrow> ContainsHandle lay h \<and> unat h mod ptr_bytes TYPE('w) = 0) \<and>
    \<not> ContainsHandle lay 0"
  using contains_aligned_iff [OF assms] null_not_contained [OF assms] by (simp add: ContainsHandle_def)

theorem contains_slot_iff_witness:
  "(ugc_valid_slot ex_layout 0x100008 \<longleftrightarrow>
    ContainsHandle ex_layout 0x100008 \<and> unat (0x100008 :: 64 word) mod ptr_bytes TYPE(64) = 0) \<and>
   \<not> ContainsHandle ex_layout 0"
  by (rule contains_slot_iff [OF ex_layout_ok])

text \<open>Destroying a handle outside the store's array, the null handle included, does nothing.\<close>

theorem foreign_destroy_harmless:
  fixes lay :: "'w::len word layout"
  assumes "layout_ok lay" and "handle_store hm \<noteq> 0" and "h = 0 \<or> \<not> ContainsHandle lay h"
  shows "DestroyHandleOfType lay hm h type s = Some s \<and> DestroyHandleOfUnknownType lay hm h s = Some s"
  using foreign_destroy null_not_contained [OF assms(1)] assms(2,3)
  by (auto simp: DestroyHandleOfType_def DestroyHandleOfUnknownType_def store_object_def)

theorem foreign_destroy_harmless_witness:
  "DestroyHandleOfType ex_layout \<lparr>handle_store = 0x60\<rparr> 0 1 ex_store2 = Some ex_store2 \<and>
   DestroyHandleOfUnknownType ex_layout \<lparr>handle_store = 0x60\<rparr> 0 ex_store2 = Some ex_store2"
  by (rule foreign_destroy_harmless [OF ex_layout_ok]) simp_all

text \<open>StoreObjectInHandle on a held handle sets its object and changes no other field and no
  other handle.\<close>

theorem store_object_sets_object:
  assumes "store_ok lay s" and "handle_lookup lay s h = Some v"
  shows "\<exists>s'. StoreObjectInHandle lay h ob s = Some s' \<and> store_ok lay s' \<and>
    handle_lookup lay s' = (handle_lookup lay s)(h \<mapsto> v\<lparr>a_object := ob\<rparr>)"
  by (rule store_object_handle [OF assms])

theorem store_object_sets_object_witness:
  "\<exists>s'. StoreObjectInHandle ex_layout 0x100000 0x9000 ex_store2 = Some s' \<and>
    handle_lookup ex_layout s' =
      (handle_lookup ex_layout ex_store2)(0x100000 \<mapsto> ex_value1\<lparr>a_object := 0x9000\<rparr>)"
  using store_object_sets_object [OF ex_ok2 ex_lookup2(1), of "0x9000"] by blast

text \<open>StoreObjectInHandleIfNull stores exactly when the object of the held handle is null, and
  its result says whether it did.\<close>

theorem store_if_null_correct:
  assumes "store_ok lay s" and "handle_lookup lay s h = Some v"
  shows "\<exists>s'. StoreObjectInHandleIfNull lay h ob s = Some (a_object v = 0, s') \<and> store_ok lay s' \<and>
    handle_lookup lay s' =
      (if a_object v = 0 then (handle_lookup lay s)(h \<mapsto> v\<lparr>a_object := ob\<rparr>) else handle_lookup lay s)"
  by (rule store_if_null_handle [OF assms])

theorem store_if_null_correct_witness:
  "\<exists>s'. StoreObjectInHandleIfNull ex_layout 0x100000 0x9000 ex_store2 = Some (False, s') \<and>
    handle_lookup ex_layout s' = handle_lookup ex_layout ex_store2"
  using store_if_null_correct [OF ex_ok2 ex_lookup2(1), of "0x9000"] by (auto simp: ex_value1_def)

text \<open>Through an initialised manager, a held handle answers with the secondary, the type and the
  extra info it has, and setting the secondary changes that field of that handle only.\<close>

theorem manager_reads_and_sets_secondary:
  assumes "store_ok lay s" and "handle_lookup lay s h = Some v" and "handle_store hm \<noteq> 0"
  shows "GetDependentHandleSecondary lay hm h s = Some (a_secondary v) \<and>
    HandleFetchType lay hm h s = Some (a_type v) \<and>
    GetExtraInfoFromHandle lay hm h s = Some (a_extra v) \<and>
    (\<exists>s'. SetDependentHandleSecondary lay hm h d s = Some s' \<and> store_ok lay s' \<and>
      handle_lookup lay s' = (handle_lookup lay s)(h \<mapsto> v\<lparr>a_secondary := d\<rparr>))"
  using dependent_handle [OF assms] by blast

theorem manager_reads_and_sets_secondary_witness:
  "GetDependentHandleSecondary ex_layout \<lparr>handle_store = 0x60\<rparr> 0x100008 ex_store2 = Some 0x3000 \<and>
   HandleFetchType ex_layout \<lparr>handle_store = 0x60\<rparr> 0x100008 ex_store2 = Some 6"
  using manager_reads_and_sets_secondary [OF ex_ok2 ex_lookup2(2), of "\<lparr>handle_store = 0x60\<rparr>"]
  by (simp add: ex_value2_def)

text \<open>SetExtraInfoForHandle on a held handle sets its type and its extra info, and changes no
  other field and no other handle.\<close>

theorem set_extra_info_sets_type_and_extra:
  assumes "store_ok lay s" and "handle_lookup lay s h = Some v"
    and "handle_store hm \<noteq> 0" and "live_type t"
  shows "\<exists>s'. SetExtraInfoForHandle lay hm h t e s = Some s' \<and> store_ok lay s' \<and>
    handle_lookup lay s' = (handle_lookup lay s)(h \<mapsto> v\<lparr>a_type := t, a_extra := e\<rparr>)"
  by (rule extra_info_handle [OF assms])

theorem set_extra_info_sets_type_and_extra_witness:
  "\<exists>s'. SetExtraInfoForHandle ex_layout \<lparr>handle_store = 0x60\<rparr> 0x100000 5 0x77 ex_store2 = Some s' \<and>
    handle_lookup ex_layout s' =
      (handle_lookup ex_layout ex_store2)(0x100000 \<mapsto> ex_value1\<lparr>a_type := 5, a_extra := 0x77\<rparr>)"
  using set_extra_info_sets_type_and_extra
    [OF ex_ok2 ex_lookup2(1), of "\<lparr>handle_store = 0x60\<rparr>" 5 "0x77"]
  by (auto simp: live_type_def)

text \<open>CreateDuplicateHandle of a held handle returns null and changes nothing when the store is
  exhausted; otherwise it returns another handle with the object and the type of the first,
  no extra info and no secondary, and leaves the first as it is.\<close>

theorem duplicate_copies_object_and_type:
  assumes ok: "store_ok lay s" and l: "handle_lookup lay s h = Some v" and hm: "handle_store hm \<noteq> 0"
  shows "\<exists>k s'. CreateDuplicateHandle lay hm h s = Some (k, s') \<and>
    (if k = 0 then s' = s
     else k \<noteq> h \<and> store_ok lay s' \<and> handle_lookup lay s' = (handle_lookup lay s)
       (k \<mapsto> \<lparr>a_object = a_object v, a_type = a_type v, a_extra = 0, a_secondary = 0\<rparr>))"
proof -
  let ?v = "\<lparr>a_object = a_object v, a_type = a_type v, a_extra = 0, a_secondary = 0\<rparr>"
  note D = duplicate_handle [OF ok l hm]
  have t: "good_value ?v" using D(2) by (simp add: good_value_def)
  obtain k s' where run: "create_value lay ?v s = Some (k, s')"
    using store_provider.create_defined [OF ok t] by blast
  show ?thesis
  proof (cases "k = 0")
    case True
    with run create_value_null [OF ok t] D(1) show ?thesis by auto
  next
    case False
    note N = create_value_new [OF ok t run False]
    then have "k \<noteq> h" using l by auto
    with N False run D(1) show ?thesis by auto
  qed
qed

theorem duplicate_copies_object_and_type_witness:
  "\<exists>k s'. CreateDuplicateHandle ex_layout \<lparr>handle_store = 0x60\<rparr> 0x100000 ex_store2 = Some (k, s')"
  using duplicate_copies_object_and_type [OF ex_ok2 ex_lookup2(1), of "\<lparr>handle_store = 0x60\<rparr>"]
  by auto

text \<open>Slots are recycled last in, first out: a create right after the destruction of a held
  handle returns the same handle, and never fails.\<close>

theorem destroyed_handle_is_reused:
  assumes "session (create_value lay) (uDestroyHandle lay) good_value 0 s0 s held"
    and "store_ok lay s0" and "handle_lookup lay s0 = Map.empty"
    and "h \<in> fst ` set held" and "good_value w" and "uDestroyHandle lay h s = Some s1"
  shows "h \<noteq> 0 \<and> (\<exists>s2. create_value lay w s1 = Some (h, s2))"
  by (rule store_provider.session_reuse [OF assms])

theorem destroyed_handle_is_reused_witness:
  "\<exists>s2. create_value ex_layout ex_value2 ex_store3 = Some (0x100000, s2)"
proof -
  have "unat (ugc_handle_index ex_layout 0x100000) = 0"
    using index_of_elem [OF ex_layout_ok, of 0] ex_elem by (simp add: UGC_HANDLE_COUNT_def)
  then have "ugc_handle_index ex_layout 0x100000 = 0" by (simp add: unat_eq_0)
  then have "uDestroyHandle ex_layout 0x100000 ex_store2 = Some ex_store3"
    using destroy_handle_simp [OF ex_layout_ok, of 0] ex_elem ex_destroy
    by (simp add: UGC_HANDLE_COUNT_def)
  then show ?thesis
    using destroyed_handle_is_reused [OF ex_session ex_store_ok ex_lookup0, of "0x100000" ex_value2]
    by (simp add: good_value_def live_type_def ex_value2_def)
qed

section \<open>The reset loop\<close>

text \<open>The loop of the reset keeps the annotated invariant: a round from a state with the
  invariant leads to one with the invariant for the next index, with a variant that was
  positive and is smaller; and the loop ends with the invariant for the length of the arrays.\<close>

theorem reset_loop_keeps_invariant:
  assumes "reset_invariant s0 i s"
  shows "(i < int UGC_HANDLE_COUNT \<longrightarrow>
      (\<exists>s'. reset_loop i s = reset_loop (i + 1) s' \<and> reset_invariant s0 (i + 1) s' \<and>
         0 \<le> reset_variant i \<and> reset_variant (i + 1) < reset_variant i)) \<and>
    (\<exists>s'. reset_loop i s = Some s' \<and> reset_invariant s0 (int UGC_HANDLE_COUNT) s')"
  using reset_round [OF assms] reset_loop_invariant [OF assms] by blast

theorem reset_loop_keeps_invariant_witness:
  "\<exists>s'. reset_loop 0 ex_store2 = Some s' \<and> reset_invariant ex_store2 (int UGC_HANDLE_COUNT) s'"
proof -
  have "reset_invariant ex_store2 0 ex_store2"
    by (simp add: reset_invariant_def zeroed_below_def)
  from conjunct2 [OF reset_loop_keeps_invariant [OF this]] show ?thesis .
qed

section \<open>The whole\<close>

text \<open>In every state the collector reaches, a handle call the specification allows is not
  undefined behaviour, and neither is a call of Alloc without a context or with a known one
  whose byte counter the size does not overflow, for every size and flags.\<close>

theorem system_calls_never_undefined:
  fixes clr :: "'w::len word clr_interface"
  assumes "layout_ok lay" and "live_type (hndtype_dependent clr)" and "sys_reach clr lay g"
    and "handle_pre (handle_abs lay (sys_mgr g, mem (sys_world g))) c"
    and "acontext = 0 \<or> ctx_ptrs clr acontext \<in> set (ctxs (sys_world g)) \<and>
      i64s (mem (sys_world g)) (alloc_counter clr acontext flags) = Some x \<and>
      c_int64 (x + int64_of_size sz) \<noteq> None"
  shows "handle_api clr lay c (sys_mgr g, mem (sys_world g)) \<noteq> None \<and>
    Alloc clr acontext sz flags (sys_heap g) (mem (sys_world g)) \<noteq> None"
proof -
  have i: "world_inv ObjectGap (sys_world g)"
    "handle_api_inv clr lay (sys_mgr g, mem (sys_world g))"
    using sys_reach_inv [OF assms(1-3)] by (simp_all add: sys_inv_def)
  from handle_api_simulates [OF i(2) assms(4)]
    Alloc_returns [OF world_inv_Alloc_args [OF layout_target [OF assms(1)] i(1) assms(5)], of "sys_heap g"]
  show ?thesis by auto
qed

theorem system_calls_never_undefined_witness:
  "handle_api ex_clr ex_layout (On_Manager (HM_CreateDuplicateHandle 0x100000))
     (sys_mgr ex_sys4, mem (sys_world ex_sys4)) \<noteq> None \<and>
   Alloc ex_clr 0 0x20000 0 (sys_heap ex_sys4) (mem (sys_world ex_sys4)) \<noteq> None"
  by (rule system_calls_never_undefined [OF ex_layout_ok ex_dependent ex_sys_reach4])
    (simp_all add: is_held_def ex_sys_defs ex_sys_lookup)

text \<open>The handles RegisterFrozenSegment has returned in a run are pairwise different and none
  is null.\<close>

theorem segment_handles_distinct:
  fixes g :: "'w::len word gc_run"
  assumes "rv_target TYPE('w)" and "gc_reach clr g"
  shows "distinct (segs g) \<and> 0 \<notin> set (segs g) \<and> int (length (segs g)) = registeredSegments (heap g)"
proof -
  have l: "length (seg_handles n :: 'w word list) = n" for n by (induction n) auto
  show ?thesis
    using gc_reach_inv [OF assms] seg_handles_good [OF assms(1)] l unfolding gc_inv_def by auto
qed

theorem segment_handles_distinct_witness:
  "distinct (segs ex_run4) \<and> 0 \<notin> set (segs ex_run4) \<and>
   int (length (segs ex_run4)) = registeredSegments (heap ex_run4)"
  by (rule segment_handles_distinct [OF rv_target_64 ex_gc_reach4])

end
