(* ===== verification/Core_Contracts.thy ===== *)
theory Core_Contracts
  imports Core_Alloc
begin

text \<open>
  The ACSL contracts inside the allocation core: the one of the link-time allocator
  (\<open>ugc_core.h\<close>) and those of the two static helpers (\<open>ugc_core.c\<close>). Each helper meets its
  contract on the promise of the allocator alone, and \<open>ugc_core_alloc\<close> reaches each helper
  only where the helper's precondition holds.
\<close>

section \<open>The contracts\<close>

definition zalloc_ensures ::
  "('w::len word, 'm) cmem_scheme \<Rightarrow> 'w word \<Rightarrow> 'w word \<Rightarrow> ('w word, 'm) cmem_scheme \<Rightarrow> bool" where
  "zalloc_ensures m n result m' \<longleftrightarrow>
     assigns_nothing m m' \<and> null_or_zeroed m' result (unat n)"

definition direct_requires :: "'w::len word \<Rightarrow> 'w word \<Rightarrow> bool" where
  "direct_requires sz header_size \<longleftrightarrow>
     1 \<le> unat header_size \<and> int (unat sz) \<le> (2 ^ LENGTH('w) - 1) - int (unat header_size)"

definition direct_ensures ::
  "('w::len word, 'm) cmem_scheme \<Rightarrow> 'w word \<Rightarrow> 'w word \<Rightarrow> ('w word, 'm) cmem_scheme \<Rightarrow> bool" where
  "direct_ensures m sz result m' \<longleftrightarrow>
     assigns_nothing m m' \<and> null_or_zeroed m' result (unat sz)"

definition refill_requires ::
  "('w::len word, 'm) cmem_scheme \<Rightarrow> 'w word \<Rightarrow> 'w word \<Rightarrow> 'w word \<Rightarrow> 'w word \<Rightarrow> bool" where
  "refill_requires m alloc_ptr_p alloc_limit_p sz header_size \<longleftrightarrow>
     1 \<le> unat header_size \<and> unat header_size \<le> 65536 div 2 \<and>
     unat sz + unat header_size \<le> 65536 \<and>
     alloc_ptr_p \<in> dom (cells m) \<and> alloc_limit_p \<in> dom (cells m) \<and>
     alloc_ptr_p \<noteq> alloc_limit_p"

definition refill_ensures ::
  "('w::len word, 'm) cmem_scheme \<Rightarrow> 'w word \<Rightarrow> 'w word \<Rightarrow> 'w word \<Rightarrow> 'w word \<Rightarrow> 'w word \<Rightarrow>
   ('w word, 'm) cmem_scheme \<Rightarrow> bool" where
  "refill_ensures m alloc_ptr_p alloc_limit_p sz header_size result m' \<longleftrightarrow>
     assigns_cells alloc_ptr_p alloc_limit_p m m' \<and>
     (if result = 0
      then cells m' alloc_ptr_p = cells m alloc_ptr_p \<and>
           cells m' alloc_limit_p = cells m alloc_limit_p
      else cells m' alloc_ptr_p = Some (result + sz) \<and>
           cells m' alloc_limit_p = Some (result + (UGC_ALLOC_QUANTUM - header_size)) \<and>
           valid_bytes m' result (65536 - unat header_size) \<and>
           zeroed m' result (65536 - unat header_size))"

text \<open>The assertions inside the bodies, at the point after the test for null. The arithmetic of
  ACSL is that of the integers, so an equality of pointers also says that none wraps.\<close>

definition direct_asserts ::
  "('w::len word, 'm) cmem_scheme \<Rightarrow> 'w word \<Rightarrow> 'w word \<Rightarrow> 'w word \<Rightarrow> bool" where
  "direct_asserts m address sz header_size \<longleftrightarrow>
     valid_bytes m address (unat sz + unat header_size) \<and>
     valid_bytes m (address + header_size) (unat sz) \<and>
     zeroed m (address + header_size) (unat sz)"

definition refill_asserts ::
  "('w::len word, 'm) cmem_scheme \<Rightarrow> 'w word \<Rightarrow> 'w word \<Rightarrow> 'w word \<Rightarrow> bool" where
  "refill_asserts m base sz header_size \<longleftrightarrow>
     valid_bytes m base 65536 \<and>
     valid_bytes m (base + header_size) (65536 - unat header_size) \<and>
     zeroed m (base + header_size) (65536 - unat header_size) \<and>
     unat (base + header_size + sz) = unat base + (unat header_size + unat sz) \<and>
     unat (base + UGC_ALLOC_QUANTUM) = unat (base + header_size) + (65536 - unat header_size)"

section \<open>The helpers meet them\<close>

lemma direct_requires_iff:
  fixes sz header_size :: "'w::len word"
  shows "direct_requires sz header_size \<longleftrightarrow> 1 \<le> unat header_size \<and> \<not> sz > - 1 - header_size"
  unfolding direct_requires_def by (simp only: linorder_not_less [symmetric] overflow_iff)

context zeroing_allocator
begin

lemma zalloc_meets_contract:
  assumes "zalloc n m = (p, m')"
  shows "zalloc_ensures m n p m'"
  using zalloc_assigns_nothing [OF assms] zalloc_valid [OF assms] zalloc_zeroed [OF assms]
  by (auto simp: zalloc_ensures_def null_or_zeroed_def)

lemma direct_meets_contract:
  assumes "direct_requires sz hdr" and "ugc_alloc_direct zalloc sz hdr m = (r, m')"
  shows "direct_ensures m sz r m'"
proof -
  obtain a where z: "zalloc (sz + hdr) m = (a, m')" and r: "r = (if a = 0 then 0 else a + hdr)"
    using assms(2) by (auto simp: ugc_alloc_direct_def split: prod.splits if_splits)
  have no: "\<not> sz > - 1 - hdr" using assms(1) by (simp add: direct_requires_iff)
  show ?thesis
    using zalloc_meets_contract [OF z] direct_result(3,4) [OF no z] r
    by (simp add: direct_ensures_def zalloc_ensures_def null_or_zeroed_def)
qed

lemma direct_assertions:
  assumes "direct_requires sz hdr" and "zalloc (sz + hdr) m = (a, m')" and "a \<noteq> 0"
  shows "direct_asserts m' a sz hdr"
proof -
  have no: "\<not> sz > - 1 - hdr" using assms(1) by (simp add: direct_requires_iff)
  have "unat (sz + hdr) = unat sz + unat hdr" using not_overflow_unat [OF no] by simp
  with zalloc_valid [OF assms(2,3)] direct_result(3,4) [OF no assms(2,3)] show ?thesis
    by (simp add: direct_asserts_def)
qed

lemma refill_assertions:
  assumes t: "rv_target TYPE('w)" and req: "refill_requires m pp lp sz hdr"
    and z: "zalloc UGC_ALLOC_QUANTUM m = (a, m')" and a: "a \<noteq> 0"
  shows "refill_asserts m' a sz hdr"
proof -
  have h: "unat hdr \<le> 65536" and s: "unat sz + unat hdr \<le> 65536"
    using req by (simp_all add: refill_requires_def)
  note F = fresh_result [OF t z a h]
  show ?thesis
    using F(1,3,5,6) F(4) [OF s] zalloc_valid [OF z a] unat_quantum [OF t] h
    by (simp add: refill_asserts_def)
qed

lemma refill_meets_contract:
  assumes t: "rv_target TYPE('w)" and req: "refill_requires m pp lp sz hdr"
  shows "\<exists>r m'. ugc_ctx_refill zalloc pp lp sz hdr m = Some (r, m') \<and>
    refill_ensures m pp lp sz hdr r m'"
proof -
  obtain a m1 where z: "zalloc UGC_ALLOC_QUANTUM m = (a, m1)" by fastforce
  have c: "cells m1 = cells m" using zalloc_cells [OF z] by simp
  have k: "assigns_cells pp lp m m1"
    using zalloc_meets_contract [OF z]
    by (simp add: zalloc_ensures_def assigns_nothing_def assigns_cells_def)
  show ?thesis
  proof (cases "a = 0")
    case True
    with z c k show ?thesis by (simp add: ugc_ctx_refill_def refill_ensures_def)
  next
    case False
    have h: "unat hdr \<le> 65536" using req by (simp add: refill_requires_def)
    note F = fresh_result [OF t z False h]
    from req have d: "pp \<in> dom (cells m)" "lp \<in> dom (cells m)" "pp \<noteq> lp"
      by (auto simp: refill_requires_def)
    let ?m = "m1\<lparr>cells := (cells m1)(pp \<mapsto> a + hdr + sz, lp \<mapsto> a + UGC_ALLOC_QUANTUM)\<rparr>"
    have "ugc_ctx_refill zalloc pp lp sz hdr m = Some (a + hdr, ?m)"
      using z False d c by (simp add: ugc_ctx_refill_def)
    moreover have "refill_ensures m pp lp sz hdr (a + hdr) ?m"
      using F(2,5,6) d(3) k by (simp add: refill_ensures_def assigns_cells_def algebra_simps)
    ultimately show ?thesis by blast
  qed
qed

end

section \<open>The core calls them within their preconditions\<close>

lemma direct_precondition:
  fixes sz hdr :: "'w::len word"
  assumes "core_alloc_requires m pp lp hdr"
    and "core_alloc_behavior m pp lp sz bypass hdr \<noteq> Overflow"
  shows "direct_requires sz hdr"
  using assms behavior_overflow [of hdr sz m pp lp bypass]
  unfolding direct_requires_iff core_alloc_requires_def by blast

lemma refill_precondition:
  fixes sz hdr :: "'w::len word"
  assumes "core_alloc_requires m pp lp hdr"
    and "core_alloc_behavior m pp lp sz bypass hdr = Refill"
  shows "refill_requires m pp lp sz hdr"
proof -
  have "pp \<noteq> 0 \<and> unat sz + unat hdr \<le> 65536"
    using assms(2) by (auto simp: core_alloc_behavior_def split: if_splits)
  with assms(1) show ?thesis
    by (auto simp: core_alloc_requires_def refill_requires_def split: option.splits)
qed

end
