(* ===== verification/Eva_Driver.thy ===== *)
theory Eva_Driver
  imports Alloc_Facts Handle_Contracts
begin

text \<open>
  The driver of the value analysis (\<open>formal/eva_main.c\<close>): a client of the core that calls
  every function with unconstrained inputs. The intervals Frama-C draws are arguments, and so
  are the addresses of its two locals and two globals. The analyser shows that the driver has
  no undefined behaviour; so does a theorem here, for every input and every behaviour of
  \<open>calloc\<close>.
\<close>

section \<open>The driver\<close>

text \<open>Allocation: without a context, then on a fresh one, which is put back to null unless both
  pointers are set, then once more.\<close>

definition eva_alloc ::
  "'w::len word \<Rightarrow> 'w word \<Rightarrow> 'w word \<Rightarrow> 'w word \<Rightarrow> 'w word \<Rightarrow> bool \<Rightarrow> 'w word gstate \<Rightarrow>
   'w word gstate option" where
  "eva_alloc alloc_ptr alloc_limit sz s1 s2 bypass s =
     do {
       (_, s) \<leftarrow> ugc_core_alloc ugc_zalloc 0 0 sz False 8 s;
       let s = s\<lparr>cells := (cells s)(alloc_ptr \<mapsto> 0, alloc_limit \<mapsto> 0)\<rparr>;
       (_, s) \<leftarrow> ugc_core_alloc ugc_zalloc alloc_ptr alloc_limit s1 False 8 s;
       p \<leftarrow> load_cell alloc_ptr s;
       l \<leftarrow> load_cell alloc_limit s;
       s \<leftarrow> (if p = 0 \<or> l = 0
             then do { s \<leftarrow> store_cell alloc_ptr 0 s; store_cell alloc_limit 0 s }
             else Some s);
       (_, s) \<leftarrow> ugc_core_alloc ugc_zalloc alloc_ptr alloc_limit s2 bypass 8 s;
       Some s
     }"

text \<open>Three handles; the first is destroyed twice and its slot taken again.\<close>

definition eva_handles ::
  "'w::len word layout \<Rightarrow> 'w word \<Rightarrow> 'w word \<Rightarrow> int \<Rightarrow> int \<Rightarrow> int \<Rightarrow> int \<Rightarrow> 'w word gstate \<Rightarrow>
   ('w word \<times> 'w word \<times> 'w word gstate) option" where
  "eva_handles lay object_a object_b t1 t2 t3 t4 s =
     do {
       s \<leftarrow> ugc_handle_store_reset s;
       (h1, s) \<leftarrow> ugc_handle_create lay object_a t1 s;
       (h2, s) \<leftarrow> ugc_handle_create_with_extra lay object_a t2 object_b s;
       (h3, s) \<leftarrow> ugc_handle_create_dependent lay object_a object_b t3 s;
       s \<leftarrow> (if h1 \<noteq> 0
             then do {
               let _ = ugc_handle_store_contains lay h1;
               let _ = ugc_handle_index lay h1;
               s \<leftarrow> ugc_handle_destroy_at (ugc_handle_index lay h1) s;
               s \<leftarrow> ugc_handle_destroy_at (ugc_handle_index lay h1) s;
               (_, s) \<leftarrow> ugc_handle_create lay object_b t4 s;
               Some s
             }
             else Some s);
       let _ = ugc_handle_store_contains lay object_a;
       let _ = ugc_handle_store_contains lay 0;
       Some (h2, h3, s)
     }"

definition eva_accessors ::
  "'w::len word layout \<Rightarrow> 'w word \<Rightarrow> 'w word \<Rightarrow> int \<Rightarrow> 'w word gstate \<Rightarrow> 'w word gstate option" where
  "eva_accessors lay object_b idx t5 s =
     do {
       s \<leftarrow> ugc_handle_set_type_at idx t5 s;
       _ \<leftarrow> ugc_handle_get_type_at idx s;
       s \<leftarrow> ugc_handle_set_extra_at idx object_b s;
       _ \<leftarrow> ugc_handle_get_extra_at idx s;
       s \<leftarrow> ugc_handle_set_dependent_at idx object_b s;
       _ \<leftarrow> ugc_handle_dependent_slot_at lay idx;
       Some s
     }"

definition eva_slots ::
  "'w::len word layout \<Rightarrow> 'w word \<Rightarrow> 'w word \<Rightarrow> 'w word \<Rightarrow> 'w word \<Rightarrow> 'w word gstate \<Rightarrow>
   'w word gstate option" where
  "eva_slots lay object_a object_b h2 h3 s =
     do {
       s \<leftarrow> (if h2 \<noteq> 0
             then do {
               s \<leftarrow> ugc_handle_slot_store lay h2 object_b s;
               (_, s) \<leftarrow> ugc_handle_slot_store_if_null lay h2 object_a s;
               (_, s) \<leftarrow> ugc_handle_slot_cas lay h2 object_a object_b s;
               Some s
             }
             else Some s);
       s \<leftarrow> (if h3 \<noteq> 0
             then do { (_, s) \<leftarrow> ugc_handle_slot_store_if_null lay h3 object_a s; Some s }
             else Some s);
       Some s
     }"

definition eva_main ::
  "'w::len word layout \<Rightarrow> 'w word \<Rightarrow> 'w word \<Rightarrow> 'w word \<Rightarrow> 'w word \<Rightarrow>
   'w word \<Rightarrow> 'w word \<Rightarrow> 'w word \<Rightarrow> bool \<Rightarrow> int \<Rightarrow> int \<Rightarrow> int \<Rightarrow> int \<Rightarrow> int \<Rightarrow> 'w word \<Rightarrow>
   'w word gstate \<Rightarrow> (int \<times> 'w word gstate) option" where
  "eva_main lay alloc_ptr alloc_limit object_a object_b sz s1 s2 bypass t1 t2 t3 t4 t5 idx s =
     do {
       s \<leftarrow> eva_alloc alloc_ptr alloc_limit sz s1 s2 bypass s;
       (h2, h3, s) \<leftarrow> eva_handles lay object_a object_b t1 t2 t3 t4 s;
       s \<leftarrow> eva_accessors lay object_b idx t5 s;
       s \<leftarrow> eva_slots lay object_a object_b h2 h3 s;
       s \<leftarrow> ugc_handle_store_reset s;
       Some (0, s)
     }"

section \<open>No undefined behaviour\<close>

lemma unat_8:
  assumes "rv_target TYPE('w::len)"
  shows "unat (8 :: 'w word) = 8"
  using unat_of_small [OF assms, of 8] by simp

lemma eva_alloc_returns:
  fixes s :: "'w::len word gstate"
  assumes t: "rv_target TYPE('w)" and ne: "alloc_ptr \<noteq> 0" "alloc_ptr \<noteq> alloc_limit"
  shows "\<exists>s'. eva_alloc alloc_ptr alloc_limit sz s1 s2 bypass s = Some s'"
proof -
  let ?call = "\<lambda>pp lp. ugc_core_alloc ugc_zalloc pp lp"
  note u = unat_8 [OF t]
  have r0: "core_alloc_requires s 0 0 8" using u by (simp add: core_alloc_requires_def)
  from ugc_zalloc.core_alloc_returns [OF r0] obtain a m1 where
    c1: "?call 0 0 sz False 8 s = Some (a, m1)" by blast
  let ?m1 = "m1\<lparr>cells := (cells m1)(alloc_ptr \<mapsto> 0, alloc_limit \<mapsto> 0)\<rparr>"
  have r1: "core_alloc_requires ?m1 alloc_ptr alloc_limit 8"
    using ne u by (simp add: core_alloc_requires_def)
  from ugc_zalloc.core_alloc_returns [OF r1] obtain b m2 where
    c2: "?call alloc_ptr alloc_limit s1 False 8 ?m1 = Some (b, m2)" by blast
  have r2: "core_alloc_requires m2 alloc_ptr alloc_limit 8"
    by (rule ugc_zalloc.core_alloc_keeps_requires [OF t r1 c2])
  then obtain p l where pl: "cells m2 alloc_ptr = Some p" "cells m2 alloc_limit = Some l"
    using ne(1) by (auto simp: core_alloc_requires_def split: option.splits)
  let ?m3 = "if p = 0 \<or> l = 0
    then m2\<lparr>cells := (cells m2)(alloc_ptr \<mapsto> 0, alloc_limit \<mapsto> 0)\<rparr> else m2"
  have r3: "core_alloc_requires ?m3 alloc_ptr alloc_limit 8"
    using r2 ne u by (auto simp: core_alloc_requires_def)
  from ugc_zalloc.core_alloc_returns [OF r3] obtain c m4 where
    "?call alloc_ptr alloc_limit s2 bypass 8 ?m3 = Some (c, m4)" by blast
  with c1 c2 pl show ?thesis
    by (auto simp: eva_alloc_def store_cell_def split: if_splits)
qed

text \<open>What is known of the store along the driver's handle calls: it is consistent, and the slot of
  a handle the driver holds is below the count.\<close>

lemma eva_create:
  assumes c: "ugc_store_consistent s" and k: "ugc_handle_free_count s = 0" "ugc_handle_count s = int n"
    and n: "n < UGC_HANDLE_COUNT"
  shows "\<exists>s'. create_slot lay ob t e d s = Some (elem_addr (addr_handles lay) n, s') \<and>
    ugc_store_consistent s' \<and> ugc_handle_free_count s' = 0 \<and> ugc_handle_count s' = int (Suc n)"
proof -
  have f: "ugc_handle_count s < int UGC_HANDLE_COUNT" using k n by simp
  have "ugc_store_consistent (s\<lparr>ugc_handle_count := ugc_handle_count s + 1\<rparr>)"
    using c f k by (simp add: ugc_store_consistent_def)
  with k show ?thesis by (simp add: create_fresh [OF c k(1) f])
qed

lemma eva_destroy:
  fixes idx :: "'w::len word"
  assumes c: "ugc_store_consistent s" and i: "int (unat idx) < ugc_handle_count s"
  shows "\<exists>s'. ugc_handle_destroy_at idx s = Some s' \<and> ugc_store_consistent s' \<and>
    ugc_handle_count s' = ugc_handle_count s"
proof -
  have "destroy_requires idx s" using c i by (simp only: destroy_requires_def simp_thms)
  from destroy_meets_contract [OF this] show ?thesis unfolding destroy_ensures_def by blast
qed

lemma eva_handles_return:
  fixes s :: "'w::len word gstate"
  assumes lay: "layout_ok lay"
  shows "\<exists>s'. eva_handles lay object_a object_b t1 t2 t3 t4 s =
    Some (elem_addr (addr_handles lay) 1, elem_addr (addr_handles lay) 2, s')"
proof -
  note count = UGC_HANDLE_COUNT_def
  obtain s0 where r: "ugc_handle_store_reset s = Some s0" "reset_ensures s s0"
    using reset_meets_contract by blast
  then have c0: "ugc_store_consistent s0" "ugc_handle_free_count s0 = 0" "ugc_handle_count s0 = int 0"
    by (auto simp: reset_ensures_def)
  obtain s1 where s1: "ugc_handle_create lay object_a t1 s0 = Some (elem_addr (addr_handles lay) 0, s1)"
    and c1: "ugc_store_consistent s1" "ugc_handle_free_count s1 = 0" "ugc_handle_count s1 = int 1"
    using eva_create [OF c0, of lay object_a t1 0 0] by (auto simp: create_is_slot count)
  obtain s2 where s2: "ugc_handle_create_with_extra lay object_a t2 object_b s1 =
      Some (elem_addr (addr_handles lay) 1, s2)"
    and c2: "ugc_store_consistent s2" "ugc_handle_free_count s2 = 0" "ugc_handle_count s2 = int 2"
    using eva_create [OF c1, of lay object_a t2 object_b 0] by (auto simp: create_is_slot count)
  obtain s3 where s3: "ugc_handle_create_dependent lay object_a object_b t3 s2 =
      Some (elem_addr (addr_handles lay) 2, s3)"
    and c3: "ugc_store_consistent s3" "ugc_handle_count s3 = 3"
    using eva_create [OF c2, of lay object_a t3 0 object_b] by (auto simp: create_is_slot count)
  let ?x = "ugc_handle_index lay (elem_addr (addr_handles lay) 0)"
  have x: "unat ?x = 0" by (rule index_of_elem [OF lay]) (simp add: count)
  then obtain s4 where s4: "ugc_handle_destroy_at ?x s3 = Some s4" "ugc_store_consistent s4"
    "ugc_handle_count s4 = 3"
    using eva_destroy [OF c3(1), of ?x] c3(2) by auto
  then obtain s5 where s5: "ugc_handle_destroy_at ?x s4 = Some s5" "ugc_store_consistent s5"
    using eva_destroy [OF s4(2), of ?x] x by auto
  obtain r6 s6 where s6: "ugc_handle_create lay object_b t4 s5 = Some (r6, s6)"
    using create_meets_contract [OF s5(2)] unfolding create_is_slot by blast
  have "elem_addr (addr_handles lay) 0 \<noteq> 0" by (rule handle_addr(3) [OF lay]) (simp add: count)
  with r(1) s1 s2 s3 s4(1) s5(1) s6 show ?thesis by (simp add: eva_handles_def)
qed

lemma eva_accessors_return:
  fixes idx :: "'w::len word"
  assumes "unat idx < UGC_HANDLE_COUNT"
  shows "\<exists>s'. eva_accessors lay object_b idx t5 s = Some s'"
proof -
  have i: "index_requires idx" using assms by (simp add: index_requires_def)
  note A = accessors_meet_contracts [OF i]
  from A(5) [of t5 s] obtain s1 where "ugc_handle_set_type_at idx t5 s = Some s1" by blast
  moreover from A(6) [of object_b s1] obtain s2 where "ugc_handle_set_extra_at idx object_b s1 = Some s2"
    by blast
  moreover from A(4) [of object_b s2] obtain s3 where "ugc_handle_set_dependent_at idx object_b s2 = Some s3"
    by blast
  ultimately show ?thesis using A(1) [of lay] A(2) [of s1] A(3) [of s2]
    by (auto simp: eva_accessors_def)
qed

lemma eva_slots_return:
  assumes lay: "layout_ok lay"
  shows "\<exists>s'. eva_slots lay object_a object_b (elem_addr (addr_handles lay) 1)
    (elem_addr (addr_handles lay) 2) s = Some s'"
proof -
  have v: "valid_slot_ptr lay (elem_addr (addr_handles lay) i) s" if "i < UGC_HANDLE_COUNT" for i s
    using load_handle [OF lay that] by (simp add: valid_slot_ptr_def)
  have c: "1 < UGC_HANDLE_COUNT" "2 < UGC_HANDLE_COUNT" by (simp_all add: UGC_HANDLE_COUNT_def)
  let ?h2 = "elem_addr (addr_handles lay) 1" and ?h3 = "elem_addr (addr_handles lay) 2"
  obtain s1 where "ugc_handle_slot_store lay ?h2 object_b s = Some s1"
    using slots_meet_contracts(1) [OF v [OF c(1)]] by blast
  moreover obtain b s2 where "ugc_handle_slot_store_if_null lay ?h2 object_a s1 = Some (b, s2)"
    using slots_meet_contracts(2) [OF v [OF c(1)]] by blast
  moreover obtain r s3 where "ugc_handle_slot_cas lay ?h2 object_a object_b s2 = Some (r, s3)"
    using slots_meet_contracts(3) [OF v [OF c(1)]] by blast
  moreover obtain b' s4 where "ugc_handle_slot_store_if_null lay ?h3 object_a s3 = Some (b', s4)"
    using slots_meet_contracts(2) [OF v [OF c(2)]] by blast
  ultimately show ?thesis
    using handle_addr(3) [OF lay c(1)] handle_addr(3) [OF lay c(2)] by (simp add: eva_slots_def)
qed

lemma eva_main_returns:
  fixes lay :: "'w::len word layout"
  assumes lay: "layout_ok lay" and ne: "alloc_ptr \<noteq> 0" "alloc_ptr \<noteq> alloc_limit"
    and i: "unat idx < UGC_HANDLE_COUNT"
  shows "\<exists>s'. eva_main lay alloc_ptr alloc_limit object_a object_b sz s1 s2 bypass
    t1 t2 t3 t4 t5 idx s = Some (0, s') \<and> reset_ensures s' s'"
proof -
  obtain sa where a: "eva_alloc alloc_ptr alloc_limit sz s1 s2 bypass s = Some sa"
    using eva_alloc_returns [OF layout_target [OF lay] ne] by blast
  obtain sb where b: "eva_handles lay object_a object_b t1 t2 t3 t4 sa =
      Some (elem_addr (addr_handles lay) 1, elem_addr (addr_handles lay) 2, sb)"
    using eva_handles_return [OF lay] by blast
  obtain sc where c: "eva_accessors lay object_b idx t5 sb = Some sc"
    using eva_accessors_return [OF i] by blast
  obtain sd where d: "eva_slots lay object_a object_b (elem_addr (addr_handles lay) 1)
      (elem_addr (addr_handles lay) 2) sc = Some sd"
    using eva_slots_return [OF lay] by blast
  obtain se where e: "ugc_handle_store_reset sd = Some se" "reset_ensures sd se"
    using reset_meets_contract by blast
  from e(2) have "reset_ensures se se" by (simp add: reset_ensures_def)
  with a b c d e(1) show ?thesis by (simp add: eva_main_def)
qed

end
