(* ===== verification/Test_Harness.thy ===== *)
theory Test_Harness
  imports Prelude
begin

text \<open>
  The harness of the unit tests (\<open>tests/ugc_test.h\<close>): the two counters, the \<open>CHECK\<close> macro
  and the summary. \<open>RUN_TEST\<close> runs its argument and prints. Printing has no effect on
  the state.
\<close>

record harness =
  ugc_test_checks :: int
  ugc_test_failures :: int

definition CHECK :: "bool \<Rightarrow> harness \<Rightarrow> harness option" where
  "CHECK cond k =
     do {
       n \<leftarrow> c_int (ugc_test_checks k + 1);
       let k = k\<lparr>ugc_test_checks := n\<rparr>;
       if cond then Some k
       else do { f \<leftarrow> c_int (ugc_test_failures k + 1); Some (k\<lparr>ugc_test_failures := f\<rparr>) }
     }"

definition ugc_test_summary :: "harness \<Rightarrow> int" where
  "ugc_test_summary k = (if ugc_test_failures k \<noteq> 0 then 1 else 0)"

text \<open>The harness after \<open>n\<close> checks, none of which failed.\<close>

definition passed :: "nat \<Rightarrow> harness" where
  "passed n = \<lparr>ugc_test_checks = int n, ugc_test_failures = 0\<rparr>"

lemma CHECK_passed [simp]: "n < 2 ^ 31 - 1 \<Longrightarrow> CHECK True (passed n) = Some (passed (Suc n))"
  by (simp add: CHECK_def passed_def)

lemma passed_eq [simp]: "passed m = passed n \<longleftrightarrow> m = n"
  by (simp add: passed_def)

end
