(* ===== verification/Handle_Tests.thy ===== *)
theory Handle_Tests
  imports Handle_Slots Test_Harness
begin

text \<open>
  The unit tests of the handle store (\<open>tests/test_core_handles.c\<close>) as programs over the model,
  with the harness of \<open>Test_Harness\<close>. The addresses of the tests' variables are parameters.
  Running them is proved, not evaluated: every check of every test passes for every layout,
  every initial state of the globals, and every place of the variables the linker may choose.
  The handle store allocates nothing, so the summary has no block to free.
\<close>

section \<open>The variables\<close>

text \<open>The variables of the test program: four objects, and the locals whose address is taken.\<close>

record 'p test_vars =
  obj_a :: 'p
  obj_b :: 'p
  obj_c :: 'p
  extra_a :: 'p
  local_int :: 'p
  local_slot :: 'p

definition vars_ok :: "'w::len word layout \<Rightarrow> 'w word test_vars \<Rightarrow> bool" where
  "vars_ok lay v \<longleftrightarrow>
     distinct [0, obj_a v, obj_b v, obj_c v] \<and> local_slot v \<noteq> 0 \<and>
     apart (span (local_int v) 1) (span (addr_handles lay) (array_bytes TYPE('w))) \<and>
     apart (span (local_slot v) 1) (span (addr_handles lay) (array_bytes TYPE('w))) \<and>
     apart (span (local_slot v) 1) (span (addr_dependent lay) (array_bytes TYPE('w)))"

type_synonym 'w test = "harness \<times> 'w word gstate \<Rightarrow> (harness \<times> 'w word gstate) option"

section \<open>Creating\<close>

definition test_create_basic :: "'w::len word layout \<Rightarrow> 'w word test_vars \<Rightarrow> 'w test" where
  "test_create_basic lay v st =
     do {
       let (k, s) = st;
       s \<leftarrow> ugc_handle_store_reset s;
       (h, s) \<leftarrow> ugc_handle_create lay (obj_a v) 1 s;
       k \<leftarrow> CHECK (h \<noteq> 0) k;
       x \<leftarrow> load_slot lay h s;
       k \<leftarrow> CHECK (x = obj_a v) k;
       k \<leftarrow> CHECK (ugc_handle_count s = 1) k;
       t \<leftarrow> ugc_handle_get_type_at (ugc_handle_index lay h) s;
       k \<leftarrow> CHECK (t = 1) k;
       k \<leftarrow> CHECK (ugc_handle_index lay h = 0) k;
       Some (k, s)
     }"

text \<open>\<open>h + 1\<close> on a \<open>void **\<close> is the address one pointer further.\<close>

definition test_create_sequential_slots ::
  "'w::len word layout \<Rightarrow> 'w word test_vars \<Rightarrow> 'w test" where
  "test_create_sequential_slots lay v st =
     do {
       let (k, s) = st;
       s \<leftarrow> ugc_handle_store_reset s;
       (h1, s) \<leftarrow> ugc_handle_create lay (obj_a v) 1 s;
       (h2, s) \<leftarrow> ugc_handle_create lay (obj_b v) 2 s;
       k \<leftarrow> CHECK (h1 \<noteq> 0 \<and> h2 \<noteq> 0) k;
       k \<leftarrow> CHECK (h2 = h1 + of_nat (ptr_bytes TYPE('w))) k;
       k \<leftarrow> CHECK (ugc_handle_index lay h2 = 1) k;
       t1 \<leftarrow> ugc_handle_get_type_at (ugc_handle_index lay h1) s;
       k \<leftarrow> CHECK (t1 = 1) k;
       t2 \<leftarrow> ugc_handle_get_type_at (ugc_handle_index lay h2) s;
       k \<leftarrow> CHECK (t2 = 2) k;
       Some (k, s)
     }"

definition test_create_with_extra :: "'w::len word layout \<Rightarrow> 'w word test_vars \<Rightarrow> 'w test" where
  "test_create_with_extra lay v st =
     do {
       let (k, s) = st;
       s \<leftarrow> ugc_handle_store_reset s;
       (h, s) \<leftarrow> ugc_handle_create_with_extra lay (obj_a v) 5 (extra_a v) s;
       k \<leftarrow> CHECK (h \<noteq> 0) k;
       x \<leftarrow> load_slot lay h s;
       k \<leftarrow> CHECK (x = obj_a v) k;
       e \<leftarrow> ugc_handle_get_extra_at (ugc_handle_index lay h) s;
       k \<leftarrow> CHECK (e = extra_a v) k;
       t \<leftarrow> ugc_handle_get_type_at (ugc_handle_index lay h) s;
       k \<leftarrow> CHECK (t = 5) k;
       Some (k, s)
     }"

definition test_dependent_handles :: "'w::len word layout \<Rightarrow> 'w word test_vars \<Rightarrow> 'w test" where
  "test_dependent_handles lay v st =
     do {
       let (k, s) = st;
       s \<leftarrow> ugc_handle_store_reset s;
       (h, s) \<leftarrow> ugc_handle_create_dependent lay (obj_a v) (obj_b v) 6 s;
       k \<leftarrow> CHECK (h \<noteq> 0) k;
       x \<leftarrow> load_slot lay h s;
       k \<leftarrow> CHECK (x = obj_a v) k;
       t \<leftarrow> ugc_handle_get_type_at (ugc_handle_index lay h) s;
       k \<leftarrow> CHECK (t = 6) k;
       slot \<leftarrow> ugc_handle_dependent_slot_at lay (ugc_handle_index lay h);
       k \<leftarrow> CHECK (slot \<noteq> 0) k;
       y \<leftarrow> load_slot lay slot s;
       k \<leftarrow> CHECK (y = obj_b v) k;
       s \<leftarrow> ugc_handle_set_dependent_at (ugc_handle_index lay h) (obj_c v) s;
       z \<leftarrow> load_slot lay slot s;
       k \<leftarrow> CHECK (z = obj_c v) k;
       Some (k, s)
     }"

definition test_set_type_and_extra :: "'w::len word layout \<Rightarrow> 'w word test_vars \<Rightarrow> 'w test" where
  "test_set_type_and_extra lay v st =
     do {
       let (k, s) = st;
       s \<leftarrow> ugc_handle_store_reset s;
       (h, s) \<leftarrow> ugc_handle_create lay (obj_a v) 1 s;
       k \<leftarrow> CHECK (h \<noteq> 0) k;
       s \<leftarrow> ugc_handle_set_type_at (ugc_handle_index lay h) 7 s;
       t \<leftarrow> ugc_handle_get_type_at (ugc_handle_index lay h) s;
       k \<leftarrow> CHECK (t = 7) k;
       s \<leftarrow> ugc_handle_set_extra_at (ugc_handle_index lay h) (extra_a v) s;
       e \<leftarrow> ugc_handle_get_extra_at (ugc_handle_index lay h) s;
       k \<leftarrow> CHECK (e = extra_a v) k;
       Some (k, s)
     }"

definition test_contains :: "'w::len word layout \<Rightarrow> 'w word test_vars \<Rightarrow> 'w test" where
  "test_contains lay v st =
     do {
       let (k, s) = st;
       s \<leftarrow> ugc_handle_store_reset s;
       (h, s) \<leftarrow> ugc_handle_create lay (obj_a v) 1 s;
       k \<leftarrow> CHECK (ugc_handle_store_contains lay h) k;
       k \<leftarrow> CHECK (\<not> ugc_handle_store_contains lay (local_int v)) k;
       k \<leftarrow> CHECK (\<not> ugc_handle_store_contains lay 0) k;
       k \<leftarrow> CHECK (ugc_handle_store_contains lay (elem_addr (addr_handles lay) (UGC_HANDLE_COUNT - 1))) k;
       k \<leftarrow> CHECK (\<not> ugc_handle_store_contains lay (elem_addr (addr_handles lay) UGC_HANDLE_COUNT)) k;
       Some (k, s)
     }"

section \<open>Exhaustion\<close>

text \<open>The loop that fills the store: at most \<open>n\<close> more rounds, left early after a failed create.
  The handle of the last round is the result.\<close>

primrec fill_loop ::
  "'w::len word layout \<Rightarrow> 'w word test_vars \<Rightarrow> nat \<Rightarrow> 'w word \<Rightarrow> harness \<times> 'w word gstate \<Rightarrow>
   ('w word \<times> harness \<times> 'w word gstate) option" where
  "fill_loop lay v 0 h st = Some (h, st)"
| "fill_loop lay v (Suc n) h st =
     do {
       let (k, s) = st;
       (h, s) \<leftarrow> ugc_handle_create lay (obj_a v) 0 s;
       k \<leftarrow> CHECK (h \<noteq> 0) k;
       if h = 0 then Some (h, k, s) else fill_loop lay v n h (k, s)
     }"

definition test_store_exhaustion :: "'w::len word layout \<Rightarrow> 'w word test_vars \<Rightarrow> 'w test" where
  "test_store_exhaustion lay v st =
     do {
       let (k, s) = st;
       s \<leftarrow> ugc_handle_store_reset s;
       (h, k, s) \<leftarrow> fill_loop lay v UGC_HANDLE_COUNT 0 (k, s);
       k \<leftarrow> CHECK (ugc_handle_count s = int UGC_HANDLE_COUNT) k;
       (h1, s) \<leftarrow> ugc_handle_create lay (obj_b v) 0 s;
       k \<leftarrow> CHECK (h1 = 0) k;
       (h2, s) \<leftarrow> ugc_handle_create_with_extra lay (obj_b v) 0 (extra_a v) s;
       k \<leftarrow> CHECK (h2 = 0) k;
       (h3, s) \<leftarrow> ugc_handle_create_dependent lay (obj_b v) (obj_c v) 6 s;
       k \<leftarrow> CHECK (h3 = 0) k;
       k \<leftarrow> CHECK (ugc_handle_count s = int UGC_HANDLE_COUNT) k;
       s \<leftarrow> ugc_handle_destroy_at 0 s;
       (h, s) \<leftarrow> ugc_handle_create lay (obj_b v) 3 s;
       k \<leftarrow> CHECK (h = elem_addr (addr_handles lay) 0) k;
       x \<leftarrow> load_slot lay h s;
       k \<leftarrow> CHECK (x = obj_b v) k;
       (h4, s) \<leftarrow> ugc_handle_create lay (obj_c v) 0 s;
       k \<leftarrow> CHECK (h4 = 0) k;
       s \<leftarrow> ugc_handle_store_reset s;
       k \<leftarrow> CHECK (ugc_handle_count s = 0) k;
       Some (k, s)
     }"

section \<open>Destroying\<close>

definition test_destroy_and_reuse :: "'w::len word layout \<Rightarrow> 'w word test_vars \<Rightarrow> 'w test" where
  "test_destroy_and_reuse lay v st =
     do {
       let (k, s) = st;
       s \<leftarrow> ugc_handle_store_reset s;
       (h1, s) \<leftarrow> ugc_handle_create_with_extra lay (obj_a v) 1 (extra_a v) s;
       (h2, s) \<leftarrow> ugc_handle_create_dependent lay (obj_b v) (obj_c v) 6 s;
       k \<leftarrow> CHECK (h1 \<noteq> 0 \<and> h2 \<noteq> 0) k;
       s \<leftarrow> ugc_handle_destroy_at (ugc_handle_index lay h1) s;
       x \<leftarrow> load_slot lay h1 s;
       k \<leftarrow> CHECK (x = 0) k;
       t \<leftarrow> ugc_handle_get_type_at (ugc_handle_index lay h1) s;
       k \<leftarrow> CHECK (t = UGC_HANDLE_TYPE_FREE) k;
       e \<leftarrow> ugc_handle_get_extra_at (ugc_handle_index lay h1) s;
       k \<leftarrow> CHECK (e = 0) k;
       k \<leftarrow> CHECK (ugc_handle_free_count s = 1) k;
       (h3, s) \<leftarrow> ugc_handle_create lay (obj_c v) 2 s;
       k \<leftarrow> CHECK (h3 = h1) k;
       x \<leftarrow> load_slot lay h3 s;
       k \<leftarrow> CHECK (x = obj_c v) k;
       t \<leftarrow> ugc_handle_get_type_at (ugc_handle_index lay h3) s;
       k \<leftarrow> CHECK (t = 2) k;
       e \<leftarrow> ugc_handle_get_extra_at (ugc_handle_index lay h3) s;
       k \<leftarrow> CHECK (e = 0) k;
       slot \<leftarrow> ugc_handle_dependent_slot_at lay (ugc_handle_index lay h3);
       d \<leftarrow> load_slot lay slot s;
       k \<leftarrow> CHECK (d = 0) k;
       k \<leftarrow> CHECK (ugc_handle_free_count s = 0) k;
       k \<leftarrow> CHECK (ugc_handle_count s = 2) k;
       Some (k, s)
     }"

definition test_double_destroy :: "'w::len word layout \<Rightarrow> 'w word test_vars \<Rightarrow> 'w test" where
  "test_double_destroy lay v st =
     do {
       let (k, s) = st;
       s \<leftarrow> ugc_handle_store_reset s;
       (h1, s) \<leftarrow> ugc_handle_create lay (obj_a v) 1 s;
       k \<leftarrow> CHECK (h1 \<noteq> 0) k;
       s \<leftarrow> ugc_handle_destroy_at (ugc_handle_index lay h1) s;
       k \<leftarrow> CHECK (ugc_handle_free_count s = 1) k;
       s \<leftarrow> ugc_handle_destroy_at (ugc_handle_index lay h1) s;
       k \<leftarrow> CHECK (ugc_handle_free_count s = 1) k;
       (h1, s) \<leftarrow> ugc_handle_create lay (obj_b v) 2 s;
       (h2, s) \<leftarrow> ugc_handle_create lay (obj_c v) 3 s;
       k \<leftarrow> CHECK (h1 \<noteq> 0 \<and> h2 \<noteq> 0) k;
       k \<leftarrow> CHECK (h1 \<noteq> h2) k;
       x \<leftarrow> load_slot lay h1 s;
       k \<leftarrow> CHECK (x = obj_b v) k;
       y \<leftarrow> load_slot lay h2 s;
       k \<leftarrow> CHECK (y = obj_c v) k;
       Some (k, s)
     }"

definition test_destroy_lifo_order :: "'w::len word layout \<Rightarrow> 'w word test_vars \<Rightarrow> 'w test" where
  "test_destroy_lifo_order lay v st =
     do {
       let (k, s) = st;
       s \<leftarrow> ugc_handle_store_reset s;
       (h1, s) \<leftarrow> ugc_handle_create lay (obj_a v) 1 s;
       (h2, s) \<leftarrow> ugc_handle_create lay (obj_b v) 1 s;
       (h3, s) \<leftarrow> ugc_handle_create lay (obj_c v) 1 s;
       k \<leftarrow> CHECK (h1 \<noteq> 0 \<and> h2 \<noteq> 0 \<and> h3 \<noteq> 0) k;
       s \<leftarrow> ugc_handle_destroy_at (ugc_handle_index lay h1) s;
       s \<leftarrow> ugc_handle_destroy_at (ugc_handle_index lay h3) s;
       k \<leftarrow> CHECK (ugc_handle_free_count s = 2) k;
       (r1, s) \<leftarrow> ugc_handle_create lay (obj_a v) 1 s;
       k \<leftarrow> CHECK (r1 = h3) k;
       (r2, s) \<leftarrow> ugc_handle_create lay (obj_a v) 1 s;
       k \<leftarrow> CHECK (r2 = h1) k;
       k \<leftarrow> CHECK (ugc_handle_free_count s = 0) k;
       k \<leftarrow> CHECK (ugc_handle_count s = 3) k;
       Some (k, s)
     }"

section \<open>Slots\<close>

text \<open>\<open>void *slot = v;\<close> makes a variable at the address of the local.\<close>

definition declare_slot :: "'w::len word \<Rightarrow> 'w word \<Rightarrow> 'w word gstate \<Rightarrow> 'w word gstate" where
  "declare_slot p x s = s\<lparr>cells := (cells s)(p \<mapsto> x)\<rparr>"

definition test_slot_store :: "'w::len word layout \<Rightarrow> 'w word test_vars \<Rightarrow> 'w test" where
  "test_slot_store lay v st =
     do {
       let (k, s) = st;
       let s = declare_slot (local_slot v) 0 s;
       s \<leftarrow> ugc_handle_slot_store lay (local_slot v) (obj_a v) s;
       x \<leftarrow> load_slot lay (local_slot v) s;
       k \<leftarrow> CHECK (x = obj_a v) k;
       s \<leftarrow> ugc_handle_slot_store lay (local_slot v) 0 s;
       x \<leftarrow> load_slot lay (local_slot v) s;
       k \<leftarrow> CHECK (x = 0) k;
       Some (k, s)
     }"

definition test_slot_store_if_null :: "'w::len word layout \<Rightarrow> 'w word test_vars \<Rightarrow> 'w test" where
  "test_slot_store_if_null lay v st =
     do {
       let (k, s) = st;
       let s = declare_slot (local_slot v) 0 s;
       (b, s) \<leftarrow> ugc_handle_slot_store_if_null lay (local_slot v) (obj_a v) s;
       k \<leftarrow> CHECK b k;
       x \<leftarrow> load_slot lay (local_slot v) s;
       k \<leftarrow> CHECK (x = obj_a v) k;
       (b, s) \<leftarrow> ugc_handle_slot_store_if_null lay (local_slot v) (obj_b v) s;
       k \<leftarrow> CHECK (\<not> b) k;
       x \<leftarrow> load_slot lay (local_slot v) s;
       k \<leftarrow> CHECK (x = obj_a v) k;
       Some (k, s)
     }"

definition test_slot_cas :: "'w::len word layout \<Rightarrow> 'w word test_vars \<Rightarrow> 'w test" where
  "test_slot_cas lay v st =
     do {
       let (k, s) = st;
       let s = declare_slot (local_slot v) (obj_a v) s;
       (r, s) \<leftarrow> ugc_handle_slot_cas lay (local_slot v) (obj_c v) (obj_b v) s;
       k \<leftarrow> CHECK (r = obj_a v) k;
       x \<leftarrow> load_slot lay (local_slot v) s;
       k \<leftarrow> CHECK (x = obj_a v) k;
       (r, s) \<leftarrow> ugc_handle_slot_cas lay (local_slot v) (obj_c v) (obj_a v) s;
       k \<leftarrow> CHECK (r = obj_c v) k;
       x \<leftarrow> load_slot lay (local_slot v) s;
       k \<leftarrow> CHECK (x = obj_c v) k;
       Some (k, s)
     }"

definition handle_tests_main ::
  "'w::len word layout \<Rightarrow> 'w word test_vars \<Rightarrow> 'w word gstate \<Rightarrow>
   (int \<times> harness \<times> 'w word gstate) option" where
  "handle_tests_main lay v s =
     do {
       st \<leftarrow> test_create_basic lay v (\<lparr>ugc_test_checks = 0, ugc_test_failures = 0\<rparr>, s);
       st \<leftarrow> test_create_sequential_slots lay v st;
       st \<leftarrow> test_create_with_extra lay v st;
       st \<leftarrow> test_dependent_handles lay v st;
       st \<leftarrow> test_set_type_and_extra lay v st;
       st \<leftarrow> test_contains lay v st;
       st \<leftarrow> test_store_exhaustion lay v st;
       st \<leftarrow> test_destroy_and_reuse lay v st;
       st \<leftarrow> test_double_destroy lay v st;
       st \<leftarrow> test_destroy_lifo_order lay v st;
       st \<leftarrow> test_slot_store lay v st;
       st \<leftarrow> test_slot_store_if_null lay v st;
       (k, s) \<leftarrow> test_slot_cas lay v st;
       Some (ugc_test_summary k, k, s)
     }"

section \<open>Every test passes\<close>

text \<open>The operations of the store, on states whose two counters are known.\<close>

lemma count_pos [simp]: "0 < UGC_HANDLE_COUNT" "Suc 0 < UGC_HANDLE_COUNT" "2 < UGC_HANDLE_COUNT"
  by (simp_all add: UGC_HANDLE_COUNT_def)

lemma create_next:
  assumes "ugc_handle_free_count s = 0" and "ugc_handle_count s = int n" and "n < UGC_HANDLE_COUNT"
  shows "create_slot lay ob t e d s =
    Some (elem_addr (addr_handles lay) n, filled n ob t e d (s\<lparr>ugc_handle_count := int n + 1\<rparr>))"
proof -
  have "ugc_store_consistent s" using assms by (simp add: ugc_store_consistent_def)
  from create_fresh [OF this] assms show ?thesis by simp
qed

lemma create_reuses:
  assumes "ugc_handle_free_count s = int k + 1" and "k < UGC_HANDLE_COUNT"
    and "ugc_handle_free_stack s k = int i" and "i < UGC_HANDLE_COUNT"
  shows "create_slot lay ob t e d s =
    Some (elem_addr (addr_handles lay) i, filled i ob t e d (s\<lparr>ugc_handle_free_count := int k\<rparr>))"
proof -
  have "c_int (int k) = Some (int k)" using assms(2) by (simp add: c_int_def UGC_HANDLE_COUNT_def)
  with assms show ?thesis
    by (simp add: create_slot_def ugc_handle_slot_acquire_def filled_def)
qed

lemma destroy_elem:
  fixes lay :: "'w::len word layout"
  assumes "layout_ok lay" and "i < UGC_HANDLE_COUNT" and "0 \<le> ugc_handle_types s i"
    and "ugc_handle_free_count s = int k" and "k < UGC_HANDLE_COUNT"
  shows "ugc_handle_destroy_at (ugc_handle_index lay (elem_addr (addr_handles lay) i)) s =
         Some (destroyed i s)"
  using assms destroy_frees [of "ugc_handle_index lay (elem_addr (addr_handles lay) i)" s]
  by (simp add: index_of_elem)

lemma uint_index_elem:
  fixes lay :: "'w::len word layout"
  assumes "layout_ok lay" and "i < UGC_HANDLE_COUNT"
  shows "uint (ugc_handle_index lay (elem_addr (addr_handles lay) i)) = int i"
  using index_of_elem [OF assms] by (metis of_nat_unat)

text \<open>The two counters after a reset.\<close>

lemma reset_counters:
  obtains s0 where "ugc_handle_store_reset s = Some s0" and "ugc_handle_count s0 = 0"
    and "ugc_handle_free_count s0 = 0" and "ugc_handle_types s0 0 = 0"
  by (rule that [OF store_reset_result]) (simp_all add: zero_from_def)

text \<open>Their instances for the slots the tests use.\<close>

lemma create_next_small:
  "\<lbrakk>ugc_handle_free_count s = 0; ugc_handle_count s = 0\<rbrakk> \<Longrightarrow>
   create_slot lay ob t e d s =
     Some (elem_addr (addr_handles lay) 0, filled 0 ob t e d (s\<lparr>ugc_handle_count := 1\<rparr>))"
  "\<lbrakk>ugc_handle_free_count s = 0; ugc_handle_count s = 1\<rbrakk> \<Longrightarrow>
   create_slot lay ob t e d s =
     Some (elem_addr (addr_handles lay) 1, filled 1 ob t e d (s\<lparr>ugc_handle_count := 2\<rparr>))"
  "\<lbrakk>ugc_handle_free_count s = 0; ugc_handle_count s = 2\<rbrakk> \<Longrightarrow>
   create_slot lay ob t e d s =
     Some (elem_addr (addr_handles lay) 2, filled 2 ob t e d (s\<lparr>ugc_handle_count := 3\<rparr>))"
proof -
  show "\<lbrakk>ugc_handle_free_count s = 0; ugc_handle_count s = 0\<rbrakk> \<Longrightarrow>
     create_slot lay ob t e d s =
       Some (elem_addr (addr_handles lay) 0, filled 0 ob t e d (s\<lparr>ugc_handle_count := 1\<rparr>))"
    using create_next [of s 0 lay ob t e d] by simp
  show "\<lbrakk>ugc_handle_free_count s = 0; ugc_handle_count s = 1\<rbrakk> \<Longrightarrow>
     create_slot lay ob t e d s =
       Some (elem_addr (addr_handles lay) 1, filled 1 ob t e d (s\<lparr>ugc_handle_count := 2\<rparr>))"
    using create_next [of s 1 lay ob t e d] by simp
  show "\<lbrakk>ugc_handle_free_count s = 0; ugc_handle_count s = 2\<rbrakk> \<Longrightarrow>
     create_slot lay ob t e d s =
       Some (elem_addr (addr_handles lay) 2, filled 2 ob t e d (s\<lparr>ugc_handle_count := 3\<rparr>))"
    using create_next [of s 2 lay ob t e d] by simp
qed

lemma create_reuses_small:
  "\<lbrakk>ugc_handle_free_count s = 1; ugc_handle_free_stack s 0 = 0\<rbrakk> \<Longrightarrow>
   create_slot lay ob t e d s =
     Some (elem_addr (addr_handles lay) 0, filled 0 ob t e d (s\<lparr>ugc_handle_free_count := 0\<rparr>))"
  "\<lbrakk>ugc_handle_free_count s = 2; ugc_handle_free_stack s 1 = 2\<rbrakk> \<Longrightarrow>
   create_slot lay ob t e d s =
     Some (elem_addr (addr_handles lay) 2, filled 2 ob t e d (s\<lparr>ugc_handle_free_count := 1\<rparr>))"
  using create_reuses [of s 0 0] create_reuses [of s 1 2] by simp_all

lemma destroy_elem_small:
  fixes lay :: "'w::len word layout"
  assumes "layout_ok lay" and "i < UGC_HANDLE_COUNT" and "0 \<le> ugc_handle_types s i"
    and "ugc_handle_free_count s = 0 \<or> ugc_handle_free_count s = 1"
  shows "ugc_handle_destroy_at (ugc_handle_index lay (elem_addr (addr_handles lay) i)) s =
         Some (destroyed i s)"
  using assms(4) destroy_elem [OF assms(1-3), of 0] destroy_elem [OF assms(1-3), of 1] by auto

lemma destroy_elem_again:
  fixes lay :: "'w::len word layout"
  assumes "layout_ok lay" and "i < UGC_HANDLE_COUNT" and "ugc_handle_types s i < 0"
  shows "ugc_handle_destroy_at (ugc_handle_index lay (elem_addr (addr_handles lay) i)) s = Some s"
  using assms by (intro destroy_noop) (simp_all add: index_of_elem)

lemma next_elem:
  fixes base :: "'w::len word"
  shows "elem_addr base (Suc 0) = elem_addr base 0 + of_nat (ptr_bytes TYPE('w))"
  by (simp add: elem_addr_def)

lemma past_end:
  fixes base :: "'w::len word"
  shows "elem_addr base UGC_HANDLE_COUNT = base + of_nat (array_bytes TYPE('w))"
  by (simp add: elem_addr_def array_bytes_def)

lemma word_of_index:
  fixes lay :: "'w::len word layout"
  assumes "layout_ok lay" and "i < UGC_HANDLE_COUNT"
  shows "ugc_handle_index lay (elem_addr (addr_handles lay) i) = of_nat i"
  using arg_cong [OF index_of_elem [OF assms], of "of_nat :: nat \<Rightarrow> 'w word"] by simp

lemmas run_tests = create_is_slot create_next_small create_reuses_small destroy_elem_small
  destroy_elem_again uint_index_elem load_handle load_dependent handle_addr(3) dependent_addr(1)
  elem_addr_inj [OF layout_target layout_handles] ugc_handle_get_type_at_def
  ugc_handle_get_extra_at_def ugc_handle_set_type_at_def ugc_handle_set_extra_at_def
  ugc_handle_set_dependent_at_def ugc_handle_dependent_slot_at_def index_of_elem

text \<open>Each test, from any state of the globals and any number of checks so far that leaves
  room for its own.\<close>

lemma create_basic_passes:
  fixes lay :: "'w::len word layout"
  assumes lay: "layout_ok lay" and "n < 2 ^ 30"
  shows "\<exists>s'. test_create_basic lay v (passed n, s) = Some (passed (n + 5), s')"
proof -
  obtain s0 where "ugc_handle_store_reset s = Some s0" "ugc_handle_count s0 = 0"
    "ugc_handle_free_count s0 = 0" by (rule reset_counters)
  then show ?thesis using assms word_of_index [OF lay, of 0]
    by (simp add: test_create_basic_def run_tests)
qed

lemma create_sequential_slots_passes:
  fixes lay :: "'w::len word layout"
  assumes lay: "layout_ok lay" and "n < 2 ^ 30"
  shows "\<exists>s'. test_create_sequential_slots lay v (passed n, s) = Some (passed (n + 5), s')"
proof -
  obtain s0 where "ugc_handle_store_reset s = Some s0" "ugc_handle_count s0 = 0"
    "ugc_handle_free_count s0 = 0" by (rule reset_counters)
  then show ?thesis using assms word_of_index [OF lay, of 1]
    by (simp add: test_create_sequential_slots_def run_tests flip: next_elem)
qed

lemma create_with_extra_passes:
  fixes lay :: "'w::len word layout"
  assumes lay: "layout_ok lay" and "n < 2 ^ 30"
  shows "\<exists>s'. test_create_with_extra lay v (passed n, s) = Some (passed (n + 4), s')"
proof -
  obtain s0 where "ugc_handle_store_reset s = Some s0" "ugc_handle_count s0 = 0"
    "ugc_handle_free_count s0 = 0" by (rule reset_counters)
  then show ?thesis using assms by (simp add: test_create_with_extra_def run_tests)
qed

lemma dependent_handles_passes:
  fixes lay :: "'w::len word layout"
  assumes lay: "layout_ok lay" and "n < 2 ^ 30"
  shows "\<exists>s'. test_dependent_handles lay v (passed n, s) = Some (passed (n + 6), s')"
proof -
  obtain s0 where "ugc_handle_store_reset s = Some s0" "ugc_handle_count s0 = 0"
    "ugc_handle_free_count s0 = 0" by (rule reset_counters)
  then show ?thesis using assms by (simp add: test_dependent_handles_def run_tests)
qed

lemma set_type_and_extra_passes:
  fixes lay :: "'w::len word layout"
  assumes lay: "layout_ok lay" and "n < 2 ^ 30"
  shows "\<exists>s'. test_set_type_and_extra lay v (passed n, s) = Some (passed (n + 3), s')"
proof -
  obtain s0 where "ugc_handle_store_reset s = Some s0" "ugc_handle_count s0 = 0"
    "ugc_handle_free_count s0 = 0" by (rule reset_counters)
  then show ?thesis using assms by (simp add: test_set_type_and_extra_def run_tests)
qed

lemma contains_passes:
  fixes lay :: "'w::len word layout"
  assumes lay: "layout_ok lay" and v: "vars_ok lay v" and "n < 2 ^ 30"
  shows "\<exists>s'. test_contains lay v (passed n, s) = Some (passed (n + 5), s')"
proof -
  obtain s0 where "ugc_handle_store_reset s = Some s0" "ugc_handle_count s0 = 0"
    "ugc_handle_free_count s0 = 0" by (rule reset_counters)
  moreover have "\<not> ugc_handle_store_contains lay (local_int v)"
    using v by (auto simp: contains_iff [OF lay] vars_ok_def apart_def)
  moreover have "\<not> ugc_handle_store_contains lay 0"
    using layout_handles [OF lay] by (simp add: contains_iff [OF lay] array_at_def unat_eq_0)
  moreover have "\<not> ugc_handle_store_contains lay (elem_addr (addr_handles lay) UGC_HANDLE_COUNT)"
    using layout_handles [OF lay] unat_array_bytes [OF layout_target [OF lay]]
    by (simp add: contains_iff [OF lay] array_at_def past_end unat_add_small)
  moreover have "ugc_handle_store_contains lay (elem_addr (addr_handles lay) i)"
    if "i = 0 \<or> i = UGC_HANDLE_COUNT - 1" for i
    by (rule contains_elem [OF lay]) (use that in \<open>auto simp: UGC_HANDLE_COUNT_def\<close>)
  ultimately show ?thesis using assms by (simp add: test_contains_def run_tests)
qed

lemma destroy_and_reuse_passes:
  fixes lay :: "'w::len word layout"
  assumes lay: "layout_ok lay" and "n < 2 ^ 30"
  shows "\<exists>s'. test_destroy_and_reuse lay v (passed n, s) = Some (passed (n + 12), s')"
proof -
  obtain s0 where "ugc_handle_store_reset s = Some s0" "ugc_handle_count s0 = 0"
    "ugc_handle_free_count s0 = 0" by (rule reset_counters)
  then show ?thesis using assms by (simp add: test_destroy_and_reuse_def run_tests)
qed

lemma double_destroy_passes:
  fixes lay :: "'w::len word layout"
  assumes lay: "layout_ok lay" and "n < 2 ^ 30"
  shows "\<exists>s'. test_double_destroy lay v (passed n, s) = Some (passed (n + 7), s')"
proof -
  obtain s0 where "ugc_handle_store_reset s = Some s0" "ugc_handle_count s0 = 0"
    "ugc_handle_free_count s0 = 0" by (rule reset_counters)
  then show ?thesis using assms by (simp add: test_double_destroy_def run_tests UGC_HANDLE_TYPE_FREE_def)
qed

lemma destroy_lifo_order_passes:
  fixes lay :: "'w::len word layout"
  assumes lay: "layout_ok lay" and "n < 2 ^ 30"
  shows "\<exists>s'. test_destroy_lifo_order lay v (passed n, s) = Some (passed (n + 6), s')"
proof -
  obtain s0 where "ugc_handle_store_reset s = Some s0" "ugc_handle_count s0 = 0"
    "ugc_handle_free_count s0 = 0" by (rule reset_counters)
  then show ?thesis using assms by (simp add: test_destroy_lifo_order_def run_tests)
qed

text \<open>The filling loop takes every slot that is left, one check per round.\<close>

lemma fill_loop_fills:
  "\<lbrakk>layout_ok lay; ugc_handle_free_count s = 0; ugc_handle_count s = int c;
    c + m = UGC_HANDLE_COUNT; n < 2 ^ 30; n + m < 2 ^ 30; ugc_handle_types s 0 = 0\<rbrakk> \<Longrightarrow>
   \<exists>h' s'. fill_loop lay v m h (passed n, s) = Some (h', passed (n + m), s') \<and>
     ugc_handle_free_count s' = 0 \<and> ugc_handle_count s' = int UGC_HANDLE_COUNT \<and>
     ugc_handle_types s' 0 = 0"
proof (induction m arbitrary: c n h s)
  case (Suc m)
  let ?h = "elem_addr (addr_handles lay) c"
  let ?s = "filled c (obj_a v) 0 0 0 (s\<lparr>ugc_handle_count := int c + 1\<rparr>)"
  have c: "c < UGC_HANDLE_COUNT" using Suc.prems(4) by simp
  have "\<exists>h' s'. fill_loop lay v m ?h (passed (Suc n), ?s) = Some (h', passed (Suc n + m), s') \<and>
     ugc_handle_free_count s' = 0 \<and> ugc_handle_count s' = int UGC_HANDLE_COUNT \<and>
     ugc_handle_types s' 0 = 0"
    using Suc.prems by (intro Suc.IH [where c = "Suc c"]) auto
  moreover have "fill_loop lay v (Suc m) h (passed n, s) = fill_loop lay v m ?h (passed (Suc n), ?s)"
    using Suc.prems c handle_addr(3) [OF Suc.prems(1) c]
    by (simp add: create_is_slot create_next [OF _ _ c])
  ultimately show ?case by simp
qed simp

lemma store_exhaustion_passes:
  fixes lay :: "'w::len word layout"
  assumes lay: "layout_ok lay" and n: "n < 2 ^ 29"
  shows "\<exists>s'. test_store_exhaustion lay v (passed n, s) =
    Some (passed (n + UGC_HANDLE_COUNT + 9), s')"
proof -
  obtain s0 where s0: "ugc_handle_store_reset s = Some s0" "ugc_handle_count s0 = 0"
    "ugc_handle_free_count s0 = 0" "ugc_handle_types s0 0 = 0" by (rule reset_counters)
  have m: "n + UGC_HANDLE_COUNT < 2 ^ 30" using n by (simp add: UGC_HANDLE_COUNT_def)
  obtain h s1 where f: "fill_loop lay v UGC_HANDLE_COUNT 0 (passed n, s0) =
      Some (h, passed (n + UGC_HANDLE_COUNT), s1)"
    and s1: "ugc_handle_free_count s1 = 0" "ugc_handle_count s1 = int UGC_HANDLE_COUNT"
      "ugc_handle_types s1 0 = 0"
    using fill_loop_fills [OF lay s0(3), where c = 0 and m = UGC_HANDLE_COUNT and n = n] s0 n m
    by fastforce
  let ?s2 = "destroyed 0 s1" and ?e = "elem_addr (addr_handles lay) 0"
  let ?s3 = "filled 0 (obj_b v) 3 0 0 (?s2\<lparr>ugc_handle_free_count := 0\<rparr>)"
  have d: "ugc_handle_destroy_at 0 s1 = Some ?s2" using s1 by (simp add: destroy_frees)
  have c: "create_slot lay (obj_b v) 3 0 0 ?s2 = Some (?e, ?s3)"
    using s1 by (intro create_reuses_small(1)) simp_all
  obtain s4 where "ugc_handle_store_reset ?s3 = Some s4" "ugc_handle_count s4 = 0"
    by (rule reset_counters)
  with s0 s1 f d c m load_handle [OF lay, of 0 ?s3] show ?thesis
    by (simp add: test_store_exhaustion_def create_is_slot create_full)
qed

text \<open>A variable apart from the arrays is neither's element.\<close>

lemma slot_of_apart:
  fixes base :: "'w::len word"
  assumes "rv_target TYPE('w)" and "array_at base"
    and "apart (span p 1) (span base (array_bytes TYPE('w)))"
  shows "slot_of base p = None"
proof (rule ccontr)
  assume "slot_of base p \<noteq> None"
  then obtain i where i: "i < UGC_HANDLE_COUNT" "p = elem_addr base i" using slot_of_Some by blast
  with elem_addr_unat [OF assms(1,2) i(1)] elem_offset [OF i(1), where 'w = 'w]
    ptr_bytes_pos [OF assms(1)] assms(3)
  show False by (simp add: apart_def)
qed

lemma local_access:
  fixes lay :: "'w::len word layout"
  assumes lay: "layout_ok lay" and v: "vars_ok lay v" and x: "cells s (local_slot v) = Some x"
  shows "load_slot lay (local_slot v) s = Some x"
    and "save_slot lay (local_slot v) y s = Some (declare_slot (local_slot v) y s)"
proof -
  have "slot_of (addr_handles lay) (local_slot v) = None"
    and "slot_of (addr_dependent lay) (local_slot v) = None"
    using v by (intro slot_of_apart layout_target [OF lay] layout_handles [OF lay]
        layout_dependent [OF lay]; simp add: vars_ok_def)+
  with v x show "load_slot lay (local_slot v) s = Some x"
    and "save_slot lay (local_slot v) y s = Some (declare_slot (local_slot v) y s)"
    by (auto simp: load_slot_def save_slot_def load_cell_def store_cell_def declare_slot_def
        vars_ok_def)
qed

lemma cells_declare [simp]: "cells (declare_slot p x s) p = Some x"
  by (simp add: declare_slot_def)

lemma slot_tests_pass:
  fixes lay :: "'w::len word layout"
  assumes lay: "layout_ok lay" and v: "vars_ok lay v" and "n < 2 ^ 30"
  shows "\<exists>s'. test_slot_store lay v (passed n, s) = Some (passed (n + 2), s')"
    and "\<exists>s'. test_slot_store_if_null lay v (passed n, s) = Some (passed (n + 4), s')"
    and "\<exists>s'. test_slot_cas lay v (passed n, s) = Some (passed (n + 4), s')"
proof -
  have "obj_a v \<noteq> 0" "obj_a v \<noteq> obj_b v" using v by (auto simp: vars_ok_def)
  then show "\<exists>s'. test_slot_store lay v (passed n, s) = Some (passed (n + 2), s')"
    and "\<exists>s'. test_slot_store_if_null lay v (passed n, s) = Some (passed (n + 4), s')"
    and "\<exists>s'. test_slot_cas lay v (passed n, s) = Some (passed (n + 4), s')"
    using assms
    by (simp_all add: test_slot_store_def test_slot_store_if_null_def test_slot_cas_def
        ugc_handle_slot_store_def ugc_handle_slot_store_if_null_def ugc_handle_slot_cas_def
        local_access [OF lay v])
qed

lemma after_test:
  assumes "\<exists>s'. t (passed n, s) = Some (passed m, s')"
    and "\<And>s. \<exists>k s'. f (passed m, s) = Some (0, k, s') \<and> ugc_test_failures k = 0"
  shows "\<exists>k s'. t (passed n, s) \<bind> f = Some (0, k, s') \<and> ugc_test_failures k = 0"
  using assms by (auto simp del: split_paired_Ex)

text \<open>The program exits with 0 and has counted no failure.\<close>

lemma handle_tests_run:
  fixes lay :: "'w::len word layout"
  assumes lay: "layout_ok lay" and v: "vars_ok lay v"
  shows "\<exists>k s'. handle_tests_main lay v s = Some (0, k, s') \<and> ugc_test_failures k = 0"
proof -
  have start: "\<lparr>ugc_test_checks = 0, ugc_test_failures = 0\<rparr> = passed 0" by (simp add: passed_def)
  have finish: "ugc_test_summary (passed n) = 0" "ugc_test_failures (passed n) = 0" for n
    by (simp_all add: ugc_test_summary_def passed_def)
  show ?thesis unfolding handle_tests_main_def start
    by (rule after_test, rule create_basic_passes [OF lay], simp,
        rule after_test, rule create_sequential_slots_passes [OF lay], simp,
        rule after_test, rule create_with_extra_passes [OF lay], simp,
        rule after_test, rule dependent_handles_passes [OF lay], simp,
        rule after_test, rule set_type_and_extra_passes [OF lay], simp,
        rule after_test, rule contains_passes [OF lay v], simp,
        rule after_test, rule store_exhaustion_passes [OF lay], simp,
        rule after_test, rule destroy_and_reuse_passes [OF lay], simp add: UGC_HANDLE_COUNT_def,
        rule after_test, rule double_destroy_passes [OF lay], simp add: UGC_HANDLE_COUNT_def,
        rule after_test, rule destroy_lifo_order_passes [OF lay], simp add: UGC_HANDLE_COUNT_def,
        rule after_test, rule slot_tests_pass(1) [OF lay v], simp add: UGC_HANDLE_COUNT_def,
        rule after_test, rule slot_tests_pass(2) [OF lay v], simp add: UGC_HANDLE_COUNT_def,
        rule after_test, rule slot_tests_pass(3) [OF lay v], simp add: UGC_HANDLE_COUNT_def,
        simp add: finish)
qed

end
