(* ===== verification/Test_Zalloc.thy ===== *)
theory Test_Zalloc
  imports Core_Alloc
begin

text \<open>
  The recording allocator of the unit tests (\<open>tests/test_zalloc.c\<close>), which takes the place of
  \<open>ugc_zalloc.c\<close> in the test programs: a second provider of the interface
  \<open>zeroing_allocator\<close>. It works on 64-bit hosts, on the core's memory extended by its own
  two globals, and \<open>ugc_test_free_all\<close> gives back all it recorded.
\<close>

section \<open>The code\<close>

definition UGC_TEST_MAX_BLOCKS :: nat where
  "UGC_TEST_MAX_BLOCKS = 64"

record test_mem = "64 word cmem" +
  ugc_test_blocks :: "64 word carray"
  ugc_test_nblocks :: "64 word"

text \<open>The allocator. The interface has no undefined behaviour, so the element is assigned
  without a test of the index; \<open>zalloc_in_bounds\<close> below shows that it is in range.\<close>

definition ugc_test_zalloc :: "64 word \<Rightarrow> test_mem \<Rightarrow> 64 word \<times> test_mem" where
  "ugc_test_zalloc n m =
     (if ugc_test_nblocks m = of_nat UGC_TEST_MAX_BLOCKS then (0, m)
      else case calloc n 1 m of (block, m) \<Rightarrow>
        if block \<noteq> 0
        then (block, m\<lparr>ugc_test_blocks := (ugc_test_blocks m)(unat (ugc_test_nblocks m) := block),
                       ugc_test_nblocks := ugc_test_nblocks m + 1\<rparr>)
        else (block, m))"

text \<open>The standard library's \<open>free\<close>: of a null pointer nothing, of anything but the start of
  a live block undefined.\<close>

fun without_block :: "'p \<Rightarrow> ('p \<times> 'p) list \<Rightarrow> ('p \<times> 'p) list" where
  "without_block p [] = []"
| "without_block p (b # bs) = (if fst b = p then bs else b # without_block p bs)"

definition free_block ::
  "'w::len word \<Rightarrow> ('w word, 'm) cmem_scheme \<Rightarrow> ('w word, 'm) cmem_scheme option" where
  "free_block p m =
     (if p = 0 then Some m
      else if p \<in> fst ` set (blocks m) then Some (m\<lparr>blocks := without_block p (blocks m)\<rparr>)
      else None)"

lemma unat_pred: "0 < (x :: 'w::len word) \<Longrightarrow> unat (x - 1) = unat x - 1"
  by (simp add: unat_minus_one word_neq_0_conv)

lemma free_block_nblocks: "free_block p m = Some m' \<Longrightarrow> ugc_test_nblocks m' = ugc_test_nblocks m"
  by (auto simp: free_block_def split: if_splits)

text \<open>\<open>while (n > 0) free(blocks[--n])\<close>.\<close>

function ugc_test_free_all :: "test_mem \<Rightarrow> test_mem option" where
  "ugc_test_free_all m =
     (if ugc_test_nblocks m > 0 then do {
        let i = ugc_test_nblocks m - 1;
        p \<leftarrow> ard UGC_TEST_MAX_BLOCKS (ugc_test_blocks m) (uint i);
        m \<leftarrow> free_block p (m\<lparr>ugc_test_nblocks := i\<rparr>);
        ugc_test_free_all m
      }
      else Some m)"
  by pat_completeness auto
termination
  by (relation "measure (\<lambda>m. unat (ugc_test_nblocks m))")
    (auto simp: unat_pred word_less_nat_alt dest!: free_block_nblocks)

declare ugc_test_free_all.simps [simp del]

section \<open>It is a zeroing allocator\<close>

lemma test_zalloc_cases:
  assumes "ugc_test_zalloc n m = (p, m')"
  obtains (full) "ugc_test_nblocks m = 64" "p = 0" "m' = m"
  | (null) "calloc n 1 m = (0, m')" "p = 0"
  | (block) m1 where "ugc_test_nblocks m \<noteq> 64" "p \<noteq> 0" "calloc n 1 m = (p, m1)"
      "m' = m1\<lparr>ugc_test_blocks := (ugc_test_blocks m1)(unat (ugc_test_nblocks m1) := p),
               ugc_test_nblocks := ugc_test_nblocks m1 + 1\<rparr>"
proof (cases "ugc_test_nblocks m = 64")
  case True
  with assms show ?thesis
    by (intro full) (simp_all add: ugc_test_zalloc_def UGC_TEST_MAX_BLOCKS_def)
next
  case False
  obtain a m1 where c: "calloc n 1 m = (a, m1)" by fastforce
  show ?thesis
  proof (cases "a = 0")
    case True
    with assms c False show ?thesis
      by (intro null) (simp_all add: ugc_test_zalloc_def UGC_TEST_MAX_BLOCKS_def)
  next
    case a: False
    with assms c False have "p = a" "m' = m1
        \<lparr>ugc_test_blocks := (ugc_test_blocks m1)(unat (ugc_test_nblocks m1) := a),
         ugc_test_nblocks := ugc_test_nblocks m1 + 1\<rparr>"
      by (auto simp: ugc_test_zalloc_def UGC_TEST_MAX_BLOCKS_def)
    with c a False block show ?thesis by blast
  qed
qed

lemma calloc_frame:
  assumes "calloc nmemb sz m = (p, m')"
  shows "cells m' = cells m" and "i64s m' = i64s m"
    and "ugc_test_blocks m' = ugc_test_blocks m" and "ugc_test_nblocks m' = ugc_test_nblocks m"
  using assms by (auto simp: calloc_def split: list.splits if_splits)

lemma calloc_null:
  "calloc nmemb sz m = (0, m') \<Longrightarrow> blocks m' = blocks m \<and> bytes m' = bytes m"
  by (auto simp: calloc_def calloc_places_def split: list.splits if_splits)

interpretation test_zalloc: zeroing_allocator ugc_test_zalloc
proof
  fix n p :: "64 word" and m m' :: test_mem
  show "ugc_test_zalloc n m = (p, m') \<Longrightarrow> cells m' = cells m \<and> i64s m' = i64s m"
    by (erule test_zalloc_cases) (auto dest: calloc_frame)
  show "ugc_test_zalloc n m = (0, m') \<Longrightarrow> blocks m' = blocks m \<and> bytes m' = bytes m"
    by (erule test_zalloc_cases) (auto dest: calloc_null)
  show "ugc_test_zalloc n m = (p, m') \<Longrightarrow> p \<noteq> 0 \<Longrightarrow>
      calloc_places (blocks m) p (unat n) \<and> blocks m' = (p, n) # blocks m \<and>
      bytes m' = zero_fill p (unat n) (bytes m)"
    by (erule test_zalloc_cases) (auto dest: calloc_blocks)
qed

section \<open>Every block is recorded\<close>

text \<open>The blocks given out since \<open>bs\<close> are on the record, the latest last.\<close>

definition recorded :: "(64 word \<times> 64 word) list \<Rightarrow> test_mem \<Rightarrow> bool" where
  "recorded bs m \<longleftrightarrow> unat (ugc_test_nblocks m) \<le> UGC_TEST_MAX_BLOCKS \<and>
     (\<exists>new. blocks m = new @ bs \<and> length new = unat (ugc_test_nblocks m) \<and>
        (\<forall>b \<in> set new. fst b \<noteq> 0) \<and>
        (\<forall>i < length new. ugc_test_blocks m (length new - Suc i) = fst (new ! i)))"

lemma recorded_frame [simp]:
  "recorded bs (m\<lparr>cells := c\<rparr>) = recorded bs m"
  "recorded bs (m\<lparr>bytes := f\<rparr>) = recorded bs m"
  by (simp_all add: recorded_def)

lemma nblocks_Suc:
  fixes x :: "64 word"
  assumes "unat x \<le> 64" and "x \<noteq> 64"
  shows "unat (x + 1) = Suc (unat x)" and "unat x < 64"
proof -
  have "unat x \<noteq> unat (64 :: 64 word)" using assms(2) by (metis word_unat_eq_iff)
  then show "unat x < 64" using assms(1) by simp
  then show "unat (x + 1) = Suc (unat x)" by (subst unat_add_small) simp_all
qed

text \<open>The element the allocator assigns is in the array, and one more block is recorded.\<close>

lemma zalloc_in_bounds:
  assumes "recorded bs m" and "ugc_test_nblocks m \<noteq> of_nat UGC_TEST_MAX_BLOCKS"
  shows "unat (ugc_test_nblocks m) < UGC_TEST_MAX_BLOCKS"
  using assms nblocks_Suc(2) [of "ugc_test_nblocks m"]
  by (simp add: recorded_def UGC_TEST_MAX_BLOCKS_def)

lemma zalloc_recorded:
  assumes r: "recorded bs m" and z: "ugc_test_zalloc n m = (p, m')"
  shows "recorded bs m'"
  using z
proof (cases rule: test_zalloc_cases)
  case full
  with r show ?thesis by simp
next
  case null
  with r show ?thesis using calloc_frame [OF null(1)] calloc_null [OF null(1)]
    by (simp add: recorded_def)
next
  case (block m1)
  note f = calloc_frame [OF block(3)] and b = calloc_blocks [OF block(3,2)]
  from r obtain new where new: "blocks m = new @ bs" "length new = unat (ugc_test_nblocks m)"
    "\<forall>b \<in> set new. fst b \<noteq> 0"
    "\<forall>i < length new. ugc_test_blocks m (length new - Suc i) = fst (new ! i)"
    and le: "unat (ugc_test_nblocks m) \<le> 64" by (auto simp: recorded_def UGC_TEST_MAX_BLOCKS_def)
  note s = nblocks_Suc [OF le block(1)]
  have "\<forall>i < Suc (length new).
      ((ugc_test_blocks m)(length new := p)) (length new - i) = fst (((p, n) # new) ! i)"
    using new(4) by (auto simp: nth_Cons split: nat.split)
  with new(1-3) block f b s show ?thesis
    by (auto simp: recorded_def UGC_TEST_MAX_BLOCKS_def intro!: exI [of _ "(p, n) # new"])
qed

text \<open>Freeing what is recorded gives back exactly the blocks given out: no block twice, no
  pointer that is not a block, and no leak.\<close>

lemma free_all_frees: "recorded bs m \<Longrightarrow> \<exists>m'. ugc_test_free_all m = Some m' \<and> blocks m' = bs"
proof (induction m rule: ugc_test_free_all.induct)
  case (1 m)
  from 1(2) obtain new where new: "blocks m = new @ bs" "length new = unat (ugc_test_nblocks m)"
    "\<forall>b \<in> set new. fst b \<noteq> 0"
    "\<forall>i < length new. ugc_test_blocks m (length new - Suc i) = fst (new ! i)"
    and le: "unat (ugc_test_nblocks m) \<le> 64" by (auto simp: recorded_def UGC_TEST_MAX_BLOCKS_def)
  show ?case
  proof (cases new)
    case Nil
    with new have "ugc_test_nblocks m = 0" by (simp add: unat_eq_0)
    with Nil new show ?thesis by (subst ugc_test_free_all.simps) simp
  next
    case (Cons b rest)
    with new have pos: "ugc_test_nblocks m > 0" by (auto simp: word_less_nat_alt)
    let ?i = "ugc_test_nblocks m - 1"
    let ?m = "m\<lparr>ugc_test_nblocks := ?i, blocks := rest @ bs\<rparr>"
    have i: "unat ?i = length rest" using unat_pred [OF pos] new(2) Cons by simp
    have p: "ugc_test_blocks m (length rest) = fst b" using new(4) Cons by force
    have a: "ard UGC_TEST_MAX_BLOCKS (ugc_test_blocks m) (uint ?i) = Some (fst b)"
    proof -
      have u: "uint ?i = int (length rest)" using i by (metis of_nat_unat)
      have "int (length rest) < int UGC_TEST_MAX_BLOCKS"
        using le new(2) Cons by (simp add: UGC_TEST_MAX_BLOCKS_def)
      with p show ?thesis unfolding u by simp
    qed
    have f: "free_block (fst b) (m\<lparr>ugc_test_nblocks := ?i\<rparr>) = Some ?m"
      using new(1,3) Cons by (simp add: free_block_def)
    have "ugc_test_blocks m (length rest - Suc j) = fst (rest ! j)" if "j < length rest" for j
      using new(4)[rule_format, of "Suc j"] that Cons by simp
    then have "recorded bs ?m"
      using new(3) Cons i le new(2) by (auto simp: recorded_def UGC_TEST_MAX_BLOCKS_def)
    with 1(1) [OF pos refl a f] have "\<exists>m'. ugc_test_free_all ?m = Some m' \<and> blocks m' = bs" .
    with a f pos show ?thesis by (subst ugc_test_free_all.simps) simp
  qed
qed

end
