(* ===== verification/Alloc_Tests.thy ===== *)
theory Alloc_Tests
  imports Test_Zalloc Test_Harness
begin

text \<open>
  The unit tests of the allocation core (\<open>tests/test_core_alloc.c\<close>) as programs over the
  model, linked with the recording allocator of \<open>Test_Zalloc\<close>. They run on 64-bit hosts. Where
  a test's local \<open>ctx\<close> lies is a parameter. Running them is proved: on every host that has
  the memory, every check passes and the program gives back every block it took.
\<close>

section \<open>What the tests use\<close>

definition HDR :: "64 word" where
  "HDR = 8"

text \<open>The addresses of the two fields of a \<open>test_context\<close>, and its initialisation by \<open>{ 0 }\<close>.\<close>

record test_context =
  at_ptr :: "64 word"
  at_limit :: "64 word"

definition declare_ctx :: "test_context \<Rightarrow> test_mem \<Rightarrow> test_mem" where
  "declare_ctx ctx m = m\<lparr>cells := (cells m)(at_ptr ctx \<mapsto> 0, at_limit ctx \<mapsto> 0)\<rparr>"

definition ctx_alloc ::
  "test_context \<Rightarrow> 64 word \<Rightarrow> bool \<Rightarrow> test_mem \<Rightarrow> (64 word \<times> test_mem) option" where
  "ctx_alloc ctx sz bypass m =
     ugc_core_alloc ugc_test_zalloc (at_ptr ctx) (at_limit ctx) sz bypass HDR m"

text \<open>A byte can be read and written when it belongs to a block.\<close>

definition load_byte :: "64 word \<Rightarrow> test_mem \<Rightarrow> 8 word option" where
  "load_byte p m = (if valid_bytes m p 1 then Some (bytes m p) else None)"

definition memset :: "64 word \<Rightarrow> 8 word \<Rightarrow> nat \<Rightarrow> test_mem \<Rightarrow> test_mem option" where
  "memset p c n m =
     (if valid_bytes m p n
      then Some (m\<lparr>bytes := (\<lambda>x. if unat p \<le> unat x \<and> unat x < unat p + n then c else bytes m x)\<rparr>)
      else None)"

text \<open>The loop of \<open>is_zeroed\<close> from \<open>i\<close> on, with \<open>k\<close> rounds left.\<close>

primrec is_zeroed_loop :: "nat \<Rightarrow> nat \<Rightarrow> 64 word \<Rightarrow> test_mem \<Rightarrow> bool option" where
  "is_zeroed_loop 0 i b m = Some True"
| "is_zeroed_loop (Suc k) i b m =
     do {
       x \<leftarrow> load_byte (b + of_nat i) m;
       if x \<noteq> 0 then Some False else is_zeroed_loop k (Suc i) b m
     }"

definition is_zeroed :: "64 word \<Rightarrow> 64 word \<Rightarrow> test_mem \<Rightarrow> bool option" where
  "is_zeroed p n m = is_zeroed_loop (unat n) 0 p m"

type_synonym alloc_test = "harness \<times> test_mem \<Rightarrow> (harness \<times> test_mem) option"

section \<open>The tests\<close>

definition test_no_context_alloc :: "alloc_test" where
  "test_no_context_alloc st =
     do {
       let (k, m) = st;
       (obj, m) \<leftarrow> ugc_core_alloc ugc_test_zalloc 0 0 128 False HDR m;
       k \<leftarrow> CHECK (obj \<noteq> 0) k;
       z \<leftarrow> is_zeroed obj 128 m;
       k \<leftarrow> CHECK z k;
       m \<leftarrow> memset obj 0xAA 128 m;
       Some (k, m)
     }"

text \<open>\<open>SIZE_MAX\<close> is \<open>- 1\<close>.\<close>

definition test_overflow_returns_null :: "test_context \<Rightarrow> alloc_test" where
  "test_overflow_returns_null ctx st =
     do {
       let (k, m) = st;
       let m = declare_ctx ctx m;
       (r, m) \<leftarrow> ugc_core_alloc ugc_test_zalloc 0 0 (- 1) False HDR m;
       k \<leftarrow> CHECK (r = 0) k;
       (r, m) \<leftarrow> ugc_core_alloc ugc_test_zalloc 0 0 (- 1 - HDR + 1) False HDR m;
       k \<leftarrow> CHECK (r = 0) k;
       (r, m) \<leftarrow> ctx_alloc ctx (- 1) False m;
       k \<leftarrow> CHECK (r = 0) k;
       (r, m) \<leftarrow> ctx_alloc ctx UGC_ALLOC_QUANTUM False m;
       k \<leftarrow> CHECK (r \<noteq> 0) k;
       Some (k, m)
     }"

definition test_refill_initializes_context :: "test_context \<Rightarrow> alloc_test" where
  "test_refill_initializes_context ctx st =
     do {
       let (k, m) = st;
       let m = declare_ctx ctx m;
       let sz = 100;
       (obj, m) \<leftarrow> ctx_alloc ctx sz False m;
       k \<leftarrow> CHECK (obj \<noteq> 0) k;
       p \<leftarrow> load_cell (at_ptr ctx) m;
       k \<leftarrow> CHECK (p = obj + sz) k;
       l \<leftarrow> load_cell (at_limit ctx) m;
       k \<leftarrow> CHECK (l = obj - HDR + UGC_ALLOC_QUANTUM) k;
       z \<leftarrow> is_zeroed obj sz m;
       k \<leftarrow> CHECK z k;
       z \<leftarrow> is_zeroed obj (l - obj) m;
       k \<leftarrow> CHECK z k;
       Some (k, m)
     }"

definition test_bump_allocation :: "test_context \<Rightarrow> alloc_test" where
  "test_bump_allocation ctx st =
     do {
       let (k, m) = st;
       let m = declare_ctx ctx m;
       (first, m) \<leftarrow> ctx_alloc ctx 64 False m;
       ptr_after_first \<leftarrow> load_cell (at_ptr ctx) m;
       (second, m) \<leftarrow> ctx_alloc ctx 32 False m;
       k \<leftarrow> CHECK (first \<noteq> 0) k;
       k \<leftarrow> CHECK (second = ptr_after_first) k;
       p \<leftarrow> load_cell (at_ptr ctx) m;
       k \<leftarrow> CHECK (p = ptr_after_first + 32) k;
       k \<leftarrow> CHECK (second \<ge> first + 64) k;
       m \<leftarrow> memset first 0x11 64 m;
       m \<leftarrow> memset second 0x22 32 m;
       x \<leftarrow> load_byte (first + 63) m;
       k \<leftarrow> CHECK (x = 0x11) k;
       y \<leftarrow> load_byte second m;
       k \<leftarrow> CHECK (y = 0x22) k;
       Some (k, m)
     }"

definition test_exact_fit_bump :: "test_context \<Rightarrow> alloc_test" where
  "test_exact_fit_bump ctx st =
     do {
       let (k, m) = st;
       let m = declare_ctx ctx m;
       (first, m) \<leftarrow> ctx_alloc ctx 16 False m;
       l \<leftarrow> load_cell (at_limit ctx) m;
       p \<leftarrow> load_cell (at_ptr ctx) m;
       let rest = l - p;
       let expected = p;
       k \<leftarrow> CHECK (first \<noteq> 0) k;
       k \<leftarrow> CHECK (rest \<le> UGC_ALLOC_QUANTUM - HDR - 16) k;
       (second, m) \<leftarrow> ctx_alloc ctx rest False m;
       k \<leftarrow> CHECK (second = expected) k;
       p \<leftarrow> load_cell (at_ptr ctx) m;
       l \<leftarrow> load_cell (at_limit ctx) m;
       k \<leftarrow> CHECK (p = l) k;
       Some (k, m)
     }"

definition test_exhaustion_triggers_refill :: "test_context \<Rightarrow> alloc_test" where
  "test_exhaustion_triggers_refill ctx st =
     do {
       let (k, m) = st;
       let m = declare_ctx ctx m;
       (first, m) \<leftarrow> ctx_alloc ctx 16 False m;
       old_limit \<leftarrow> load_cell (at_limit ctx) m;
       p \<leftarrow> load_cell (at_ptr ctx) m;
       let rest = old_limit - p;
       (second, m) \<leftarrow> ctx_alloc ctx (rest + 1) False m;
       k \<leftarrow> CHECK (first \<noteq> 0) k;
       k \<leftarrow> CHECK (second \<noteq> 0) k;
       l \<leftarrow> load_cell (at_limit ctx) m;
       k \<leftarrow> CHECK (l \<noteq> old_limit) k;
       p \<leftarrow> load_cell (at_ptr ctx) m;
       k \<leftarrow> CHECK (p = second + rest + 1) k;
       k \<leftarrow> CHECK (l = second - HDR + UGC_ALLOC_QUANTUM) k;
       Some (k, m)
     }"

definition test_large_object_bypasses_context :: "test_context \<Rightarrow> alloc_test" where
  "test_large_object_bypasses_context ctx st =
     do {
       let (k, m) = st;
       let m = declare_ctx ctx m;
       (seed, m) \<leftarrow> ctx_alloc ctx 8 False m;
       saved_ptr \<leftarrow> load_cell (at_ptr ctx) m;
       saved_limit \<leftarrow> load_cell (at_limit ctx) m;
       (large, m) \<leftarrow> ctx_alloc ctx (UGC_ALLOC_QUANTUM - HDR + 1) False m;
       k \<leftarrow> CHECK (seed \<noteq> 0) k;
       k \<leftarrow> CHECK (large \<noteq> 0) k;
       p \<leftarrow> load_cell (at_ptr ctx) m;
       k \<leftarrow> CHECK (p = saved_ptr) k;
       l \<leftarrow> load_cell (at_limit ctx) m;
       k \<leftarrow> CHECK (l = saved_limit) k;
       z \<leftarrow> is_zeroed large (UGC_ALLOC_QUANTUM - HDR + 1) m;
       k \<leftarrow> CHECK z k;
       Some (k, m)
     }"

definition test_boundary_size_uses_context :: "test_context \<Rightarrow> alloc_test" where
  "test_boundary_size_uses_context ctx st =
     do {
       let (k, m) = st;
       let m = declare_ctx ctx m;
       (obj, m) \<leftarrow> ctx_alloc ctx (UGC_ALLOC_QUANTUM - HDR) False m;
       k \<leftarrow> CHECK (obj \<noteq> 0) k;
       p \<leftarrow> load_cell (at_ptr ctx) m;
       l \<leftarrow> load_cell (at_limit ctx) m;
       k \<leftarrow> CHECK (p = l) k;
       Some (k, m)
     }"

definition test_bypass_flag_skips_context :: "test_context \<Rightarrow> alloc_test" where
  "test_bypass_flag_skips_context ctx st =
     do {
       let (k, m) = st;
       let m = declare_ctx ctx m;
       (seed, m) \<leftarrow> ctx_alloc ctx 8 False m;
       saved_ptr \<leftarrow> load_cell (at_ptr ctx) m;
       (obj, m) \<leftarrow> ctx_alloc ctx 24 True m;
       k \<leftarrow> CHECK (seed \<noteq> 0) k;
       k \<leftarrow> CHECK (obj \<noteq> 0) k;
       p \<leftarrow> load_cell (at_ptr ctx) m;
       k \<leftarrow> CHECK (p = saved_ptr) k;
       z \<leftarrow> is_zeroed obj 24 m;
       k \<leftarrow> CHECK z k;
       Some (k, m)
     }"

definition test_zero_size_allocation :: "test_context \<Rightarrow> alloc_test" where
  "test_zero_size_allocation ctx st =
     do {
       let (k, m) = st;
       let m = declare_ctx ctx m;
       (obj, m) \<leftarrow> ctx_alloc ctx 0 False m;
       k \<leftarrow> CHECK (obj \<noteq> 0) k;
       p \<leftarrow> load_cell (at_ptr ctx) m;
       k \<leftarrow> CHECK (p = obj) k;
       Some (k, m)
     }"

text \<open>\<open>main\<close>, with the place of the local \<open>ctx\<close> of each test. The summary frees all blocks.\<close>

definition alloc_tests_main ::
  "(nat \<Rightarrow> test_context) \<Rightarrow> test_mem \<Rightarrow> (int \<times> harness \<times> test_mem) option" where
  "alloc_tests_main ctx m =
     do {
       st \<leftarrow> test_no_context_alloc (\<lparr>ugc_test_checks = 0, ugc_test_failures = 0\<rparr>, m);
       st \<leftarrow> test_overflow_returns_null (ctx 1) st;
       st \<leftarrow> test_refill_initializes_context (ctx 2) st;
       st \<leftarrow> test_bump_allocation (ctx 3) st;
       st \<leftarrow> test_exact_fit_bump (ctx 4) st;
       st \<leftarrow> test_exhaustion_triggers_refill (ctx 5) st;
       st \<leftarrow> test_large_object_bypasses_context (ctx 6) st;
       st \<leftarrow> test_boundary_size_uses_context (ctx 7) st;
       st \<leftarrow> test_bypass_flag_skips_context (ctx 8) st;
       (k, m) \<leftarrow> test_zero_size_allocation (ctx 9) st;
       m \<leftarrow> ugc_test_free_all m;
       Some (ugc_test_summary k, k, m)
     }"

section \<open>A host with enough memory\<close>

text \<open>The C library places each of the next \<open>k\<close> blocks of up to \<open>65544\<close> bytes.\<close>

fun places_next :: "nat \<Rightarrow> 64 word list \<Rightarrow> (64 word \<times> 64 word) list \<Rightarrow> bool" where
  "places_next 0 ps bs = True"
| "places_next (Suc k) [] bs = False"
| "places_next (Suc k) (p # ps) bs =
     (calloc_places bs p 65544 \<and> places_next k ps ((p, 65544) # bs))"

definition room :: "nat \<Rightarrow> (64 word \<times> 64 word) list \<Rightarrow> test_mem \<Rightarrow> bool" where
  "room k bs m \<longleftrightarrow> places_next k (placements m) (blocks m) \<and> recorded bs m \<and>
     unat (ugc_test_nblocks m) + k \<le> UGC_TEST_MAX_BLOCKS"

lemma room_frame [simp]:
  "room k bs (m\<lparr>cells := c\<rparr>) = room k bs m"
  "room k bs (m\<lparr>bytes := f\<rparr>) = room k bs m"
  "room k bs (declare_ctx ctx m) = room k bs m"
  by (simp_all add: room_def declare_ctx_def)

text \<open>Fewer and smaller blocks leave as much room.\<close>

definition within_blocks :: "(64 word \<times> 64 word) list \<Rightarrow> (64 word \<times> 64 word) list \<Rightarrow> bool" where
  "within_blocks bs bs' \<longleftrightarrow>
     (\<forall>b \<in> set bs. \<exists>b' \<in> set bs'. inside (block_span b) (block_span b'))"

lemma within_blocks_refl: "within_blocks bs bs"
  unfolding within_blocks_def by (intro ballI, rule bexI, rule inside_refl) (simp_all add: block_span_def)

lemma places_smaller:
  "calloc_places bs' p n \<Longrightarrow> within_blocks bs bs' \<Longrightarrow> n' \<le> n \<Longrightarrow> calloc_places bs p n'"
  unfolding calloc_places_def within_blocks_def apart_def inside_def by fastforce

lemma places_next_within: "places_next k ps bs' \<Longrightarrow> within_blocks bs bs' \<Longrightarrow> places_next k ps bs"
proof (induction k ps bs' arbitrary: bs rule: places_next.induct)
  case (3 k p ps bs')
  have "within_blocks ((p, 65544) # bs) ((p, 65544) # bs')"
    using 3(3) by (auto simp: within_blocks_def inside_refl)
  with 3 show ?case using places_smaller [of bs' p 65544 bs 65544] by simp
qed simp_all

lemma zalloc_serves:
  assumes r: "room (Suc k) bs m" and n: "unat n \<le> 65544"
  shows "\<exists>p m'. ugc_test_zalloc n m = (p, m') \<and> p \<noteq> 0 \<and> room k bs m'"
proof -
  obtain p ps where p: "placements m = p # ps" "calloc_places (blocks m) p 65544"
    "places_next k ps ((p, 65544) # blocks m)"
    using r unfolding room_def by (cases "placements m") auto
  have c: "calloc_places (blocks m) p (unat n)"
    using n by (rule places_smaller [OF p(2) within_blocks_refl])
  have "within_blocks ((p, n) # blocks m) ((p, 65544) # blocks m)"
    using n by (auto simp: within_blocks_def inside_def)
  from places_next_within [OF p(3) this]
  have next_: "places_next k ps ((p, n) # blocks m)" .
  have nb: "unat (ugc_test_nblocks m) < 64" using r by (simp add: room_def UGC_TEST_MAX_BLOCKS_def)
  then have ne: "ugc_test_nblocks m \<noteq> 64" by auto
  obtain m' where z: "ugc_test_zalloc n m = (p, m')" and pl: "placements m' = ps"
    and bl: "blocks m' = (p, n) # blocks m" and c1: "ugc_test_nblocks m' = ugc_test_nblocks m + 1"
    using p(1) c ne by (simp add: ugc_test_zalloc_def calloc_def UGC_TEST_MAX_BLOCKS_def
        calloc_places_def)
  have "recorded bs m'" using r zalloc_recorded [OF _ z] by (simp add: room_def)
  moreover have "unat (ugc_test_nblocks m + 1) = Suc (unat (ugc_test_nblocks m))"
    using nb by (subst unat_add_small) simp_all
  ultimately have "room k bs m'" using r next_ pl bl c1 by (simp add: room_def)
  with z c show ?thesis by (auto simp: calloc_places_def)
qed

section \<open>One call\<close>

text \<open>The guards of a call with the header of the tests.\<close>

lemma hdr_guards:
  assumes "unat sz \<le> 65536"
  shows "\<not> sz > - 1 - HDR" and "unat (sz + HDR) = unat sz + 8"
    and "sz + HDR > UGC_ALLOC_QUANTUM \<longleftrightarrow> unat sz > 65528"
proof -
  have h: "unat HDR = 8" by (simp add: HDR_def)
  show n: "\<not> sz > - 1 - HDR" using assms h by (simp add: gt_max_minus_iff)
  show "unat (sz + HDR) = unat sz + 8" using assms h by (subst unat_add_small) simp_all
  show "sz + HDR > UGC_ALLOC_QUANTUM \<longleftrightarrow> unat sz > 65528"
    using h by (simp only: over_quantum_iff [OF rv_target_64 n]) arith
qed

text \<open>A direct allocation.\<close>

lemma call_direct:
  assumes r: "room (Suc k) bs m" and sz: "unat sz \<le> 65536"
    and d: "pp = 0 \<or> bypass \<or> unat sz > 65528"
  shows "\<exists>a m'. ugc_core_alloc ugc_test_zalloc pp lp sz bypass HDR m = Some (a, m') \<and> a \<noteq> 0 \<and>
    unat a + unat sz < 2 ^ 64 \<and> valid_bytes m' a (unat sz) \<and> zeroed m' a (unat sz) \<and>
    cells m' = cells m \<and> room k bs m'"
proof -
  note g = hdr_guards [OF sz]
  obtain p m' where z: "ugc_test_zalloc (sz + HDR) m = (p, m')" "p \<noteq> 0" "room k bs m'"
    using zalloc_serves [OF r, of "sz + HDR"] g(2) sz by auto
  have "pp = 0 \<or> bypass \<or> sz + HDR > UGC_ALLOC_QUANTUM" using d g(3) by blast
  then have "ugc_core_alloc ugc_test_zalloc pp lp sz bypass HDR m = Some (p + HDR, m')"
    using g(1) z by (simp add: ugc_core_alloc_def ugc_alloc_direct_def Let_def)
  moreover have "unat (p + HDR) + unat sz < 2 ^ 64"
    using test_zalloc.zalloc_room [OF z(1,2)] test_zalloc.direct_result(1) [OF g(1) z(1,2)] g(2)
    by (simp add: HDR_def)
  ultimately show ?thesis
    using test_zalloc.direct_result [OF g(1) z(1,2)] test_zalloc.zalloc_cells [OF z(1)] z(3) by blast
qed

text \<open>A refill: the context is empty, or has too little left.\<close>

lemma call_refill:
  assumes r: "room (Suc k) bs m" and sz: "unat sz \<le> 65528" and pp: "pp \<noteq> 0" "pp \<noteq> lp"
    and c: "cells m pp = Some p" "cells m lp = Some l" and s: "p = 0 \<or> l - p < sz"
  shows "\<exists>a m'. ugc_core_alloc ugc_test_zalloc pp lp sz False HDR m = Some (a, m') \<and> a \<noteq> 0 \<and>
    unat a + 65528 < 2 ^ 64 \<and> valid_bytes m' a 65528 \<and> zeroed m' a 65528 \<and>
    cells m' pp = Some (a + sz) \<and> cells m' lp = Some (a + 65528) \<and>
    room k bs m' \<and>
    (\<exists>b. (b, UGC_ALLOC_QUANTUM) \<in> set (blocks m') - set (blocks m) \<and>
      cells m' lp = Some (b + UGC_ALLOC_QUANTUM))"
proof -
  have sz': "unat sz \<le> 65536" using sz by simp
  note g = hdr_guards [OF sz']
  obtain b m1 where z: "ugc_test_zalloc UGC_ALLOC_QUANTUM m = (b, m1)" "b \<noteq> 0" "room k bs m1"
    using zalloc_serves [OF r, of UGC_ALLOC_QUANTUM] unat_quantum [OF rv_target_64] by auto
  have h: "unat HDR = 8" by (simp add: HDR_def)
  have h': "unat HDR \<le> 65536" by (simp add: HDR_def)
  note f = test_zalloc.fresh_result [OF rv_target_64 z(1,2) h']
  have cells: "cells m1 = cells m" using test_zalloc.zalloc_cells [OF z(1)] by simp
  let ?m = "m1\<lparr>cells := (cells m1)(pp \<mapsto> b + HDR + sz, lp \<mapsto> b + UGC_ALLOC_QUANTUM)\<rparr>"
  have "ugc_core_alloc ugc_test_zalloc pp lp sz False HDR m = Some (b + HDR, ?m)"
    using g(1,3) sz pp c s z cells
    by (auto simp: ugc_core_alloc_def ugc_ctx_refill_def store_cell_def Let_def)
  moreover have "unat (b + HDR) + 65528 < 2 ^ 64"
    using test_zalloc.zalloc_room [OF z(1,2)] f(1) h unat_quantum [OF rv_target_64] by simp
  moreover have "(b, UGC_ALLOC_QUANTUM) \<in> set (blocks ?m) - set (blocks m)"
    using test_zalloc.zalloc_block [OF z(1,2)] unat_quantum [OF rv_target_64]
    by (auto simp: calloc_places_def apart_def dest!: bspec)
  moreover have e: "b + UGC_ALLOC_QUANTUM = b + HDR + 65528"
    by (simp add: HDR_def UGC_ALLOC_QUANTUM_def)
  ultimately show ?thesis using f(2,5,6) h z(3) pp
    by (intro exI [of _ "b + HDR"] exI [of _ ?m] conjI exI [of _ b]) (simp_all only: e, simp_all)
qed

text \<open>The next object of a context that has enough left.\<close>

lemma call_bump:
  assumes sz: "unat sz \<le> 65528" and pp: "pp \<noteq> 0" and c: "cells m pp = Some p" "cells m lp = Some l"
    and p: "p \<noteq> 0" "sz \<le> l - p"
  shows "ugc_core_alloc ugc_test_zalloc pp lp sz False HDR m =
    Some (p, m\<lparr>cells := (cells m)(pp \<mapsto> p + sz)\<rparr>)"
proof -
  have "unat sz \<le> 65536" using sz by simp
  note g = hdr_guards [OF this]
  show ?thesis using g(1,3) sz pp c p by (simp add: ugc_core_alloc_def store_cell_def Let_def)
qed

lemma call_overflow:
  "sz > - 1 - HDR \<Longrightarrow> ugc_core_alloc ugc_test_zalloc pp lp sz bypass HDR m = Some (0, m)"
  by (simp add: ugc_core_alloc_def)

text \<open>The first allocation of a fresh context.\<close>

definition ctx_ok :: "test_context \<Rightarrow> bool" where
  "ctx_ok ctx \<longleftrightarrow> at_ptr ctx \<noteq> 0 \<and> at_ptr ctx \<noteq> at_limit ctx"

lemma declare_cells:
  "cells (declare_ctx ctx m) = (cells m)(at_ptr ctx \<mapsto> 0, at_limit ctx \<mapsto> 0)"
  by (simp add: declare_ctx_def)

lemma call_first:
  assumes r: "room (Suc k) bs m" and sz: "unat sz \<le> 65528" and ctx: "ctx_ok ctx"
  obtains a m' b where "ctx_alloc ctx sz False (declare_ctx ctx m) = Some (a, m')" "a \<noteq> 0"
    "unat a + 65528 < 2 ^ 64" "valid_bytes m' a 65528" "zeroed m' a 65528"
    "cells m' (at_ptr ctx) = Some (a + sz)" "cells m' (at_limit ctx) = Some (a + 65528)"
    "room k bs m'" "(b, UGC_ALLOC_QUANTUM) \<in> set (blocks m')" "a + 65528 = b + UGC_ALLOC_QUANTUM"
proof -
  have "room (Suc k) bs (declare_ctx ctx m)" using r by simp
  from call_refill [OF this sz, of "at_ptr ctx" "at_limit ctx" 0 0] ctx that show thesis
    by (auto simp: ctx_ok_def declare_cells ctx_alloc_def)
qed

text \<open>Reading zeroed memory.\<close>

lemma is_zeroed_loop_true:
  assumes z: "zeroed m p n" and v: "valid_bytes m p n" and n: "unat p + n < 2 ^ 64"
  shows "i + j \<le> n \<Longrightarrow> is_zeroed_loop j i p m = Some True"
proof (induction j arbitrary: i)
  case (Suc j)
  have u: "unat (p + of_nat i) = unat p + i"
    using Suc.prems n by (simp add: unat_word_ariths unat_of_nat)
  have "valid_bytes m (p + of_nat i) 1"
    using v u Suc.prems by (elim valid_bytes_sub) auto
  moreover have "bytes m (p + of_nat i) = 0" using z u Suc.prems by (simp add: zeroed_def)
  ultimately show ?case using Suc by (simp add: load_byte_def)
qed simp

lemma is_zeroed_true:
  assumes "zeroed m p n" and "valid_bytes m p n" and "unat p + n < 2 ^ 64" and "unat sz \<le> n"
  shows "is_zeroed p sz m = Some True"
  using is_zeroed_loop_true [OF assms(1-3), of 0 "unat sz"] assms(4) by (simp add: is_zeroed_def)

section \<open>Every test passes\<close>

lemma no_context_alloc_passes:
  assumes r: "room (Suc k) bs m" and "n < 2 ^ 30"
  shows "\<exists>m'. test_no_context_alloc (passed n, m) = Some (passed (n + 2), m') \<and> room k bs m'"
proof -
  from call_direct [OF r, of 128 0 False 0] obtain a m1 where
    a: "ugc_core_alloc ugc_test_zalloc 0 0 128 False HDR m = Some (a, m1)" "a \<noteq> 0"
      "unat a + 128 < 2 ^ 64" "valid_bytes m1 a 128" "zeroed m1 a 128" "room k bs m1" by auto
  with is_zeroed_true [OF a(5,4,3), of 128] assms(2) show ?thesis
    by (simp add: test_no_context_alloc_def memset_def)
qed

lemma overflow_returns_null_passes:
  assumes r: "room (Suc k) bs m" and ctx: "ctx_ok ctx" and "n < 2 ^ 30"
  shows "\<exists>m'. test_overflow_returns_null ctx (passed n, m) = Some (passed (n + 4), m') \<and> room k bs m'"
proof -
  have "room (Suc k) bs (declare_ctx ctx m)" using r by simp
  from call_direct [OF this, of UGC_ALLOC_QUANTUM "at_ptr ctx" False "at_limit ctx"]
  obtain a m1 where a: "ctx_alloc ctx UGC_ALLOC_QUANTUM False (declare_ctx ctx m) = Some (a, m1)"
    "a \<noteq> 0" "room k bs m1" by (auto simp: unat_quantum ctx_alloc_def)
  have "- 1 > - 1 - HDR" and "- 1 - HDR + 1 > - 1 - HDR" by (simp_all add: HDR_def)
  note o = this [THEN call_overflow]
  have "ctx_alloc ctx (- 1) False m = Some (0, m)" for m by (simp add: ctx_alloc_def o(1))
  with a o assms(3) show ?thesis by (simp add: test_overflow_returns_null_def)
qed

lemma refill_initializes_context_passes:
  assumes r: "room (Suc k) bs m" and ctx: "ctx_ok ctx" and "n < 2 ^ 30"
  shows "\<exists>m'. test_refill_initializes_context ctx (passed n, m) = Some (passed (n + 5), m') \<and>
    room k bs m'"
proof -
  have "unat (100 :: 64 word) \<le> 65528" by simp
  from call_first [OF r this ctx] obtain a m1 where
    a: "ctx_alloc ctx 100 False (declare_ctx ctx m) = Some (a, m1)" "a \<noteq> 0"
      "cells m1 (at_ptr ctx) = Some (a + 100)" "cells m1 (at_limit ctx) = Some (a + 65528)"
      "room k bs m1" and z: "zeroed m1 a 65528" "valid_bytes m1 a 65528" "unat a + 65528 < 2 ^ 64"
    by metis
  with is_zeroed_true [OF z, of 100] is_zeroed_true [OF z, of 65528] assms(3) show ?thesis
    by (simp add: test_refill_initializes_context_def HDR_def UGC_ALLOC_QUANTUM_def)
qed

lemma bump_allocation_passes:
  assumes r: "room (Suc k) bs m" and ctx: "ctx_ok ctx" and "n < 2 ^ 30"
  shows "\<exists>m'. test_bump_allocation ctx (passed n, m) = Some (passed (n + 6), m') \<and> room k bs m'"
proof -
  have "unat (64 :: 64 word) \<le> 65528" by simp
  from call_first [OF r this ctx] obtain a m1 where
    a: "ctx_alloc ctx 64 False (declare_ctx ctx m) = Some (a, m1)" "a \<noteq> 0"
      "cells m1 (at_ptr ctx) = Some (a + 64)" "cells m1 (at_limit ctx) = Some (a + 65528)"
      "room k bs m1" and z: "zeroed m1 a 65528" "valid_bytes m1 a 65528" "unat a + 65528 < 2 ^ 64"
    by metis
  have u: "unat (a + 64) = unat a + 64" "unat (a + 63) = unat a + 63"
    using z(3) by (simp_all add: unat_add_small)
  have nz: "a + 64 \<noteq> 0" using u(1) by (auto dest: arg_cong [of _ 0 unat])
  let ?m = "m1\<lparr>cells := (cells m1)(at_ptr ctx \<mapsto> a + 64 + 32)\<rparr>"
  have b: "ctx_alloc ctx 32 False m1 = Some (a + 64, ?m)"
    using ctx a nz unfolding ctx_alloc_def ctx_ok_def
    by (intro call_bump [where l = "a + 65528"]) simp_all
  have v: "valid_bytes m1 a 64" "valid_bytes m1 (a + 64) 32" "valid_bytes m1 (a + 63) 1"
    "valid_bytes m1 (a + 64) 1"
    using u by (auto intro: valid_bytes_sub [OF z(2)])
  have le: "a + 64 \<le> a + 64" "\<not> unat (a + 64) \<le> unat (a + 63)" using u by simp_all
  show ?thesis using a b v le u ctx assms(3)
    by (simp add: test_bump_allocation_def memset_def load_byte_def ctx_ok_def)
qed

lemma exact_fit_bump_passes:
  assumes r: "room (Suc k) bs m" and ctx: "ctx_ok ctx" and "n < 2 ^ 30"
  shows "\<exists>m'. test_exact_fit_bump ctx (passed n, m) = Some (passed (n + 4), m') \<and> room k bs m'"
proof -
  have "unat (16 :: 64 word) \<le> 65528" by simp
  from call_first [OF r this ctx] obtain a m1 where
    a: "ctx_alloc ctx 16 False (declare_ctx ctx m) = Some (a, m1)" "a \<noteq> 0"
      "cells m1 (at_ptr ctx) = Some (a + 16)" "cells m1 (at_limit ctx) = Some (a + 65528)"
      "room k bs m1" "unat a + 65528 < 2 ^ 64" by metis
  have "unat (a + 16) = unat a + 16" using a(6) by (simp add: unat_add_small)
  then have nz: "a + 16 \<noteq> 0" by (auto dest: arg_cong [of _ 0 unat])
  have b: "ctx_alloc ctx 65512 False m1 =
      Some (a + 16, m1\<lparr>cells := (cells m1)(at_ptr ctx \<mapsto> a + 16 + 65512)\<rparr>)"
    using ctx a nz unfolding ctx_alloc_def ctx_ok_def
    by (intro call_bump [where l = "a + 65528"]) simp_all
  have "at_limit ctx \<noteq> at_ptr ctx" using ctx by (auto simp: ctx_ok_def)
  then show ?thesis using a b assms(3)
    by (simp add: test_exact_fit_bump_def HDR_def UGC_ALLOC_QUANTUM_def add.commute)
qed

lemma exhaustion_triggers_refill_passes:
  assumes r: "room (Suc (Suc k)) bs m" and ctx: "ctx_ok ctx" and "n < 2 ^ 30"
  shows "\<exists>m'. test_exhaustion_triggers_refill ctx (passed n, m) = Some (passed (n + 5), m') \<and>
    room k bs m'"
proof -
  have "unat (16 :: 64 word) \<le> 65528" by simp
  from call_first [OF r this ctx] obtain a m1 b where
    a: "ctx_alloc ctx 16 False (declare_ctx ctx m) = Some (a, m1)" "a \<noteq> 0"
      "cells m1 (at_ptr ctx) = Some (a + 16)" "cells m1 (at_limit ctx) = Some (a + 65528)"
    and r1: "room (Suc k) bs m1"
    and old: "(b, UGC_ALLOC_QUANTUM) \<in> set (blocks m1)" "a + 65528 = b + UGC_ALLOC_QUANTUM"
    by metis
  have "unat (65513 :: 64 word) \<le> 65528" "(a + 65528) - (a + 16) < 65513" by simp_all
  with call_refill [OF r1 _ _ _ a(3,4), of 65513] ctx obtain c m2 d where
    c: "ctx_alloc ctx 65513 False m1 = Some (c, m2)" "c \<noteq> 0" "room k bs m2"
      "cells m2 (at_ptr ctx) = Some (c + 65513)" "cells m2 (at_limit ctx) = Some (c + 65528)"
    and new: "(d, UGC_ALLOC_QUANTUM) \<notin> set (blocks m1)" "c + 65528 = d + UGC_ALLOC_QUANTUM"
    by (auto simp: ctx_alloc_def ctx_ok_def)
  have "c + 65528 \<noteq> a + 65528" using old new by auto
  then have ne: "c \<noteq> a" by simp
  show ?thesis using a c ne assms(3)
    by (simp add: test_exhaustion_triggers_refill_def HDR_def UGC_ALLOC_QUANTUM_def)
qed

lemma large_object_bypasses_context_passes:
  assumes r: "room (Suc (Suc k)) bs m" and ctx: "ctx_ok ctx" and "n < 2 ^ 30"
  shows "\<exists>m'. test_large_object_bypasses_context ctx (passed n, m) = Some (passed (n + 5), m') \<and>
    room k bs m'"
proof -
  have "unat (8 :: 64 word) \<le> 65528" by simp
  from call_first [OF r this ctx] obtain a m1 where
    a: "ctx_alloc ctx 8 False (declare_ctx ctx m) = Some (a, m1)" "a \<noteq> 0"
      "cells m1 (at_ptr ctx) = Some (a + 8)" "cells m1 (at_limit ctx) = Some (a + 65528)"
    and r1: "room (Suc k) bs m1" by metis
  from call_direct [OF r1, of 65529 "at_ptr ctx" False "at_limit ctx"] obtain c m2 where
    c: "ctx_alloc ctx 65529 False m1 = Some (c, m2)" "c \<noteq> 0" "cells m2 = cells m1" "room k bs m2"
    and z: "zeroed m2 c 65529" "valid_bytes m2 c 65529" "unat c + 65529 < 2 ^ 64"
    by (auto simp: ctx_alloc_def)
  show ?thesis using a c is_zeroed_true [OF z, of 65529] assms(3)
    by (simp add: test_large_object_bypasses_context_def HDR_def UGC_ALLOC_QUANTUM_def)
qed

lemma boundary_size_uses_context_passes:
  assumes r: "room (Suc k) bs m" and ctx: "ctx_ok ctx" and "n < 2 ^ 30"
  shows "\<exists>m'. test_boundary_size_uses_context ctx (passed n, m) = Some (passed (n + 2), m') \<and>
    room k bs m'"
proof -
  have "unat (65528 :: 64 word) \<le> 65528" by simp
  from call_first [OF r this ctx] obtain a m1 where
    "ctx_alloc ctx 65528 False (declare_ctx ctx m) = Some (a, m1)" "a \<noteq> 0"
      "cells m1 (at_ptr ctx) = Some (a + 65528)" "cells m1 (at_limit ctx) = Some (a + 65528)"
      "room k bs m1" by metis
  then show ?thesis using assms(3)
    by (simp add: test_boundary_size_uses_context_def HDR_def UGC_ALLOC_QUANTUM_def)
qed

lemma bypass_flag_skips_context_passes:
  assumes r: "room (Suc (Suc k)) bs m" and ctx: "ctx_ok ctx" and "n < 2 ^ 30"
  shows "\<exists>m'. test_bypass_flag_skips_context ctx (passed n, m) = Some (passed (n + 4), m') \<and>
    room k bs m'"
proof -
  have "unat (8 :: 64 word) \<le> 65528" by simp
  from call_first [OF r this ctx] obtain a m1 where
    a: "ctx_alloc ctx 8 False (declare_ctx ctx m) = Some (a, m1)" "a \<noteq> 0"
      "cells m1 (at_ptr ctx) = Some (a + 8)" and r1: "room (Suc k) bs m1" by metis
  from call_direct [OF r1, of 24 "at_ptr ctx" True "at_limit ctx"] obtain c m2 where
    c: "ctx_alloc ctx 24 True m1 = Some (c, m2)" "c \<noteq> 0" "cells m2 = cells m1" "room k bs m2"
    and z: "zeroed m2 c 24" "valid_bytes m2 c 24" "unat c + 24 < 2 ^ 64"
    by (auto simp: ctx_alloc_def)
  show ?thesis using a c is_zeroed_true [OF z, of 24] assms(3)
    by (simp add: test_bypass_flag_skips_context_def)
qed

lemma zero_size_allocation_passes:
  assumes r: "room (Suc k) bs m" and ctx: "ctx_ok ctx" and "n < 2 ^ 30"
  shows "\<exists>m'. test_zero_size_allocation ctx (passed n, m) = Some (passed (n + 2), m') \<and>
    room k bs m'"
proof -
  have "unat (0 :: 64 word) \<le> 65528" by simp
  from call_first [OF r this ctx] obtain a m1 where
    "ctx_alloc ctx 0 False (declare_ctx ctx m) = Some (a, m1)" "a \<noteq> 0"
      "cells m1 (at_ptr ctx) = Some (a + 0)" "room k bs m1" by metis
  then show ?thesis using assms(3) by (simp add: test_zero_size_allocation_def)
qed

lemma thirteen: "13 = Suc (Suc (Suc (Suc (Suc (Suc (Suc (Suc (Suc (Suc (Suc (Suc (Suc 0))))))))))))"
  by simp

lemma after_alloc_test:
  assumes "\<exists>m'. t (passed n, m) = Some (passed n', m') \<and> room k bs m'"
    and "\<And>m. room k bs m \<Longrightarrow> \<exists>r m'. f (passed n', m) = Some (0, r, m') \<and> P r m'"
  shows "\<exists>r m'. t (passed n, m) \<bind> f = Some (0, r, m') \<and> P r m'"
  using assms by (auto simp del: split_paired_Ex)

text \<open>With room for the 13 blocks the tests take, the program exits with 0, has counted no
  failure, and leaves no block behind.\<close>

lemma alloc_tests_run:
  assumes "places_next 13 (placements m) (blocks m)" and "ugc_test_nblocks m = 0"
    and ctx: "\<And>i. ctx_ok (ctx i)"
  shows "\<exists>r m'. alloc_tests_main ctx m = Some (0, r, m') \<and>
    ugc_test_failures r = 0 \<and> blocks m' = blocks m"
proof -
  have start: "\<lparr>ugc_test_checks = 0, ugc_test_failures = 0\<rparr> = passed 0" by (simp add: passed_def)
  have finish: "ugc_test_summary (passed n) = 0" "ugc_test_failures (passed n) = 0" for n
    by (simp_all add: ugc_test_summary_def passed_def)
  have free: "\<exists>m'. ugc_test_free_all m1 = Some m' \<and> blocks m' = blocks m"
    if "room 0 (blocks m) m1" for m1 using that free_all_frees by (simp add: room_def)
  have "room 13 (blocks m) m"
    using assms(1,2) by (simp add: room_def recorded_def UGC_TEST_MAX_BLOCKS_def)
  note r = this [unfolded thirteen]
  show ?thesis unfolding alloc_tests_main_def start
    apply (rule after_alloc_test, rule no_context_alloc_passes [OF r], simp)
    apply (rule after_alloc_test, erule overflow_returns_null_passes [OF _ ctx], simp)
    apply (rule after_alloc_test, erule refill_initializes_context_passes [OF _ ctx], simp)
    apply (rule after_alloc_test, erule bump_allocation_passes [OF _ ctx], simp)
    apply (rule after_alloc_test, erule exact_fit_bump_passes [OF _ ctx], simp)
    apply (rule after_alloc_test, erule exhaustion_triggers_refill_passes [OF _ ctx], simp)
    apply (rule after_alloc_test, erule large_object_bypasses_context_passes [OF _ ctx], simp)
    apply (rule after_alloc_test, erule boundary_size_uses_context_passes [OF _ ctx], simp)
    apply (rule after_alloc_test, erule bypass_flag_skips_context_passes [OF _ ctx], simp)
    apply (rule after_alloc_test, erule zero_size_allocation_passes [OF _ ctx], simp)
    apply (drule free, auto simp: finish)
    done
qed

text \<open>A host whose C library places the blocks 128 kB apart, with one block in use.\<close>

definition ex_test_mem :: test_mem where
  "ex_test_mem = \<lparr>blocks = [(0x1000, 8)], bytes = (\<lambda>_. 0), cells = Map.empty, i64s = Map.empty,
   placements = [0x100000, 0x120000, 0x140000, 0x160000, 0x180000, 0x1a0000, 0x1c0000,
    0x1e0000, 0x200000, 0x220000, 0x240000, 0x260000, 0x280000],
   ugc_test_blocks = (\<lambda>_. 0), ugc_test_nblocks = 0\<rparr>"

lemma ex_places_next: "places_next 13 (placements ex_test_mem) (blocks ex_test_mem)"
  by (simp add: ex_test_mem_def thirteen calloc_places_def apart_def)

end
