(* ===== verification/Spec2Isabelle.thy ===== *)
theory Spec2Isabelle
  imports Client_Facts System_Examples Core_Contracts Handle_Contracts Eva_Driver
    Handle_Tests Alloc_Tests
begin

text \<open>
  Verification of uGC, a garbage collector for the .NET runtime on RISC-V zkVM guests that
  allocates and never collects.

  \<^bold>\<open>The program.\<close> A C core (\<open>ugc/core\<close>) does the work and carries ACSL contracts; C++
  classes (\<open>ugc/*.cpp\<close>) put it behind the runtime's interfaces. Its parts and their theories:

  \<^item> \<open>ugc_zalloc.c\<close>, the zeroing allocator over \<open>calloc\<close>: \<open>CMemory\<close>. Memory is a record of
    blocks, bytes, pointer variables and counters. \<open>calloc\<close> is the C library's; its choice of
    an address is read from the state, and a choice the C standard forbids is a failure, so a
    theorem for every state is one for every \<open>calloc\<close>. What the core relies on is the locale
    \<open>zeroing_allocator\<close>, the ACSL contract of \<open>ugc_zalloc\<close>, interpreted on \<open>ugc_zalloc\<close>.
  \<^item> \<open>ugc_core.c\<close>, allocation (\<open>ugc_alloc_direct\<close>, \<open>ugc_ctx_refill\<close>, \<open>ugc_core_alloc\<close>):
    \<open>Core_Alloc\<close>, with the ACSL contract of \<open>ugc_core.h\<close> as predicates. \<open>Alloc_World\<close> puts it
    under the runtime: calls on any number of contexts, the runtime's inline bump, the
    mutator's writes and new contexts as steps, reachable states and their invariant.
    \<open>Alloc_Facts\<close> derives what a client sees, \<open>Alloc_Bounds\<close> what memory costs and what no
    object ever touches, \<open>Core_Contracts\<close> has the ACSL contracts of the two static functions
    and of \<open>ugc_zalloc\<close>.
  \<^item> \<open>ugc_core.c\<close>, the handle store: \<open>Handle_Store\<close> (the seven globals as \<open>gstate\<close>, creation,
    destruction, accessors, reset) and \<open>Handle_Slots\<close> (handles as addresses, operations through
    a slot pointer). \<open>Handle_Contracts\<close> holds the ACSL contracts; \<open>Handle_Spec\<close> the invariant
    that is stronger than the contracts and the abstract store (a finite map with a LIFO list of
    freed slots) that the code refines; \<open>Handle_Run\<close> sequences of calls within the contracts, the
    reset included.
  \<^item> \<open>uGCHandleStore.cpp\<close>, \<open>uGCHandleManager.cpp\<close>: \<open>Handle_Classes\<close>. \<open>Handle_Client\<close> states the
    interface the runtime uses as the locales \<open>handle_provider\<close> and \<open>lifo_provider\<close>, analyses a
    client's session on their laws, and interprets them on the code; \<open>Handle_Facts\<close> has one
    lemma per manager operation on a held handle, and what becomes of calls on others.
    \<open>Handle_API\<close> has the class declarations of the two headers as datatypes of calls, their
    dispatch, and the specification of the API over a map from held handles to values, which
    the code simulates: an interpretation of the locale \<open>forward_simulation\<close> of \<open>Simulation\<close>.
  \<^item> \<open>uGCHeap.cpp\<close>, \<open>uGCHeap.h\<close>: \<open>GC_Heap\<close>, one definition per method, \<open>GetMemoryInfo\<close> with its
    sixteen stores through pointers; \<open>Heap_API\<close> makes the methods values by groups of the
    interface, shows that they answer as a table written independently of them says, and gives
    the report of \<open>GetMemoryInfo\<close>; \<open>Heap_Run\<close> has runs
    of the heap.
  \<^item> \<open>uGC.cpp\<close>: \<open>GC_Init\<close>. \<open>formal/eva_main.c\<close>: \<open>Eva_Driver\<close>.
  \<^item> \<open>tests\<close>: the two test programs are clients of the core, \<open>Handle_Tests\<close> and \<open>Alloc_Tests\<close>,
    with their harness in \<open>Test_Harness\<close>. The recording allocator they are linked with,
    \<open>Test_Zalloc\<close>, is a second interpretation of \<open>zeroing_allocator\<close>.
  \<^item> The whole: \<open>System_Run\<close> composes the heap object, the handle manager and the memory both
    work on, from \<open>GC_Initialize\<close> on, with the runtime and the mutator, and its invariant.
    \<open>Ideal_Heap\<close> has the whole as one interface of calls and answers: the calls of the runtime
    (all methods of \<open>uGCHeap\<close>, the handle API), its inline allocation and its new threads, and
    the program's reads and writes. Its specification is an ideal heap, a map from addresses to
    bytes with objects, contexts, handles and counters, which the collector simulates: the third
    interpretation of \<open>forward_simulation\<close>. \<open>Ideal_Client\<close> derives what a client can see from its
    own history, and \<open>Handle_History\<close> what its handles hold, by replaying that history.
  \<^item> \<open>Prelude\<close> has the C integers and arrays and the facts on words and address ranges that all
    share, \<open>CLR_Interface\<close> the constants of the runtime's headers, \<open>Examples\<close> and
    \<open>System_Examples\<close> the concrete states of the witnesses, \<open>Client_Facts\<close> further consequences
    for single calls.

  \<^bold>\<open>Conventions.\<close> \<open>size_t\<close> and pointers are words of the polymorphic width \<open>'w\<close>; \<open>rv_target\<close>
  says that it is 32 or 64. A C \<open>int\<close> is an integer kept in range. A function that can run into
  undefined behaviour returns an option, and \<open>None\<close> is that behaviour: an index out of bounds,
  a dereference of a pointer to no object, signed overflow, a call through a null object. The
  program's own failures (a null pointer, -1) are results. A static array is its content by
  index with the bound checked at each access. Nothing has fuel: the one loop of the core, in
  \<open>ugc_handle_store_reset\<close>, is total by a measure, and so are the loops of the tests.

  \<^bold>\<open>What is shown.\<close> The collector as a whole, from \<open>GC_Initialize\<close> on, is an ideal heap to
  any client that keeps to its specification, whatever it calls and in whatever order: no
  undefined behaviour, and no answer the ideal heap does not give (C1); in particular a read
  returns the byte last written (C2), handles hold what was last stored in them (C3), and the
  total is what was served (C4). Handles never dangle (C5), the handle API alone refines its
  own specification (C6), and the heap keeps off the arrays of the handle store (C7). Every
  function of the core meets its ACSL contract, the assigns clauses included, and returns
  whenever the precondition holds, the reset included (C8, C9, C19, C26, C27, C30, C32), the
  analysis driver has no undefined behaviour (C35), and the repository's unit tests pass on the
  model, on every host and layout (C36, C37). In every reachable state objects with their
  headers are disjoint, zero when handed out, kept by later calls and aligned (C10 to C15);
  the memory taken is bounded by what is handed out, a quantum serves all requests that fit
  it, and a call fails only when it has to (C16 to C18). The heap object counts its bytes and
  reports them through its out parameters (C20, C21). The handle store keeps its invariant
  under calls within the contracts, never hands out a held handle, recycles last in, first
  out, refines its abstract store, takes no more slots than were live at once since the last
  reset, and fails only when all are live (C22 to C30); handles and indices correspond (C31).
  The compare-and-exchange returns the new value (C33); what GC_Initialize returns, and which
  calls of its manager are undefined behaviour before Initialize, is C34. Two sequences of
  calls outside the contracts that the wrappers let through end in aliasing handles (C38, C39).

  \<^bold>\<open>Not modelled.\<close> The runtime and its headers, of which only constants and field offsets enter,
  as parameters; the failure of \<open>operator new\<close>; a pointer subtraction whose operands belong to
  different objects, which the precondition of the contract rules out; concurrency, as the
  target has one hart and the code takes no locks; build scripts, packaging.
\<close>

unbundle bit_operations_syntax

section \<open>The whole collector\<close>

text \<open>C1: The collector is an ideal heap: a client that, whatever it is answered, keeps to the
  specification - accesses only bytes of objects it was given, uses only contexts it has
  attached and handles it holds - runs for any number of calls, from what GC_Initialize
  returns, without undefined behaviour, and its history is one of a heap in which new objects
  are zero and lie where nothing was, only writes change bytes, and reads return them.\<close>

theorem collector_is_ideal_heap:
  fixes clr :: "'w::len word clr_interface"
  assumes "layout_ok lay" and "live_type (hndtype_dependent clr)" and "sys_start clr lay g"
    and "client_obeys (gc_pre clr lay) (gc_ideal clr) ideal_start client"
  shows "\<exists>tr g'. play (gc_exec clr lay) client g n = Some (tr, g') \<and> length tr = n \<and>
    spec_history (gc_pre clr lay) (gc_ideal clr) client ideal_start tr (ideal_abs clr lay g')"
  using collector_history [OF assms] by blast

theorem collector_is_ideal_heap_witness:
  "\<exists>tr g'. play (gc_exec ex_clr ex_layout) ex_gc_client ex_sys0 1000 = Some (tr, g') \<and> length tr = 1000"
  using collector_is_ideal_heap [OF ex_layout_ok ex_dependent ex_sys_start ex_gc_client_obeys, of 1000]
  by blast

text \<open>C2: Memory behaves like memory: in the history of a client that keeps to the specification,
  whatever it allocated, registered, created and asked in between, a read of an address
  returns the byte the client last wrote there, and zero if it wrote none.\<close>

theorem reads_return_last_write:
  fixes clr :: "'w::len word clr_interface"
  assumes "layout_ok lay" and "live_type (hndtype_dependent clr)" and "sys_start clr lay g"
    and "client_obeys (gc_pre clr lay) (gc_ideal clr) ideal_start client"
    and "play (gc_exec clr lay) client g n = Some (tr, g')"
    and "i < n" and "tr ! i = (Gc_Read x, r)"
  shows "r = Byte (last_written x (take i tr))"
  using history_reads [OF collector_history_of(3) [OF assms(1-5)]]
    collector_history_of(1) [OF assms(1-5)] assms(6,7) by blast

theorem reads_return_last_write_witness:
  "(Byte 7 :: 64 word gc_answer) = Byte (last_written 0x10008 (take 3 ex_history))"
  by (rule reads_return_last_write [OF ex_layout_ok ex_dependent ex_sys_start ex_gc_client_obeys
        ex_play, of 3]) (simp_all add: ex_history_def)

text \<open>C3: Handles hold what was last stored in them: replaying only the calls and answers of the
  history of a client that keeps to the specification - a create that answered a handle gives
  it the value asked for, a duplicate the object and type of the other, a store, a conditional
  store that says it stored, a set type, extra info or secondary changes one field, a destroy
  forgets it - gives a handle a value exactly when the store has it live, and then the runtime
  reads that object through the handle, the store's methods answer that type and extra info, and
  the pointer the store gives for the secondary reads that secondary.\<close>

theorem handles_hold_last_stored:
  fixes clr :: "'w::len word clr_interface"
  assumes "layout_ok lay" and "live_type (hndtype_dependent clr)" and "sys_start clr lay g"
    and "client_obeys (gc_pre clr lay) (gc_ideal clr) ideal_start client"
    and "play (gc_exec clr lay) client g n = Some (tr, g')"
  shows "handle_lookup lay (mem (sys_world g')) = replay clr tr \<and>
    (\<forall>h v. replay clr tr h = Some v \<longrightarrow>
       load_slot lay h (mem (sys_world g')) = Some (a_object v) \<and>
       uGetHandleType lay h (mem (sys_world g')) = Some (a_type v) \<and>
       uGetHandleExtraInfo lay h (mem (sys_world g')) = Some (a_extra v) \<and>
       (\<exists>q. uGetDependentHandle lay h = Some q \<and>
          load_slot lay q (mem (sys_world g')) = Some (a_secondary v)))"
proof -
  let ?s = "mem (sys_world g')"
  note H = collector_history_of(2,3) [OF assms]
  then have ok: "store_ok lay ?s"
    by (simp add: ideal_inv_def sys_inv_def handle_api_inv_def)
  have e: "handle_lookup lay ?s = replay clr tr"
    using history_handles [OF H(2)] by (simp add: ideal_abs_def)
  have "load_slot lay h ?s = Some (a_object v) \<and> uGetHandleType lay h ?s = Some (a_type v) \<and>
      uGetHandleExtraInfo lay h ?s = Some (a_extra v) \<and>
      (\<exists>q. uGetDependentHandle lay h = Some q \<and> load_slot lay q ?s = Some (a_secondary v))"
    if "replay clr tr h = Some v" for h v
  proof -
    have l: "handle_lookup lay ?s h = Some v" using that e by simp
    show ?thesis using load_held [OF ok l] held_reads(1,2) [OF ok l]
        dependent_handle(1) [OF ok l, of "\<lparr>handle_store = 1\<rparr>"]
      by (simp add: GetDependentHandleSecondary_def store_object_def Option.bind_eq_Some_conv)
  qed
  with e show ?thesis by blast
qed

theorem handles_hold_last_stored_witness:
  "load_slot ex_layout 0x100000 (mem (sys_world ex_sys4)) = Some 0x10008 \<and>
   uGetHandleType ex_layout 0x100000 (mem (sys_world ex_sys4)) = Some 1"
proof -
  have "replay ex_clr ex_kept 0x100000 = Some (plain_value 0x10008 1)"
    by (simp add: replay_def ex_kept_def replay_step_def made_def)
  with handles_hold_last_stored [OF ex_layout_ok ex_dependent ex_sys_start ex_keeper_obeys ex_keeper_play]
  show ?thesis by (auto simp: plain_value_def)
qed

text \<open>C4: In the history of such a client GetTotalAllocatedBytes answers the sum of the sizes Alloc
  has served in the history so far, modulo 2 ^ 64: a request answered with null and an object
  allocated inline add nothing, and no other call changes the total.\<close>

theorem total_answers_served:
  fixes clr :: "'w::len word clr_interface"
  assumes "layout_ok lay" and "live_type (hndtype_dependent clr)" and "sys_start clr lay g"
    and "client_obeys (gc_pre clr lay) (gc_ideal clr) ideal_start client"
    and "play (gc_exec clr lay) client g n = Some (tr, g')"
    and "i < n" and "tr ! i = (Gc_Method (Bcl M_GetTotalAllocatedBytes), r)"
  shows "r = Method_Value (VU64 (of_nat (served (take i tr))))"
  using history_totals [OF collector_history_of(3) [OF assms(1-5)]]
    collector_history_of(1) [OF assms(1-5)] assms(6,7) by blast

theorem total_answers_served_witness:
  "(Method_Value (VU64 104) :: 64 word gc_answer) = Method_Value (VU64 (of_nat (served (take 4 ex_history5))))"
  by (rule total_answers_served [OF ex_layout_ok ex_dependent ex_sys_start ex_gc_client_obeys
        ex_play5, of 4]) (simp_all add: ex_history5_def ex_history_def)

text \<open>C5: No handle ever dangles: when the runtime puts into handles only null and objects it was
  given, then in every state the collector reaches the object and the secondary of every held
  handle are null or an object that was handed out and still lies, with its header, inside
  one block of the heap.\<close>

theorem handles_never_dangle:
  fixes clr :: "'w::len word clr_interface"
  assumes "layout_ok lay" and "live_type (hndtype_dependent clr)" and "sys_reach clr lay g"
    and "handle_lookup lay (mem (sys_world g)) h = Some v"
    and "p = a_object v \<or> p = a_secondary v"
  shows "p = 0 \<or> (\<exists>n. (p, n) \<in> set (objs (sys_world g)) \<and>
    in_block (mem (sys_world g)) (unat p - 8, unat p + n))"
proof -
  have i: "world_inv ObjectGap (sys_world g)"
    "values_given (sys_world g) (handle_lookup lay (mem (sys_world g)))"
    using sys_reach_inv [OF assms(1-3)] by (simp_all add: sys_inv_def)
  have "unat (ObjectGap :: 'w word) = 8" by (rule ObjectGap_unat [OF layout_target [OF assms(1)]])
  moreover have "given (sys_world g) p" using i(2) assms(4,5) by (auto simp: values_given_def)
  ultimately show ?thesis
    using i(1) by (fastforce simp: given_def world_inv_def object_ok_def)
qed

theorem handles_never_dangle_witness:
  "\<exists>n. (0x10008, n) \<in> set (objs (sys_world ex_sys4)) \<and>
    in_block (mem (sys_world ex_sys4)) (unat (0x10008 :: 64 word) - 8, unat (0x10008 :: 64 word) + n)"
  using handles_never_dangle [OF ex_layout_ok ex_dependent ex_sys_reach4, of "0x100000" ex_svalue "0x10008"]
    ex_sys_lookup
  by (simp add: ex_sys_defs ex_svalue_def)

text \<open>C6: Against the specification of the handle API every client is safe: a client that, whatever
  it is answered, makes only calls the specification allows (calls on the manager after
  Initialize, on handles it holds, with live types) runs for any number of calls without
  undefined behaviour, and all results it sees are results the specification allows.\<close>

theorem manager_refines_specification:
  assumes "store_ok lay s" and "live_type (hndtype_dependent clr)"
    and "client_obeys handle_pre (handle_api_spec clr) (handle_abs lay (hm, s)) client"
  shows "\<exists>tr st. play (handle_api clr lay) client (hm, s) n = Some (tr, st) \<and> length tr = n \<and>
    spec_history handle_pre (handle_api_spec clr) client (handle_abs lay (hm, s)) tr (handle_abs lay st)"
  using handle_client.play_refines [of clr lay "(hm, s)" client n] assms
  by (auto simp: handle_api_inv_def)

theorem manager_refines_specification_witness:
  "\<exists>tr st. play (handle_api ex_clr ex_layout) ex_client (new_uGCHandleManager, ex_store0) 100 =
    Some (tr, st) \<and> length tr = 100"
  using manager_refines_specification
    [OF ex_store_ok ex_dependent ex_client_obeys, of new_uGCHandleManager 100] by blast

text \<open>C7: The heap keeps off the handle store: in every state the collector reaches, no object, with
  its header, and no open window of a context overlaps the handle array or the array of
  secondaries.\<close>

theorem heap_avoids_handle_arrays:
  fixes clr :: "'w::len word clr_interface"
  assumes "layout_ok lay" and "live_type (hndtype_dependent clr)" and "sys_reach clr lay g"
    and "a = addr_handles lay \<or> a = addr_dependent lay"
  shows "(\<forall>ob \<in> set (objs (sys_world g)).
      apart (span a (array_bytes TYPE('w))) (obj_span 8 ob)) \<and>
    (\<forall>c \<in> set (ctxs (sys_world g)). \<forall>p l. window (mem (sys_world g)) c = Some (p, l) \<longrightarrow>
      apart (span a (array_bytes TYPE('w))) (unat p - 8, unat l))"
proof -
  have "clear 8 (sys_world g) (span a (array_bytes TYPE('w)))"
    using sys_reach_off_limits [OF assms(1-3)] assms(4)
    by (auto simp: off_limits_def array_spans_def ObjectGap_eq)
  moreover have "unat (8 :: 'w word) = 8"
    using ObjectGap_unat [OF layout_target [OF assms(1)]] by (simp add: ObjectGap_eq)
  ultimately show ?thesis by (auto simp: clear_def win_span_def)
qed

theorem heap_avoids_handle_arrays_witness:
  "apart (span (0x100000 :: 64 word) (array_bytes TYPE(64))) (obj_span 8 (0x10008 :: 64 word, 104))"
proof -
  have "(0x10008, 104) \<in> set (objs (sys_world ex_sys4))" by (simp add: ex_sys_defs)
  with conjunct1 [OF heap_avoids_handle_arrays [OF ex_layout_ok ex_dependent ex_sys_reach4, of "0x100000"]]
  show ?thesis by (simp add: ex_layout_def)
qed

section \<open>The allocator\<close>

text \<open>C8: A call of ugc_core_alloc that meets the precondition of the ACSL contract returns, and
  the result and the memory it leaves are what the contract's behaviour for these arguments
  (overflow, direct, bump or refill) ensures; and it changes only what the behaviour's assigns
  clause names: no byte of a block that was there, no counter, no pointer variable but the two
  of the context (none on the direct path, only the first on a bump), no global of the handle
  store.\<close>

theorem core_alloc_correct:
  fixes m :: "('w::len word, 'm) cmem_scheme"
  assumes "rv_target TYPE('w)" and "core_alloc_requires m pp lp hdr"
  shows "\<exists>r m'. ugc_core_alloc ugc_zalloc pp lp sz bypass hdr m = Some (r, m') \<and>
    core_alloc_ensures m pp lp sz bypass hdr r m' \<and> cmem.more m' = cmem.more m"
  using ugc_zalloc.core_alloc_returns [OF assms(2)]
    ugc_zalloc.core_alloc_meets_contract [OF assms] core_alloc_more by blast

theorem core_alloc_correct_witness:
  "\<exists>r m'. ugc_core_alloc ugc_zalloc 16 24 104 False 8 ex_mem = Some (r, m') \<and>
    core_alloc_ensures ex_mem 16 24 104 False 8 r m'"
  using core_alloc_correct [OF rv_target_64 ex_requires, of 104 False] by blast

text \<open>C9: The core leaves a context on which it can be called again: whenever the precondition of the
  contract holds for a context, it holds after the call, whatever branch the call took.\<close>

theorem core_alloc_keeps_precondition:
  fixes m :: "('w::len word, 'm) cmem_scheme"
  assumes "rv_target TYPE('w)" and "core_alloc_requires m pp lp hdr"
    and "ugc_core_alloc ugc_zalloc pp lp sz bypass hdr m = Some (r, m')"
  shows "core_alloc_requires m' pp lp hdr"
  by (rule ugc_zalloc.core_alloc_keeps_requires [OF assms])

theorem core_alloc_keeps_precondition_witness: "core_alloc_requires ex_mem1 16 24 8"
  by (rule core_alloc_keeps_precondition [OF rv_target_64 ex_requires ex_quantum])

text \<open>C10: In every state the allocator can reach, whatever the contexts, the order of calls, the
  runtime's inline bumps and the mutator's writes, no two objects overlap, their headers
  included.\<close>

theorem objects_never_overlap:
  fixes s :: "('w::len, 'm) mworld"
  assumes "rv_target TYPE('w)" and "1 \<le> unat hdr" and "alloc_reach ugc_zalloc hdr s"
    and "i < j" and "j < length (objs s)"
  shows "apart (obj_span hdr (objs s ! i)) (obj_span hdr (objs s ! j))"
  using ugc_zalloc.alloc_reach_inv [OF assms(1-3)] assms(4,5)
  by (simp add: world_inv_def sorted_wrt_iff_nth_less)

theorem objects_never_overlap_witness:
  "apart (obj_span 8 (objs ex_w4 ! 1)) (obj_span 8 (objs ex_w4 ! 2))"
  by (rule objects_never_overlap [OF rv_target_64 _ ex_reach4]) (simp_all add: ex_w4_def)

text \<open>C11: In every reachable state the open window of a context lies with its header inside one
  allocated block, spans at most a quantum less the header, is zero throughout, and is apart
  from every object and from the window of every other context.\<close>

theorem window_is_private:
  fixes s :: "('w::len, 'm) mworld"
  assumes "rv_target TYPE('w)" and "1 \<le> unat hdr" and "alloc_reach ugc_zalloc hdr s"
    and "c \<in> set (ctxs s)" and "window (mem s) c = Some (p, l)"
  shows "in_block (mem s) (unat p - unat hdr, unat l) \<and> unat p \<le> unat l \<and>
    unat l - unat p \<le> 65536 - unat hdr \<and>
    zero_span (mem s) (unat p - unat hdr, unat l) \<and>
    (\<forall>ob \<in> set (objs s). apart (unat p - unat hdr, unat l) (obj_span hdr ob)) \<and>
    (\<forall>d \<in> set (ctxs s). \<forall>q k. d \<noteq> c \<and> window (mem s) d = Some (q, k) \<longrightarrow>
       apart (unat p - unat hdr, unat l) (unat q - unat hdr, unat k))"
  using world_inv_window [OF ugc_zalloc.alloc_reach_inv [OF assms(1-3)] assms(4,5)]
  by (auto simp: window_ok_def win_span_def)

theorem window_is_private_witness:
  "zero_span (mem ex_w4) (0x10080, 0x20000) \<and>
   apart (0x10080, 0x20000) (obj_span 8 (0x10070 :: 64 word, 24))"
proof -
  have c: "(16, 24) \<in> set (ctxs ex_w4)" by (simp add: ex_w4_def)
  have w: "window (mem ex_w4) (16, 24) = Some (0x10088, 0x20000)"
    by (simp add: ex_w4_def ex_mem_defs window_def)
  have "(0x10070, 24) \<in> set (objs ex_w4)" by (simp add: ex_w4_def)
  then show ?thesis using window_is_private [OF rv_target_64 _ ex_reach4 c w] by fastforce
qed

text \<open>C12: A non-null result of ugc_core_alloc in a reachable state is a new object: its bytes and
  its header are zero, lie inside one allocated block, and overlap no object handed out
  before.\<close>

theorem new_object_fresh:
  fixes s :: "('w::len, 'm) mworld"
  assumes t: "rv_target TYPE('w)" and h: "1 \<le> unat hdr" and r: "alloc_reach ugc_zalloc hdr s"
    and c: "pp = 0 \<or> (pp, lp) \<in> set (ctxs s)"
    and run: "ugc_core_alloc ugc_zalloc pp lp sz bypass hdr (mem s) = Some (p, m')" and p: "p \<noteq> 0"
  shows "zero_span m' (unat p - unat hdr, unat p + unat sz) \<and>
    in_block m' (unat p - unat hdr, unat p + unat sz) \<and>
    (\<forall>ob \<in> set (objs s). apart (obj_span hdr (p, unat sz)) (obj_span hdr ob))"
proof -
  note inv = ugc_zalloc.alloc_reach_inv [OF t h r]
  have "world_inv hdr (s\<lparr>mem := m', objs := (p, unat sz) # objs s\<rparr>)"
    using ugc_zalloc.world_inv_call [OF t h inv c run] p by simp
  with ugc_zalloc.call_result_zero [OF t inv c run p] show ?thesis
    by (simp add: world_inv_def object_ok_def)
qed

theorem new_object_fresh_witness:
  "zero_span ex_mem3 (0x30000, 0x50008) \<and>
   apart (obj_span 8 (0x30008 :: 64 word, 0x20000)) (obj_span 8 (0x10070 :: 64 word, 24))"
  using new_object_fresh [OF rv_target_64 _ ex_reach3, of 0 0 "0x20000" False "0x30008" ex_mem3]
    ex_large by (simp add: ex_w3_def)

text \<open>C13: A call of ugc_core_alloc in a reachable state changes no byte of any object handed out
  before, its header included.\<close>

theorem object_bytes_kept:
  fixes s :: "('w::len, 'm) mworld"
  assumes "rv_target TYPE('w)" and "1 \<le> unat hdr" and "alloc_reach ugc_zalloc hdr s"
    and "ob \<in> set (objs s)"
    and "fst (obj_span hdr ob) \<le> unat x" and "unat x < snd (obj_span hdr ob)"
    and "ugc_core_alloc ugc_zalloc pp lp sz bypass hdr (mem s) = Some (r, m')"
  shows "bytes m' x = bytes (mem s) x"
  using ugc_zalloc.call_keeps_objects [OF ugc_zalloc.alloc_reach_inv [OF assms(1-3)]] assms(4-7)
  by blast

theorem object_bytes_kept_witness: "bytes ex_mem3 0x10010 = bytes (mem ex_w3) 0x10010"
  by (rule object_bytes_kept [OF rv_target_64 _ ex_reach3, of "(0x10008, 104)" _ 0 0 "0x20000" False])
    (use ex_large in \<open>simp_all add: ex_w3_def obj_span_def\<close>)

text \<open>C14: With a header size that is a multiple of 8, every object of a run whose object sizes
  are all multiples of 8 starts at a multiple of 8.\<close>

theorem objects_aligned:
  fixes s :: "('w::len, 'm) mworld"
  assumes "rv_target TYPE('w)" and "1 \<le> unat hdr" and "8 dvd unat hdr"
    and "alloc_reach ugc_zalloc hdr s" and "\<forall>ob \<in> set (objs s). 8 dvd snd ob"
  shows "\<forall>ob \<in> set (objs s). 8 dvd unat (fst ob)"
  using ugc_zalloc.alloc_reach_aligned [OF assms(1-4)] assms(5)
  by (simp add: aligned_sizes_def aligned_world_def)

theorem objects_aligned_witness: "8 dvd unat (fst (0x10070 :: 64 word, 24 :: nat))"
  by (rule bspec [OF objects_aligned [OF rv_target_64 _ _ ex_reach4]]) (simp_all add: ex_w4_def)

text \<open>C15: The core's bump is the runtime's inline bump: when the window of the context has room
  for an object that fits a quantum, ugc_core_alloc returns the object and the memory the
  inline allocation gives, and asks the zeroing allocator for nothing.\<close>

theorem core_bump_is_inline_bump:
  fixes m :: "('w::len word, 'm) cmem_scheme"
  assumes "rv_target TYPE('w)" and "core_alloc_requires m pp lp hdr" and "pp \<noteq> 0"
    and "unat sz + unat hdr \<le> 65536" and "inline_bump pp lp sz m = Some (r, m')"
  shows "ugc_core_alloc zalloc pp lp sz False hdr m = Some (r, m')"
  by (rule core_alloc_inline [OF assms(1,2,5,4,3)])

theorem core_bump_is_inline_bump_witness:
  "ugc_core_alloc ugc_zalloc 16 24 24 False 8 ex_mem2 =
     Some (0x10088, ex_mem2\<lparr>cells := (cells ex_mem2)(16 \<mapsto> 0x100A0)\<rparr>)"
  by (rule core_bump_is_inline_bump [OF rv_target_64 ex_requires2])
    (simp_all add: inline_bump_def window_def ex_mem_defs)

text \<open>C16: The cost of never collecting: in every run from a start, the bytes taken from calloc are at
  least those of the objects handed out, and at most twice those, one header per object, and
  one quantum less its header per context, beside what was allocated before the run.\<close>

theorem memory_cost_bounded:
  fixes s :: "('w::len, 'm) mworld"
  assumes "rv_target TYPE('w)" and "1 \<le> unat hdr" and "world_start s0"
    and "(alloc_step ugc_zalloc hdr)\<^sup>*\<^sup>* s0 s"
  shows "block_bytes (mem s0) + object_bytes s \<le> block_bytes (mem s) \<and>
    block_bytes (mem s) \<le> block_bytes (mem s0) + 2 * object_bytes s +
      unat hdr * length (objs s) + (65536 - unat hdr) * length (ctxs s)"
proof -
  note c = ugc_zalloc.cost_steps [OF assms]
  then have "window_bytes s \<le> (65536 - unat hdr) * length (ctxs s)"
    by (intro ugc_zalloc.window_bytes_le) blast
  with c show ?thesis unfolding cost_ok_def by linarith
qed

theorem memory_cost_bounded_witness:
  "block_bytes (mem ex_w4) \<le> 2 * (0x20000 + 24 + 104) + 8 * 3 + 65528 * 1 \<and>
   0x20000 + 24 + 104 \<le> block_bytes (mem ex_w4)"
proof -
  have "world_start ex_w0" by (simp add: world_start_def ex_w0_def mem_ok_def ex_mem_defs)
  from memory_cost_bounded [OF rv_target_64 _ this, of 8 ex_w4] ex_steps4 show ?thesis
    by (simp add: ex_w0_def ex_w4_def object_bytes_def block_bytes_def ex_mem_defs)
qed

text \<open>C17: One block serves a whole quantum of requests: on an empty context, when calloc grants one
  quantum, every request of a list whose sizes fit it behind the header succeeds, the objects
  lie one after the other behind the header, and calloc is asked once.\<close>

theorem one_quantum_serves:
  fixes szs :: "'w::len word list"
  assumes "rv_target TYPE('w)" and "pp \<noteq> 0" and "pp \<noteq> lp"
    and "cells m pp = Some 0" and "lp \<in> dom (cells m)"
    and "total_size szs + unat hdr \<le> 65536" and "szs \<noteq> []"
    and "ugc_zalloc UGC_ALLOC_QUANTUM m = (a, m1)" and "a \<noteq> 0"
  shows "serve ugc_zalloc pp lp hdr szs m = Some (consecutive (a + hdr) szs,
    m1\<lparr>cells := (cells m1)(pp \<mapsto> a + hdr + of_nat (total_size szs), lp \<mapsto> a + UGC_ALLOC_QUANTUM)\<rparr>)"
  by (rule ugc_zalloc.serve_quantum [OF assms])

theorem one_quantum_serves_witness:
  "\<exists>m'. serve ugc_zalloc 16 24 8 [104, 24, 0xFF78] ex_mem = Some ([0x10008, 0x10070, 0x10088], m')"
proof -
  have "ugc_zalloc UGC_ALLOC_QUANTUM ex_mem =
      (0x10000, ex_mem1\<lparr>cells := cells ex_mem\<rparr>)"
    by (simp add: ugc_zalloc_def calloc_def calloc_places_def UGC_ALLOC_QUANTUM_def ex_mem_defs)
  from one_quantum_serves [OF rv_target_64 _ _ _ _ _ _ this, of 16 24 "[104, 24, 0xFF78]" 8]
  show ?thesis by (simp add: ex_mem_defs)
qed

text \<open>C18: A call of the core that meets the precondition returns null only when it has to: when the
  size with its header overflows, or when the call needs a block, of the size or of a
  quantum, and the zeroing allocator returns null for it. A bump never fails.\<close>

theorem core_alloc_fails_only_when:
  fixes m :: "('w::len word, 'm) cmem_scheme"
  assumes "rv_target TYPE('w)" and "core_alloc_requires m pp lp hdr"
    and "ugc_core_alloc ugc_zalloc pp lp sz bypass hdr m = Some (r, m')"
  shows "r = 0 \<longleftrightarrow>
    (case core_alloc_behavior m pp lp sz bypass hdr of
       Overflow \<Rightarrow> True
     | Direct \<Rightarrow> fst (ugc_zalloc (sz + hdr) m) = 0
     | Bump \<Rightarrow> False
     | Refill \<Rightarrow> fst (ugc_zalloc UGC_ALLOC_QUANTUM m) = 0)"
  by (rule ugc_zalloc.core_alloc_null_iff [OF assms])

theorem core_alloc_fails_only_when_witness:
  "(0x10008 :: 64 word) = 0 \<longleftrightarrow>
    (case core_alloc_behavior ex_mem 16 24 104 False 8 of
       Overflow \<Rightarrow> True
     | Direct \<Rightarrow> fst (ugc_zalloc (104 + 8) ex_mem) = 0
     | Bump \<Rightarrow> False
     | Refill \<Rightarrow> fst (ugc_zalloc UGC_ALLOC_QUANTUM ex_mem) = 0)"
  by (rule core_alloc_fails_only_when [OF rv_target_64 ex_requires ex_quantum])

text \<open>C19: Inside the core every function meets its own ACSL contract: the zeroing allocator, the
  direct path and the refill within their preconditions; the ACSL assertions in the two
  bodies hold there; and the core takes the direct path and the refill only where those
  preconditions hold.\<close>

theorem core_helpers_meet_contracts:
  fixes m :: "('w::len word, 'm) cmem_scheme"
  assumes "rv_target TYPE('w)"
  shows "(\<forall>p m'. ugc_zalloc n m = (p, m') \<longrightarrow> zalloc_ensures m n p m') \<and>
    (\<forall>r m'. direct_requires sz hdr \<and> ugc_alloc_direct ugc_zalloc sz hdr m = (r, m') \<longrightarrow>
       direct_ensures m sz r m') \<and>
    (refill_requires m pp lp sz hdr \<longrightarrow>
       (\<exists>r m'. ugc_ctx_refill ugc_zalloc pp lp sz hdr m = Some (r, m') \<and>
          refill_ensures m pp lp sz hdr r m')) \<and>
    (\<forall>a m'. direct_requires sz hdr \<and> ugc_zalloc (sz + hdr) m = (a, m') \<and> a \<noteq> 0 \<longrightarrow>
       direct_asserts m' a sz hdr) \<and>
    (\<forall>a m'. refill_requires m pp lp sz hdr \<and> ugc_zalloc UGC_ALLOC_QUANTUM m = (a, m') \<and> a \<noteq> 0 \<longrightarrow>
       refill_asserts m' a sz hdr) \<and>
    (core_alloc_requires m pp lp hdr \<longrightarrow>
       (core_alloc_behavior m pp lp sz bypass hdr = Direct \<longrightarrow> direct_requires sz hdr) \<and>
       (core_alloc_behavior m pp lp sz bypass hdr = Refill \<longrightarrow> refill_requires m pp lp sz hdr))"
  using ugc_zalloc.zalloc_meets_contract ugc_zalloc.direct_meets_contract
    ugc_zalloc.refill_meets_contract [OF assms]
    ugc_zalloc.direct_assertions ugc_zalloc.refill_assertions [OF assms]
    direct_precondition [of m pp lp hdr sz bypass] refill_precondition [of m pp lp hdr sz bypass]
  by auto

theorem core_helpers_meet_contracts_witness:
  "\<exists>r m'. ugc_ctx_refill ugc_zalloc 16 24 104 8 ex_mem = Some (r, m') \<and>
    refill_ensures ex_mem 16 24 104 8 r m'"
proof -
  have "refill_requires ex_mem 16 24 104 8" by (simp add: refill_requires_def ex_mem_defs)
  with core_helpers_meet_contracts [OF rv_target_64, of 0 ex_mem 104 8 16 24 False]
  show ?thesis by blast
qed

section \<open>The heap\<close>

text \<open>C20: uGCHeap::Alloc with good arguments returns the result of the core's allocation with a
  header gap of 8 bytes; a null result changes no counter, another adds the size to the total
  of the heap and to the context's counter for the small or the large object heap, and
  nothing else.\<close>

theorem Alloc_correct:
  fixes m :: "('w::len word, 'm) cmem_scheme"
  assumes ok: "alloc_args_ok clr acontext sz flags m"
  shows "\<exists>r m1 h' m'.
    ugc_core_alloc ugc_zalloc (fst (ctx_ptrs clr acontext)) (snd (ctx_ptrs clr acontext)) sz
      (flags AND gc_alloc_user_old_heap clr \<noteq> 0) 8 m = Some (r, m1) \<and>
    Alloc clr acontext sz flags h m = Some (r, h', m') \<and>
    h' = (if r = 0 then h else h\<lparr>allocatedBytes := allocatedBytes h + ucast sz\<rparr>) \<and>
    m' = (if r = 0 \<or> acontext = 0 then m1
          else m1\<lparr>i64s := (i64s m)(alloc_counter clr acontext flags \<mapsto>
            the (i64s m (alloc_counter clr acontext flags)) + int64_of_size sz)\<rparr>)"
proof -
  from Alloc_returns [OF ok] obtain r h' m' where run: "Alloc clr acontext sz flags h m = Some (r, h', m')"
    by blast
  then show ?thesis
  proof (cases rule: Alloc_cases)
    case failed
    with run show ?thesis by (simp add: ObjectGap_eq)
  next
    case (served m1)
    with run core_alloc_i64s [OF served(1)] show ?thesis
      by (auto simp: ObjectGap_eq add_i64_Some_iff split: if_splits)
  qed
qed

theorem Alloc_correct_witness:
  "\<exists>r m1 h' m'.
    ugc_core_alloc ugc_zalloc 16 24 104 False 8 ex_mem = Some (r, m1) \<and>
    Alloc ex_clr 16 104 0 (new_uGCHeap 0x50) ex_mem = Some (r, h', m')"
  using Alloc_correct [OF ex_alloc_args, of "new_uGCHeap 0x50"] by (auto simp: ex_ctx_ptrs)

text \<open>C21: In every state a run of the heap reaches, GetTotalAllocatedBytes is the bytes Alloc has
  served modulo 2 ^ 64, GetTotalBytesInUse is the same number cut to the width of size_t, and
  GetMemoryInfo, given pointers to sixteen variables of the caller, stores it in the heap
  size and the committed bytes and zero in all others.\<close>

theorem heap_counts_bytes:
  fixes g :: "'w::len word gc_run"
  assumes "rv_target TYPE('w)" and "gc_reach clr g"
    and "info_valid out s" and "info_distinct out"
  shows "GetTotalAllocatedBytes clr (heap g) = of_nat (served_bytes g) \<and>
    GetTotalBytesInUse clr (heap g) = of_nat (served_bytes g) \<and>
    (\<exists>s'. GetMemoryInfo out kind (heap g) s = Some s' \<and>
      info_holds out (memory_report (of_nat (served_bytes g))) s')"
proof -
  have a: "allocatedBytes (heap g) = of_nat (served_bytes g)"
    using gc_reach_inv [OF assms(1,2)] by (simp add: gc_inv_def)
  have "LENGTH('w) \<le> 64" using assms(1) by (auto simp: rv_target_def)
  then have "ucast (of_nat n :: 64 word) = (of_nat n :: 'w word)" for n
    by (simp add: unsigned_of_nat take_bit_of_nat word_of_nat_eq_iff take_bit_take_bit min_def)
  with a GetMemoryInfo_reports [OF assms(3,4), of kind "heap g"] show ?thesis
    by (auto simp: GetTotalAllocatedBytes_def GetTotalBytesInUse_def)
qed

theorem heap_counts_bytes_witness:
  "GetTotalAllocatedBytes ex_clr (heap ex_run4) = of_nat 104 \<and>
   (\<exists>s'. GetMemoryInfo ex_out 0 (heap ex_run4) ex_vars = Some s' \<and>
     u64_vars s' 0x218 = Some 104 \<and> u64_vars s' 0x228 = Some 104 \<and> u64_vars s' 0x200 = Some 0)"
  using heap_counts_bytes [OF rv_target_64 ex_gc_reach4 ex_out_ok, of 0]
  by (auto simp: ex_run2_def ex_run4_def info_holds_def outs_u64_def ex_out_def memory_report_def)


section \<open>The handle store\<close>

text \<open>C22: From the initial globals, any sequence of calls of the functions of ugc_core.h that
  change the store, the reset included, runs without undefined behaviour and leaves the store
  consistent as the ACSL contract has it, with no slot on the free stack twice and, among the
  slots taken, exactly those on the stack with a negative type. Each call must meet the
  requires clauses of its contract (so a create has a type that is not negative, and a destroy
  names a taken slot), and ugc_handle_set_type_at must name a live slot and a type that is not
  negative: the contract asks for a valid index only, and that is too little (C39).\<close>

theorem store_invariant:
  assumes "ops_allowed lay ops (globals_init m)"
  shows "\<exists>s. store_ops lay ops (globals_init m) = Some s \<and>
    ugc_store_consistent s \<and> distinct (free_slots s) \<and>
    (\<forall>i < nat (ugc_handle_count s). ugc_handle_types s i < 0 \<longleftrightarrow> i \<in> set (free_slots s))"
  using store_ops_start [OF assms] by (auto simp: store_inv_def)

theorem store_invariant_witness:
  "ugc_store_consistent ex_store3 \<and> distinct (free_slots ex_store3) \<and>
   (ugc_handle_types ex_store3 0 < 0 \<longleftrightarrow> 0 \<in> set (free_slots ex_store3))"
  using store_invariant [OF ex_ops_allowed] ex_ops_run by fastforce

text \<open>C23: A client that creates handles and destroys handles it holds, starting with an empty
  store, never holds one handle twice nor a null handle, and every handle it holds has the
  object, type, extra info and secondary it was created with, for as long as it is held.\<close>

theorem session_never_aliases:
  assumes "session (create_value lay) (uDestroyHandle lay) good_value 0 s0 s held"
    and "store_ok lay s0" and "handle_lookup lay s0 = Map.empty"
  shows "distinct (map fst held) \<and> 0 \<notin> fst ` set held \<and> handle_lookup lay s = map_of held"
  using store_provider.session_exact [OF assms] by blast

theorem session_never_aliases_witness:
  "handle_lookup ex_layout ex_store2 = map_of [(0x100008, ex_value2), (0x100000, ex_value1)]"
  using session_never_aliases [OF ex_session ex_store_ok ex_lookup0] by blast

text \<open>C24: The three creating functions refine the abstract store, a finite map of live slots with a
  LIFO list of freed slots: with a live type each returns the pointer to the slot the abstract
  create takes, or null when that fails, and leaves the abstract state it leaves.\<close>

theorem creates_refine:
  assumes "store_inv s" and "0 \<le> type"
  shows "(\<exists>s1. ugc_handle_create lay object type s =
      Some (handle_of lay (fst (a_create \<lparr>a_object = object, a_type = type, a_extra = 0,
        a_secondary = 0\<rparr> (abs_store s))), s1) \<and> store_inv s1 \<and>
      abs_store s1 = snd (a_create \<lparr>a_object = object, a_type = type, a_extra = 0,
        a_secondary = 0\<rparr> (abs_store s))) \<and>
    (\<exists>s2. ugc_handle_create_with_extra lay object type extra s =
      Some (handle_of lay (fst (a_create \<lparr>a_object = object, a_type = type, a_extra = extra,
        a_secondary = 0\<rparr> (abs_store s))), s2) \<and> store_inv s2 \<and>
      abs_store s2 = snd (a_create \<lparr>a_object = object, a_type = type, a_extra = extra,
        a_secondary = 0\<rparr> (abs_store s))) \<and>
    (\<exists>s3. ugc_handle_create_dependent lay object secondary type s =
      Some (handle_of lay (fst (a_create \<lparr>a_object = object, a_type = type, a_extra = 0,
        a_secondary = secondary\<rparr> (abs_store s))), s3) \<and> store_inv s3 \<and>
      abs_store s3 = snd (a_create \<lparr>a_object = object, a_type = type, a_extra = 0,
        a_secondary = secondary\<rparr> (abs_store s)))"
  unfolding create_is_slot by (intro conjI create_slot_refines [OF assms])

theorem creates_refine_witness:
  "\<exists>s1. ugc_handle_create ex_layout 0x4000 1 ex_store3 = Some (0x100000, s1) \<and> store_inv s1"
proof -
  have "free_slots ex_store3 = [0]"
    by (simp add: free_slots_def) (simp add: ex_store3_def)
  then show ?thesis
    using conjunct1 [OF creates_refine [OF ex_store_inv(2), of 1 ex_layout "0x4000"]] ex_elem
    by (auto simp: a_create_def handle_of_def)
qed

text \<open>C25: Destroying a slot that was taken refines the abstract destroy: a live slot leaves the map
  and goes to the front of the LIFO list, another is left alone; the call always returns.\<close>

theorem destroy_at_refines:
  fixes idx :: "'w::len word"
  assumes "store_inv s" and "unat idx < nat (ugc_handle_count s)"
  shows "\<exists>s'. ugc_handle_destroy_at idx s = Some s' \<and> store_inv s' \<and>
    abs_store s' = a_destroy (unat idx) (abs_store s)"
  using store_inv_destroy [OF assms] destroy_refines [OF assms] by blast

theorem destroy_at_refines_witness:
  "\<exists>s'. ugc_handle_destroy_at 0 ex_store2 = Some s' \<and> store_inv s' \<and>
    abs_store s' = a_destroy 0 (abs_store ex_store2)"
  using destroy_at_refines [OF ex_store_inv(1), of 0] by simp

text \<open>C26: On a consistent store each of the three creating functions returns and meets its ACSL
  contract: the behaviour (full, recycled or fresh) is the one the contract assigns to the
  state, and result, new slot, counters and assigned locations are what it ensures.\<close>

theorem creates_meet_contracts:
  assumes "ugc_store_consistent s" and "0 \<le> type"
  shows "(\<exists>r s'. ugc_handle_create lay object type s = Some (r, s') \<and>
      create_plain_ensures lay object type s r s') \<and>
    (\<exists>r s'. ugc_handle_create_with_extra lay object type extra s = Some (r, s') \<and>
      create_with_extra_ensures lay object type extra s r s') \<and>
    (\<exists>r s'. ugc_handle_create_dependent lay object secondary type s = Some (r, s') \<and>
      create_dependent_ensures lay object secondary type s r s')"
  unfolding create_is_slot create_plain_ensures_def create_with_extra_ensures_def
    create_dependent_ensures_def
  by (intro conjI create_meets_contract [OF assms(1)])

theorem creates_meet_contracts_witness:
  "\<exists>r s'. ugc_handle_create ex_layout 0x4000 1 ex_store3 = Some (r, s') \<and>
    create_plain_ensures ex_layout 0x4000 1 ex_store3 r s'"
  using conjunct1 [OF creates_meet_contracts
    [OF store_inv_consistent [OF ex_store_inv(2)], of 1 ex_layout "0x4000"]] by simp

text \<open>C27: Within its precondition ugc_handle_destroy_at returns and meets its ACSL contract: a slot
  already free is left alone, another is scrubbed, marked free and pushed on the stack, and
  nothing else is assigned.\<close>

theorem destroy_meets_its_contract:
  fixes idx :: "'w::len word"
  assumes "destroy_requires idx s"
  shows "\<exists>s'. ugc_handle_destroy_at idx s = Some s' \<and> destroy_ensures idx s s'"
  by (rule destroy_meets_contract [OF assms])

theorem destroy_meets_its_contract_witness:
  "\<exists>s'. ugc_handle_destroy_at 1 ex_store3 = Some s' \<and> destroy_ensures 1 ex_store3 s'"
  by (rule destroy_meets_its_contract)
    (simp add: destroy_requires_def store_inv_consistent ex_store_inv)

text \<open>C28: After such a sequence of calls (each within the requires clauses of its contract, and
  set_type_at only on live slots and with types that are not negative) the slots taken are the
  most slots that were live at a time since the last reset, or since the start: slots are
  recycled before new ones are taken, and live slots and freed slots add up to the taken ones.\<close>

theorem count_is_high_water_mark:
  assumes "ops_allowed lay ops (globals_init m)"
    and "store_ops lay ops (globals_init m) = Some s"
  shows "nat (ugc_handle_count s) = live_peak lay ops (globals_init m) 0 \<and>
    card (live_slots s) + nat (ugc_handle_free_count s) = nat (ugc_handle_count s)"
  using store_ops_start [OF assms(1)] assms(2) card_live_slots [of s] by auto

theorem count_is_high_water_mark_witness:
  "live_peak ex_layout ex_ops (globals_init ex_mem) 0 = 2 \<and> card (live_slots ex_store3) + 1 = 2"
  using count_is_high_water_mark [OF ex_ops_allowed ex_ops_run] by simp

text \<open>C29: A create with a live type returns null exactly when all 65535 slots are live, and then it
  changes nothing.\<close>

theorem create_null_iff_exhausted:
  assumes "store_ok lay s" and "0 \<le> type"
  shows "\<exists>h s'. ugc_handle_create lay object type s = Some (h, s') \<and>
    (h = 0 \<longleftrightarrow> card (live_slots s) = UGC_HANDLE_COUNT) \<and> (h = 0 \<longrightarrow> s' = s)"
proof -
  let ?v = "\<lparr>a_object = object, a_type = type, a_extra = 0, a_secondary = 0\<rparr>"
  have t: "good_value ?v" using assms(2) by (simp add: good_value_def live_type_def)
  obtain h s' where run: "create_value lay ?v s = Some (h, s')"
    using create_slot_defined assms(1) by (fastforce simp: create_value_slot [OF t] store_ok_def)
  with create_value_exhausted [OF assms(1) t run] create_value_null [OF assms(1) t, of s'] show ?thesis
    by (auto simp: create_value_slot [OF t] create_is_slot)
qed

theorem create_null_iff_exhausted_witness:
  "\<exists>h s'. ugc_handle_create ex_layout 0x1000 1 ex_store2 = Some (h, s') \<and> h \<noteq> 0"
proof -
  have "card (live_slots ex_store2) \<noteq> UGC_HANDLE_COUNT"
    by (simp add: ex_live UGC_HANDLE_COUNT_def)
  then show ?thesis
    using create_null_iff_exhausted [of ex_layout ex_store2 1 "0x1000"] ex_store_inv(1) ex_layout_ok
    by (auto simp: store_ok_def)
qed

text \<open>C30: Resetting the store returns, from any state, and meets its contract: both counters and
  every element of the five arrays are zero, and the rest of memory is as it was. The store
  it leaves has the invariant of a run.\<close>

theorem reset_meets_its_contract:
  "\<exists>s'. ugc_handle_store_reset s = Some s' \<and> reset_ensures s s' \<and> store_inv s'"
  using reset_meets_contract [of s] store_inv_reset by blast

section \<open>Handles as addresses\<close>

text \<open>C31: Handles and slots correspond: the handle of slot i has index i; an address is a handle
  exactly when ContainsHandle says so and it is aligned to a pointer; and then it is the
  address of the slot its index names, which is a slot of the array.\<close>

theorem handle_index_roundtrip:
  fixes lay :: "'w::len word layout"
  assumes "layout_ok lay" and "i < UGC_HANDLE_COUNT"
  shows "unat (ugc_handle_index lay (elem_addr (addr_handles lay) i)) = i \<and>
    (ugc_valid_slot lay h \<longleftrightarrow> ContainsHandle lay h \<and> unat h mod ptr_bytes TYPE('w) = 0) \<and>
    (ugc_valid_slot lay h \<longrightarrow>
       elem_addr (addr_handles lay) (unat (ugc_handle_index lay h)) = h \<and>
       unat (ugc_handle_index lay h) < UGC_HANDLE_COUNT)"
  using index_of_elem [OF assms(1)] contains_aligned_iff [OF assms(1), of h] assms(2)
  by (auto simp: ugc_valid_slot_def ContainsHandle_def)

theorem handle_index_roundtrip_witness:
  "unat (ugc_handle_index ex_layout (elem_addr (addr_handles ex_layout) 5)) = 5 \<and>
   elem_addr (addr_handles ex_layout) (unat (ugc_handle_index ex_layout 0x100008)) = 0x100008"
proof -
  have "ugc_valid_slot ex_layout 0x100008"
    using ex_elem by (auto simp: ugc_valid_slot_def UGC_HANDLE_COUNT_def intro!: exI [of _ 1])
  then show ?thesis
    using handle_index_roundtrip [OF ex_layout_ok, of 5 "0x100008"] by (simp add: UGC_HANDLE_COUNT_def)
qed

text \<open>C32: Within their preconditions the accessors by index and the operations through a slot pointer
  return and meet their ACSL contracts: each assigns the one location its contract names,
  also when the pointer aliases an array of the store.\<close>

theorem accessors_and_slots_meet_contracts:
  fixes idx :: "'w::len word"
  assumes "index_requires idx" and "valid_slot_ptr lay slot s"
  shows "(\<exists>q. ugc_handle_dependent_slot_at lay idx = Some q \<and> dependent_slot_ensures lay idx q) \<and>
    (\<exists>ty. ugc_handle_get_type_at idx s = Some ty \<and> get_type_ensures idx s ty) \<and>
    (\<exists>e. ugc_handle_get_extra_at idx s = Some e \<and> get_extra_ensures idx s e) \<and>
    (\<exists>s'. ugc_handle_set_dependent_at idx v s = Some s' \<and> set_dependent_ensures idx v s s') \<and>
    (\<exists>s'. ugc_handle_set_type_at idx t s = Some s' \<and> set_type_ensures idx t s s') \<and>
    (\<exists>s'. ugc_handle_set_extra_at idx v s = Some s' \<and> set_extra_ensures idx v s s') \<and>
    (\<exists>s'. ugc_handle_slot_store lay slot v s = Some s' \<and> slot_store_ensures lay slot v s s') \<and>
    (\<exists>b s'. ugc_handle_slot_store_if_null lay slot v s = Some (b, s') \<and>
      store_if_null_ensures lay slot v s b s') \<and>
    (\<exists>r s'. ugc_handle_slot_cas lay slot v c s = Some (r, s') \<and>
      slot_cas_ensures lay slot v c s r s')"
  by (intro conjI accessors_meet_contracts [OF assms(1)] slots_meet_contracts [OF assms(2)])

theorem accessors_and_slots_meet_contracts_witness:
  "\<exists>r s'. ugc_handle_slot_cas ex_layout 0x100000 0x9000 0x1000 ex_store2 = Some (r, s') \<and>
    slot_cas_ensures ex_layout 0x100000 0x9000 0x1000 ex_store2 r s'"
proof -
  have "index_requires (5 :: 64 word)" by (simp add: index_requires_def UGC_HANDLE_COUNT_def)
  moreover have "valid_slot_ptr ex_layout 0x100000 ex_store2"
    using load_held [OF ex_ok2 ex_lookup2(1)] by (simp add: valid_slot_ptr_def)
  ultimately show ?thesis using accessors_and_slots_meet_contracts by blast
qed


section \<open>The handle manager\<close>

text \<open>C33: InterlockedCompareExchangeObjectInHandle stores exactly when the object of the held handle
  is the comparand, and returns the object the handle has afterwards. When it stores it thus
  returns the new object, where the primitive of the runtime returns the old one.\<close>

theorem compare_exchange_returns_new_value:
  assumes "store_ok lay s" and "handle_lookup lay s h = Some v"
  shows "\<exists>s'. InterlockedCompareExchangeObjectInHandle lay h ob old s =
      Some (if a_object v = old then ob else a_object v, s') \<and> store_ok lay s' \<and>
    handle_lookup lay s' =
      (if a_object v = old then (handle_lookup lay s)(h \<mapsto> v\<lparr>a_object := ob\<rparr>) else handle_lookup lay s)"
  by (rule cas_handle [OF assms])

theorem compare_exchange_returns_new_value_witness:
  "\<exists>s'. InterlockedCompareExchangeObjectInHandle ex_layout 0x100000 0x9000 0x1000 ex_store2 =
    Some (0x9000, s')"
  using compare_exchange_returns_new_value [OF ex_ok2 ex_lookup2(1), of "0x9000" "0x1000"]
  by (auto simp: ex_value1_def)

text \<open>C34: GC_Initialize succeeds. Its heap object holds the runtime's interface pointer, has
  counted no byte and starts every run of the heap, and the first segment registered with it
  gets the handle 1. Its manager has no store: before Initialize the calls that are undefined
  behaviour are exactly those that go through the store, and of the others those that
  dereference a pointer to no slot.\<close>

theorem initialize_starts_the_heap:
  assumes "GC_Initialize clr c = (hr, h, hm)" and "world_start w"
  shows "hr = s_ok clr \<and> gcToCLR h = c \<and> GetTotalAllocatedBytes clr h = 0 \<and>
    RegisterFrozenSegment seg h = Some (1, h\<lparr>registeredSegments := 1\<rparr>) \<and>
    gc_start \<lparr>heap = h, wld = w, served_bytes = 0, segs = []\<rparr> \<and>
    handle_store hm = 0 \<and>
    (manager_call lay call hm s = None \<longleftrightarrow>
       needs_store call \<or> (\<exists>p. dereferenced call = Some p \<and> load_slot lay p s = None))"
proof -
  from assms(1) have e: "hr = s_ok clr" "h = new_uGCHeap c" "handle_store hm = 0"
    by (auto simp: GC_Initialize_def new_uGCHandleManager_def Let_def)
  with GC_Initialize_starts [OF assms] manager_call_without_store [OF e(3), of lay call s] show ?thesis
    by (auto simp: new_uGCHeap_def GetTotalAllocatedBytes_def RegisterFrozenSegment_def c_int_def)
qed

theorem initialize_starts_the_heap_witness:
  "gc_start \<lparr>heap = new_uGCHeap 0x50, wld = ex_w0, served_bytes = 0, segs = []\<rparr> \<and>
   manager_call ex_layout (HM_HandleFetchType 0x100000) new_uGCHandleManager ex_store2 = None"
  using initialize_starts_the_heap [of ex_clr "0x50" 0 "new_uGCHeap 0x50" new_uGCHandleManager ex_w0
      0 ex_layout "HM_HandleFetchType 0x100000" ex_store2]
  by (simp add: GC_Initialize_def ex_clr_def world_start_def ex_w0_def mem_ok_def ex_mem_defs Let_def
      del: manager_call.simps)

section \<open>The analysis driver\<close>

text \<open>C35: The driver of the value analysis has no undefined behaviour and returns 0, for every input
  in its intervals, every initial state of the globals and every behaviour of calloc; it
  leaves a reset store.\<close>

theorem eva_main_never_undefined:
  fixes lay :: "'w::len word layout"
  assumes "layout_ok lay" and "alloc_ptr \<noteq> 0" and "alloc_ptr \<noteq> alloc_limit"
    and "unat idx < UGC_HANDLE_COUNT"
  shows "\<exists>s'. eva_main lay alloc_ptr alloc_limit object_a object_b sz s1 s2 bypass
    t1 t2 t3 t4 t5 idx s = Some (0, s') \<and> reset_ensures s' s'"
  by (rule eva_main_returns [OF assms])

theorem eva_main_never_undefined_witness:
  "\<exists>s'. eva_main ex_layout 0x70 0x78 0x40 0x44 0xFFFFFFFFFFFFFFFF 100 0x20000 True 0 1 2 12 3 65534
    ex_store0 = Some (0, s') \<and> reset_ensures s' s'"
  by (rule eva_main_never_undefined [OF ex_layout_ok]) (simp_all add: UGC_HANDLE_COUNT_def)

section \<open>The unit tests\<close>

text \<open>C36: The unit tests of the handle store pass: linked with the core and run from any state
  of the globals, for every layout of the arrays and every place of the tests' variables, the
  test program has no undefined behaviour, returns 0 and has counted no failed check. That
  includes the test that fills all 65535 slots.\<close>

theorem handle_tests_pass:
  assumes "layout_ok lay" and "vars_ok lay v"
  shows "\<exists>k s'. handle_tests_main lay v s = Some (0, k, s') \<and> ugc_test_failures k = 0"
  by (rule handle_tests_run [OF assms])

theorem handle_tests_pass_witness:
  "\<exists>k s'. handle_tests_main ex_layout
      \<lparr>obj_a = 0x40, obj_b = 0x44, obj_c = 0x48, extra_a = 0x4c, local_int = 0x70, local_slot = 0x78\<rparr>
      ex_store2 = Some (0, k, s') \<and> ugc_test_failures k = 0"
  by (rule handle_tests_pass [OF ex_layout_ok])
    (simp add: vars_ok_def ex_layout_def apart_def array_bytes_def ptr_bytes_def UGC_HANDLE_COUNT_def)

text \<open>C37: The unit tests of the allocation core pass, linked with their recording allocator: on
  a 64-bit host whose calloc grants the 13 blocks they take, the test program has no undefined
  behaviour, reads and writes only allocated bytes, returns 0, has counted no failed check, and
  has freed every block it took and no other.\<close>

theorem alloc_tests_pass:
  assumes "places_next 13 (placements m) (blocks m)" and "ugc_test_nblocks m = 0"
    and "\<forall>i. ctx_ok (ctx i)"
  shows "\<exists>r m'. alloc_tests_main ctx m = Some (0, r, m') \<and>
    ugc_test_failures r = 0 \<and> blocks m' = blocks m"
  using alloc_tests_run [OF assms(1,2), of ctx] assms(3) by blast

theorem alloc_tests_pass_witness:
  "\<exists>r m'. alloc_tests_main (\<lambda>_. \<lparr>at_ptr = 0x70, at_limit = 0x78\<rparr>) ex_test_mem = Some (0, r, m') \<and>
    ugc_test_failures r = 0 \<and> blocks m' = [(0x1000, 8)]"
  using alloc_tests_pass [OF ex_places_next, of "\<lambda>_. \<lparr>at_ptr = 0x70, at_limit = 0x78\<rparr>"]
  by (simp add: ctx_ok_def ex_test_mem_def)

section \<open>Where the code falls short\<close>

text \<open>C38: The range test of uDestroyHandle lets the handle of any slot that was never taken, and
  so has type 0, through: destroying it pushes a free index that is not below the count, against the ACSL
  consistency predicate, and the next create returns that handle. Once the slots freed before
  are used up and those below it are taken, another create returns the same handle for a
  second object, with no destroy in between.\<close>

theorem destroying_untaken_slot_aliases:
  fixes lay :: "'w::len word layout"
  assumes "store_ok lay s" and "nat (ugc_handle_count s) \<le> i" and "i < UGC_HANDLE_COUNT"
    and "ugc_handle_types s i = 0" and "h = elem_addr (addr_handles lay) i" and "live_type t"
    and "length obs = nat (ugc_handle_free_count s) + (i - nat (ugc_handle_count s)) + 1"
  shows "\<exists>s1 s2 s3 hs. uDestroyHandle lay h s = Some s1 \<and> \<not> ugc_store_consistent s1 \<and>
    CreateHandleOfType lay a t s1 = Some (h, s2) \<and>
    creates_of_type lay t obs s2 = Some (hs, s3) \<and> last hs = h"
proof -
  from destroy_untaken [OF assms(1-5), of a t] obtain s1 s2 where
    r: "uDestroyHandle lay h s = Some s1" "\<not> ugc_store_consistent s1"
    "CreateHandleOfType lay a t s1 = Some (h, s2)" and inv: "store_inv s2"
    and n: "ugc_handle_count s2 = ugc_handle_count s" "ugc_handle_free_count s2 = ugc_handle_free_count s"
    by metis
  from creates_reach [OF inv assms(6) _ assms(3), of obs lay] assms(2,5,7) n obtain hs s3 where
    "creates_of_type lay t obs s2 = Some (hs @ [h], s3)" by auto
  with r show ?thesis by (metis last_snoc)
qed

theorem destroying_untaken_slot_aliases_witness:
  "\<exists>s1 s2 s3 hs. uDestroyHandle ex_layout 0x100008 ex_store0 = Some s1 \<and> \<not> ugc_store_consistent s1 \<and>
    CreateHandleOfType ex_layout 0x1000 1 s1 = Some (0x100008, s2) \<and>
    creates_of_type ex_layout 1 [0x2000, 0x3000] s2 = Some (hs, s3) \<and> last hs = 0x100008"
  by (rule destroying_untaken_slot_aliases [OF ex_store_ok, where i = 1])
    (use ex_elem in \<open>simp_all add: ex_store0_def globals_init_def cmem.defs UGC_HANDLE_COUNT_def live_type_def\<close>)

text \<open>C39: SetExtraInfoForHandle on a destroyed handle gives its slot a type again, so a second
  destroy is no longer recognised: the slot is on the free stack twice while the store still
  meets the ACSL consistency predicate, and the next two creates return the same handle.\<close>

theorem retyped_handle_is_freed_twice:
  assumes ok: "store_ok lay s" and l: "handle_lookup lay s h = Some v" and hm: "handle_store hm \<noteq> 0"
    and t: "live_type t" and room: "ugc_handle_free_count s + 1 < int UGC_HANDLE_COUNT"
  shows "\<exists>s1 s2 s3 s4 s5. uDestroyHandle lay h s = Some s1 \<and>
    SetExtraInfoForHandle lay hm h t e s1 = Some s2 \<and> uDestroyHandle lay h s2 = Some s3 \<and>
    ugc_store_consistent s3 \<and> \<not> distinct (free_slots s3) \<and>
    CreateHandleOfType lay a t s3 = Some (h, s4) \<and> CreateHandleOfType lay b t s4 = Some (h, s5)"
proof -
  from revived_handle [OF assms] obtain i s1 s2 s3 where
    r: "h = elem_addr (addr_handles lay) i" "uDestroyHandle lay h s = Some s1"
    "SetExtraInfoForHandle lay hm h t e s1 = Some s2" "uDestroyHandle lay h s2 = Some s3"
    "free_slots s3 = free_slots s @ [i, i]" "ugc_store_consistent s3" by metis
  from creates_alias [OF r(6,5), of lay a t b t] r show ?thesis
    by (auto simp: handle_simps)
qed

theorem retyped_handle_is_freed_twice_witness:
  "\<exists>s1 s2 s3 s4 s5. uDestroyHandle ex_layout 0x100000 ex_store2 = Some s1 \<and>
    SetExtraInfoForHandle ex_layout \<lparr>handle_store = 0x60\<rparr> 0x100000 1 0 s1 = Some s2 \<and>
    uDestroyHandle ex_layout 0x100000 s2 = Some s3 \<and>
    ugc_store_consistent s3 \<and> \<not> distinct (free_slots s3) \<and>
    CreateHandleOfType ex_layout 0x4000 1 s3 = Some (0x100000, s4) \<and>
    CreateHandleOfType ex_layout 0x5000 1 s4 = Some (0x100000, s5)"
  by (rule retyped_handle_is_freed_twice [OF ex_ok2 ex_lookup2(1)])
    (simp_all add: live_type_def UGC_HANDLE_COUNT_def)

end
